theory Spec2Isabelle
  imports Main "HOL-Library.Sublist" "HOL-Library.AList"
begin

section \<open>RBAC reconciler of the OpenShift TektonConfig controller\<close>

text \<open>
  A shallow embedding of \<^verbatim>\<open>pkg/reconciler/openshift/tektonconfig/rbac.go\<close>.
  Go slices are lists, Go structs are records, Go maps used as sets are sets of keys.
  Record fields carry a short prefix because several Kubernetes types share the field
  names \<^verbatim>\<open>Kind\<close>, \<^verbatim>\<open>Name\<close> and \<^verbatim>\<open>Namespace\<close>.
\<close>

subsection \<open>Data model\<close>

text \<open>\<^verbatim>\<open>rbacv1.Subject\<close>: the fields the reconciler reads and writes.\<close>

record Subject =
  sKind :: string
  sName :: string
  sNamespace :: string

text \<open>\<^verbatim>\<open>metav1.OwnerReference\<close>.\<close>

record OwnerReference =
  oAPIVersion :: string
  oKind :: string
  oName :: string
  oUID :: string

subsection \<open>Subject lists\<close>

text \<open>
  \<^verbatim>\<open>hasSubject\<close>: a range loop that returns at the first subject equal to \<open>x\<close> in
  name, kind and namespace.
\<close>

fun hasSubject :: "Subject list \<Rightarrow> Subject \<Rightarrow> bool" where
  "hasSubject [] x = False"
| "hasSubject (v # subjects) x =
     (if sName v = sName x \<and> sKind v = sKind x \<and> sNamespace v = sNamespace x then True
      else hasSubject subjects x)"

text \<open>The key \<^verbatim>\<open>fmt.Sprintf("%s/%s/%s", subject.Kind, subject.Name, subject.Namespace)\<close>.\<close>

definition subjectKey :: "Subject \<Rightarrow> string" where
  "subjectKey subject = sKind subject @ ''/'' @ sName subject @ ''/'' @ sNamespace subject"

text \<open>
  \<^verbatim>\<open>mergeSubjects\<close>. The first loop fills the map \<^verbatim>\<open>existingSubjects\<close>, whose values are
  empty structs: it is the set of its keys. The second loop appends to \<^verbatim>\<open>finalSubjects\<close>
  every subject of \<open>x\<close> whose key is not in that map; the map is not extended in this loop.
\<close>

fun trackExisting :: "Subject list \<Rightarrow> string set \<Rightarrow> string set" where
  "trackExisting [] existingSubjects = existingSubjects"
| "trackExisting (subject # subjects) existingSubjects =
     trackExisting subjects (insert (subjectKey subject) existingSubjects)"

fun appendMissing :: "string set \<Rightarrow> Subject list \<Rightarrow> Subject list \<Rightarrow> Subject list" where
  "appendMissing existingSubjects [] finalSubjects = finalSubjects"
| "appendMissing existingSubjects (subject # x) finalSubjects =
     (if subjectKey subject \<notin> existingSubjects
      then appendMissing existingSubjects x (finalSubjects @ [subject])
      else appendMissing existingSubjects x finalSubjects)"

definition mergeSubjects :: "Subject list \<Rightarrow> Subject list \<Rightarrow> Subject list" where
  "mergeSubjects subjects x =
     appendMissing (trackExisting subjects {}) x ([] @ subjects)"

text \<open>
  \<^verbatim>\<open>CompareSubjects\<close>: equal lengths, then the two key sets are compared (same size, and
  every key of the first in the second).
\<close>

definition CompareSubjects :: "Subject list \<Rightarrow> Subject list \<Rightarrow> bool" where
  "CompareSubjects list1 list2 =
     (if length list1 \<noteq> length list2 then False
      else let set1 = trackExisting list1 {}; set2 = trackExisting list2 {}
           in if card set1 \<noteq> card set2 then False
              else (\<forall>key \<in> set1. key \<in> set2))"

subsection \<open>Owner references\<close>

text \<open>\<^verbatim>\<open>hasOwnerRefernce\<close> compares API version, kind and name only.\<close>

fun hasOwnerRefernce :: "OwnerReference list \<Rightarrow> OwnerReference \<Rightarrow> bool" where
  "hasOwnerRefernce [] new = False"
| "hasOwnerRefernce (v # old) new =
     (if oAPIVersion v = oAPIVersion new \<and> oKind v = oKind new \<and> oName v = oName new
      then True else hasOwnerRefernce old new)"

text \<open>
  \<^verbatim>\<open>removeAndUpdate\<close>: \<^verbatim>\<open>append(append(slice[:s], slice[s+1:]...), r.ownerRef)\<close>. It is
  only called with an index inside the slice.
\<close>

definition removeAndUpdate ::
  "OwnerReference \<Rightarrow> OwnerReference list \<Rightarrow> nat \<Rightarrow> OwnerReference list" where
  "removeAndUpdate r_ownerRef slice s = (take s slice @ drop (s + 1) slice) @ [r_ownerRef]"

text \<open>The condition of the \<^verbatim>\<open>if\<close> inside the loop of \<^verbatim>\<open>updateOwnerRefs\<close>.\<close>

definition refDiffers :: "OwnerReference \<Rightarrow> OwnerReference \<Rightarrow> bool" where
  "refDiffers r_ownerRef ref \<longleftrightarrow>
     oAPIVersion ref \<noteq> oAPIVersion r_ownerRef \<or> oKind ref \<noteq> oKind r_ownerRef
       \<or> oName ref \<noteq> oName r_ownerRef"

text \<open>The range loop of \<^verbatim>\<open>updateOwnerRefs\<close>, from index \<open>i\<close> on.\<close>

function updateOwnerRefs_from ::
  "OwnerReference \<Rightarrow> OwnerReference list \<Rightarrow> nat \<Rightarrow> OwnerReference list" where
  "updateOwnerRefs_from r_ownerRef ownerRef i =
     (if i < length ownerRef then
        (if refDiffers r_ownerRef (ownerRef ! i) then removeAndUpdate r_ownerRef ownerRef i
         else updateOwnerRefs_from r_ownerRef ownerRef (i + 1))
      else ownerRef)"
  by pat_completeness auto
termination
  by (relation "measure (\<lambda>(r, ownerRef, i). length ownerRef - i)") auto

definition updateOwnerRefs :: "OwnerReference \<Rightarrow> OwnerReference list \<Rightarrow> OwnerReference list" where
  "updateOwnerRefs r_ownerRef ownerRef =
     (if length ownerRef = 0 then [r_ownerRef]
      else updateOwnerRefs_from r_ownerRef ownerRef 0)"

subsection \<open>Kubernetes objects and the reconciler\<close>

text \<open>
  The objects the reconciler reads and writes, with the fields it uses. A Go
  \<^verbatim>\<open>map[string]string\<close> is a partial function; reading a missing key gives the empty
  string, as in Go.
\<close>

definition lookupStr :: "(string \<rightharpoonup> string) \<Rightarrow> string \<Rightarrow> string" where
  "lookupStr m k = (case m k of None \<Rightarrow> [] | Some v \<Rightarrow> v)"

record Namespace =
  nsName :: string
  nsAnnotations :: "string \<rightharpoonup> string"
  nsLabels :: "string \<rightharpoonup> string"
  nsDeletionTimestamp :: "nat option"

record ServiceAccount =
  saName :: string
  saNamespace :: string
  saOwnerReferences :: "OwnerReference list"

record RoleRef =
  rrAPIGroup :: string
  rrKind :: string
  rrName :: string

record PolicyRule =
  prAPIGroups :: "string list"
  prResourceNames :: "string list"
  prResources :: "string list"
  prVerbs :: "string list"

record Role =
  roName :: string
  roNamespace :: string
  roOwnerReferences :: "OwnerReference list"
  roRules :: "PolicyRule list"

record ClusterRole =
  crName :: string
  crOwnerReferences :: "OwnerReference list"
  crRules :: "PolicyRule list"

record RoleBinding =
  rbName :: string
  rbNamespace :: string
  rbOwnerReferences :: "OwnerReference list"
  rbRoleRef :: RoleRef
  rbSubjects :: "Subject list"

record ClusterRoleBinding =
  crbName :: string
  crbOwnerReferences :: "OwnerReference list"
  crbRoleRef :: RoleRef
  crbSubjects :: "Subject list"

record ConfigMap =
  cmName :: string
  cmNamespace :: string
  cmLabels :: "string \<rightharpoonup> string"
  cmAnnotations :: "string \<rightharpoonup> string"
  cmOwnerReferences :: "OwnerReference list"

record Event =
  evNamespace :: string
  evOwnerReferences :: "OwnerReference list"
  evReason :: string
  evType :: string
  evAction :: string
  evSCC :: string

text \<open>\<^verbatim>\<open>v1alpha1.Param\<close>.\<close>

record Param =
  pName :: string
  pValue :: string

text \<open>
  \<^verbatim>\<open>v1alpha1.TektonConfig\<close>: the parameters and the two SCC names of
  \<^verbatim>\<open>Spec.Platforms.OpenShift.SCC\<close>. The helper \<^verbatim>\<open>tektonConfigOwnerRef\<close> is declared
  outside these sources; \<open>tcOwnerRef\<close> stands for the owner reference it returns for
  this TektonConfig.
\<close>

record TektonConfig =
  tcParams :: "Param list"
  tcSCCDefault :: string
  tcSCCMaxAllowed :: string
  tcOwnerRef :: OwnerReference

text \<open>
  \<^verbatim>\<open>v1alpha1.TektonInstallerSet\<close>, the bookkeeping object: its name, the release version
  it was created for, and \<open>isOwnerRef\<close>, the owner reference that \<^verbatim>\<open>configOwnerRef\<close>
  (declared outside these sources) returns for it.
\<close>

record TektonInstallerSet =
  isName :: string
  isVersion :: string
  isOwnerRef :: OwnerReference

text \<open>The fields of the \<^verbatim>\<open>rbac\<close> struct that are not clients.\<close>

record rbac =
  ownerRef :: OwnerReference
  version :: string
  tektonConfig :: TektonConfig

text \<open>Errors of the API machinery, and the errors the reconciler returns.\<close>

datatype apiError = NotFound | AlreadyExists | ServerError

datatype error =
    Api apiError
  | RECONCILE_AGAIN_ERR
  | Errorf string
  | Wrapf string error

text \<open>
  \<^verbatim>\<open>errors.IsNotFound\<close> and \<^verbatim>\<open>errors.IsAlreadyExists\<close>. They unwrap errors wrapped with
  \<^verbatim>\<open>%w\<close>; the reconciler applies them to errors that come straight from a client.
\<close>

fun IsNotFound :: "apiError \<Rightarrow> bool" where
  "IsNotFound NotFound = True"
| "IsNotFound _ = False"

fun IsAlreadyExists :: "apiError \<Rightarrow> bool" where
  "IsAlreadyExists AlreadyExists = True"
| "IsAlreadyExists _ = False"

subsection \<open>The cluster\<close>

text \<open>
  Every client call is recorded. \<open>faults c n\<close> says that the call number \<open>n\<close> (counted
  from zero over the whole log) fails with a server error, whatever the stored objects
  are: list, get, update failures ``not classified'' otherwise.
\<close>

datatype verb = Get | List | Create | Update | Delete | Patch

datatype resource =
    Namespaces | ServiceAccounts | Roles | RoleBindings | ClusterRoles
  | ClusterRoleBindings | ConfigMaps | Events | TektonInstallerSets
  | SecurityContextConstraints | ClusterRoleBindingLister | NamespaceLister

datatype apiCall = Call verb resource string string

record cluster =
  namespaces :: "Namespace list"
  serviceAccounts :: "string \<times> string \<rightharpoonup> ServiceAccount"
  roles :: "string \<times> string \<rightharpoonup> Role"
  roleBindings :: "string \<times> string \<rightharpoonup> RoleBinding"
  clusterRoles :: "string \<rightharpoonup> ClusterRole"
  clusterRoleBindings :: "string \<rightharpoonup> ClusterRoleBinding"
  configMaps :: "string \<times> string \<rightharpoonup> ConfigMap"
  events :: "Event list"
  installerSets :: "TektonInstallerSet list"
  sccPriority :: "string list"
  crbCache :: "string \<rightharpoonup> ClusterRoleBinding"
  nsCache :: "Namespace list"
  calls :: "apiCall list"
  faults :: "nat \<Rightarrow> bool"

text \<open>Record a call; the result says whether it was made to fail.\<close>

definition invoke :: "apiCall \<Rightarrow> cluster \<Rightarrow> bool \<times> cluster" where
  "invoke call c = (faults c (length (calls c)), c\<lparr>calls := calls c @ [call]\<rparr>)"

text \<open>The number of \<^verbatim>\<open>Update\<close> calls in a log.\<close>

fun isUpdate :: "apiCall \<Rightarrow> bool" where
  "isUpdate (Call v res ns name) = (v = Update)"

definition updateCalls :: "cluster \<Rightarrow> apiCall list" where
  "updateCalls c = filter isUpdate (calls c)"

subsection \<open>Constants of the reconciler\<close>

definition pipelinesSCCRole :: string where "pipelinesSCCRole = ''pipelines-scc-role''"
definition pipelinesSCCClusterRole :: string where
  "pipelinesSCCClusterRole = ''pipelines-scc-clusterrole''"
definition pipelinesSCCRoleBinding :: string where
  "pipelinesSCCRoleBinding = ''pipelines-scc-rolebinding''"
definition pipelineSA :: string where "pipelineSA = ''pipeline''"
definition PipelineRoleBinding :: string where "PipelineRoleBinding = ''openshift-pipelines-edit''"
definition rbacInstallerSetNameOld :: string where "rbacInstallerSetNameOld = ''rbac-resources''"
definition serviceCABundleConfigMap :: string where
  "serviceCABundleConfigMap = ''config-service-cabundle''"
definition trustedCABundleConfigMap :: string where
  "trustedCABundleConfigMap = ''config-trusted-cabundle''"
definition clusterInterceptors :: string where
  "clusterInterceptors = ''openshift-pipelines-clusterinterceptors''"
definition namespaceVersionLabel :: string where
  "namespaceVersionLabel = ''openshift-pipelines.tekton.dev/namespace-reconcile-version''"
definition namespaceTrustedConfigLabel :: string where
  "namespaceTrustedConfigLabel =
     ''openshift-pipelines.tekton.dev/namespace-trusted-configmaps-version''"
definition rbacInstallerSetNamePrefix :: string where
  "rbacInstallerSetNamePrefix = ''rhosp-rbac-''"
definition rbacParamName :: string where "rbacParamName = ''createRbacResource''"
definition trustedCABundleParamName :: string where
  "trustedCABundleParamName = ''createCABundleConfigMaps''"
definition legacyPipelineRbacParamName :: string where
  "legacyPipelineRbacParamName = ''legacyPipelineRbac''"
definition ServiceAccountKind :: string where "ServiceAccountKind = ''ServiceAccount''"
definition GroupName :: string where "GroupName = ''rbac.authorization.k8s.io''"

text \<open>
  \<^verbatim>\<open>openshift.NamespaceSCCAnnotation\<close> is declared outside these sources; only its being
  one fixed annotation key matters.
\<close>

definition NamespaceSCCAnnotation :: string where
  "NamespaceSCCAnnotation = ''operator.tekton.dev/scc''"

subsection \<open>Client calls\<close>

text \<open>
  The clients behave like an API server holding the stored objects: a read of a missing
  object is \<open>NotFound\<close>, a create of an existing one is \<open>AlreadyExists\<close>, an update or
  delete of a missing one is \<open>NotFound\<close>, and any call may fail with a server error
  (\<open>faults\<close>). A call that fails changes nothing but the log.
\<close>

definition getServiceAccount ::
  "string \<Rightarrow> string \<Rightarrow> cluster \<Rightarrow> (apiError + ServiceAccount) \<times> cluster" where
  "getServiceAccount ns name c =
     (case invoke (Call Get ServiceAccounts ns name) c of (bad, c1) \<Rightarrow>
        if bad then (Inl ServerError, c1)
        else case serviceAccounts c1 (ns, name) of
               None \<Rightarrow> (Inl NotFound, c1)
             | Some sa \<Rightarrow> (Inr sa, c1))"

definition createServiceAccount ::
  "string \<Rightarrow> ServiceAccount \<Rightarrow> cluster \<Rightarrow> (apiError + ServiceAccount) \<times> cluster" where
  "createServiceAccount ns sa c =
     (case invoke (Call Create ServiceAccounts ns (saName sa)) c of (bad, c1) \<Rightarrow>
        if bad then (Inl ServerError, c1)
        else case serviceAccounts c1 (ns, saName sa) of
               Some old \<Rightarrow> (Inl AlreadyExists, c1)
             | None \<Rightarrow>
                 (Inr sa, c1\<lparr>serviceAccounts := (serviceAccounts c1)((ns, saName sa) \<mapsto> sa)\<rparr>))"

definition updateServiceAccount ::
  "string \<Rightarrow> ServiceAccount \<Rightarrow> cluster \<Rightarrow> (apiError + ServiceAccount) \<times> cluster" where
  "updateServiceAccount ns sa c =
     (case invoke (Call Update ServiceAccounts ns (saName sa)) c of (bad, c1) \<Rightarrow>
        if bad then (Inl ServerError, c1)
        else case serviceAccounts c1 (ns, saName sa) of
               None \<Rightarrow> (Inl NotFound, c1)
             | Some old \<Rightarrow>
                 (Inr sa, c1\<lparr>serviceAccounts := (serviceAccounts c1)((ns, saName sa) \<mapsto> sa)\<rparr>))"

definition getRole :: "string \<Rightarrow> string \<Rightarrow> cluster \<Rightarrow> (apiError + Role) \<times> cluster" where
  "getRole ns name c =
     (case invoke (Call Get Roles ns name) c of (bad, c1) \<Rightarrow>
        if bad then (Inl ServerError, c1)
        else case roles c1 (ns, name) of
               None \<Rightarrow> (Inl NotFound, c1)
             | Some ro \<Rightarrow> (Inr ro, c1))"

definition createRole :: "string \<Rightarrow> Role \<Rightarrow> cluster \<Rightarrow> apiError option \<times> cluster" where
  "createRole ns ro c =
     (case invoke (Call Create Roles ns (roName ro)) c of (bad, c1) \<Rightarrow>
        if bad then (Some ServerError, c1)
        else case roles c1 (ns, roName ro) of
               Some old \<Rightarrow> (Some AlreadyExists, c1)
             | None \<Rightarrow> (None, c1\<lparr>roles := (roles c1)((ns, roName ro) \<mapsto> ro)\<rparr>))"

definition updateRole :: "string \<Rightarrow> Role \<Rightarrow> cluster \<Rightarrow> apiError option \<times> cluster" where
  "updateRole ns ro c =
     (case invoke (Call Update Roles ns (roName ro)) c of (bad, c1) \<Rightarrow>
        if bad then (Some ServerError, c1)
        else case roles c1 (ns, roName ro) of
               None \<Rightarrow> (Some NotFound, c1)
             | Some old \<Rightarrow> (None, c1\<lparr>roles := (roles c1)((ns, roName ro) \<mapsto> ro)\<rparr>))"

definition deleteRole :: "string \<Rightarrow> string \<Rightarrow> cluster \<Rightarrow> apiError option \<times> cluster" where
  "deleteRole ns name c =
     (case invoke (Call Delete Roles ns name) c of (bad, c1) \<Rightarrow>
        if bad then (Some ServerError, c1)
        else case roles c1 (ns, name) of
               None \<Rightarrow> (Some NotFound, c1)
             | Some old \<Rightarrow> (None, c1\<lparr>roles := (roles c1)((ns, name) := None)\<rparr>))"

definition getRoleBinding ::
  "string \<Rightarrow> string \<Rightarrow> cluster \<Rightarrow> (apiError + RoleBinding) \<times> cluster" where
  "getRoleBinding ns name c =
     (case invoke (Call Get RoleBindings ns name) c of (bad, c1) \<Rightarrow>
        if bad then (Inl ServerError, c1)
        else case roleBindings c1 (ns, name) of
               None \<Rightarrow> (Inl NotFound, c1)
             | Some rb \<Rightarrow> (Inr rb, c1))"

definition createRoleBindingObject ::
  "string \<Rightarrow> RoleBinding \<Rightarrow> cluster \<Rightarrow> apiError option \<times> cluster" where
  "createRoleBindingObject ns rb c =
     (case invoke (Call Create RoleBindings ns (rbName rb)) c of (bad, c1) \<Rightarrow>
        if bad then (Some ServerError, c1)
        else case roleBindings c1 (ns, rbName rb) of
               Some old \<Rightarrow> (Some AlreadyExists, c1)
             | None \<Rightarrow>
                 (None, c1\<lparr>roleBindings := (roleBindings c1)((ns, rbName rb) \<mapsto> rb)\<rparr>))"

definition updateRoleBindingObject ::
  "string \<Rightarrow> RoleBinding \<Rightarrow> cluster \<Rightarrow> apiError option \<times> cluster" where
  "updateRoleBindingObject ns rb c =
     (case invoke (Call Update RoleBindings ns (rbName rb)) c of (bad, c1) \<Rightarrow>
        if bad then (Some ServerError, c1)
        else case roleBindings c1 (ns, rbName rb) of
               None \<Rightarrow> (Some NotFound, c1)
             | Some old \<Rightarrow>
                 (None, c1\<lparr>roleBindings := (roleBindings c1)((ns, rbName rb) \<mapsto> rb)\<rparr>))"

definition deleteRoleBinding ::
  "string \<Rightarrow> string \<Rightarrow> cluster \<Rightarrow> apiError option \<times> cluster" where
  "deleteRoleBinding ns name c =
     (case invoke (Call Delete RoleBindings ns name) c of (bad, c1) \<Rightarrow>
        if bad then (Some ServerError, c1)
        else case roleBindings c1 (ns, name) of
               None \<Rightarrow> (Some NotFound, c1)
             | Some old \<Rightarrow>
                 (None, c1\<lparr>roleBindings := (roleBindings c1)((ns, name) := None)\<rparr>))"

definition getClusterRole :: "string \<Rightarrow> cluster \<Rightarrow> (apiError + ClusterRole) \<times> cluster" where
  "getClusterRole name c =
     (case invoke (Call Get ClusterRoles [] name) c of (bad, c1) \<Rightarrow>
        if bad then (Inl ServerError, c1)
        else case clusterRoles c1 name of
               None \<Rightarrow> (Inl NotFound, c1)
             | Some cr \<Rightarrow> (Inr cr, c1))"

definition createClusterRoleObject ::
  "ClusterRole \<Rightarrow> cluster \<Rightarrow> apiError option \<times> cluster" where
  "createClusterRoleObject cr c =
     (case invoke (Call Create ClusterRoles [] (crName cr)) c of (bad, c1) \<Rightarrow>
        if bad then (Some ServerError, c1)
        else case clusterRoles c1 (crName cr) of
               Some old \<Rightarrow> (Some AlreadyExists, c1)
             | None \<Rightarrow> (None, c1\<lparr>clusterRoles := (clusterRoles c1)(crName cr \<mapsto> cr)\<rparr>))"

definition updateClusterRole :: "ClusterRole \<Rightarrow> cluster \<Rightarrow> apiError option \<times> cluster" where
  "updateClusterRole cr c =
     (case invoke (Call Update ClusterRoles [] (crName cr)) c of (bad, c1) \<Rightarrow>
        if bad then (Some ServerError, c1)
        else case clusterRoles c1 (crName cr) of
               None \<Rightarrow> (Some NotFound, c1)
             | Some old \<Rightarrow> (None, c1\<lparr>clusterRoles := (clusterRoles c1)(crName cr \<mapsto> cr)\<rparr>))"

definition getClusterRoleBinding ::
  "string \<Rightarrow> cluster \<Rightarrow> (apiError + ClusterRoleBinding) \<times> cluster" where
  "getClusterRoleBinding name c =
     (case invoke (Call Get ClusterRoleBindings [] name) c of (bad, c1) \<Rightarrow>
        if bad then (Inl ServerError, c1)
        else case clusterRoleBindings c1 name of
               None \<Rightarrow> (Inl NotFound, c1)
             | Some crb \<Rightarrow> (Inr crb, c1))"

definition createClusterRoleBinding ::
  "ClusterRoleBinding \<Rightarrow> cluster \<Rightarrow> apiError option \<times> cluster" where
  "createClusterRoleBinding crb c =
     (case invoke (Call Create ClusterRoleBindings [] (crbName crb)) c of (bad, c1) \<Rightarrow>
        if bad then (Some ServerError, c1)
        else case clusterRoleBindings c1 (crbName crb) of
               Some old \<Rightarrow> (Some AlreadyExists, c1)
             | None \<Rightarrow>
                 (None, c1\<lparr>clusterRoleBindings := (clusterRoleBindings c1)(crbName crb \<mapsto> crb)\<rparr>))"

definition updateClusterRoleBinding ::
  "ClusterRoleBinding \<Rightarrow> cluster \<Rightarrow> apiError option \<times> cluster" where
  "updateClusterRoleBinding crb c =
     (case invoke (Call Update ClusterRoleBindings [] (crbName crb)) c of (bad, c1) \<Rightarrow>
        if bad then (Some ServerError, c1)
        else case clusterRoleBindings c1 (crbName crb) of
               None \<Rightarrow> (Some NotFound, c1)
             | Some old \<Rightarrow>
                 (None, c1\<lparr>clusterRoleBindings := (clusterRoleBindings c1)(crbName crb \<mapsto> crb)\<rparr>))"

definition getConfigMap ::
  "string \<Rightarrow> string \<Rightarrow> cluster \<Rightarrow> (apiError + ConfigMap) \<times> cluster" where
  "getConfigMap ns name c =
     (case invoke (Call Get ConfigMaps ns name) c of (bad, c1) \<Rightarrow>
        if bad then (Inl ServerError, c1)
        else case configMaps c1 (ns, name) of
               None \<Rightarrow> (Inl NotFound, c1)
             | Some cm \<Rightarrow> (Inr cm, c1))"

definition createConfigMap ::
  "string \<Rightarrow> ConfigMap \<Rightarrow> cluster \<Rightarrow> (apiError + ConfigMap) \<times> cluster" where
  "createConfigMap ns cm c =
     (case invoke (Call Create ConfigMaps ns (cmName cm)) c of (bad, c1) \<Rightarrow>
        if bad then (Inl ServerError, c1)
        else case configMaps c1 (ns, cmName cm) of
               Some old \<Rightarrow> (Inl AlreadyExists, c1)
             | None \<Rightarrow> (Inr cm, c1\<lparr>configMaps := (configMaps c1)((ns, cmName cm) \<mapsto> cm)\<rparr>))"

definition updateConfigMap ::
  "string \<Rightarrow> ConfigMap \<Rightarrow> cluster \<Rightarrow> apiError option \<times> cluster" where
  "updateConfigMap ns cm c =
     (case invoke (Call Update ConfigMaps ns (cmName cm)) c of (bad, c1) \<Rightarrow>
        if bad then (Some ServerError, c1)
        else case configMaps c1 (ns, cmName cm) of
               None \<Rightarrow> (Some NotFound, c1)
             | Some old \<Rightarrow> (None, c1\<lparr>configMaps := (configMaps c1)((ns, cmName cm) \<mapsto> cm)\<rparr>))"

definition createEvent :: "string \<Rightarrow> Event \<Rightarrow> cluster \<Rightarrow> apiError option \<times> cluster" where
  "createEvent ns ev c =
     (case invoke (Call Create Events ns ''pipelines-scc-failure-'') c of (bad, c1) \<Rightarrow>
        if bad then (Some ServerError, c1)
        else (None, c1\<lparr>events := events c1 @ [ev]\<rparr>))"

text \<open>
  Namespaces. A label selector \<open>key = value\<close> selects the namespaces that carry the label
  with that value. Names are unique on a cluster; an update replaces the namespace of
  the same name, a patch of one label sets that label and leaves the others.
\<close>

definition hasLabel :: "string \<Rightarrow> string \<Rightarrow> Namespace \<Rightarrow> bool" where
  "hasLabel key val n \<longleftrightarrow> nsLabels n key = Some val"

definition listNamespaces :: "cluster \<Rightarrow> (apiError + Namespace list) \<times> cluster" where
  "listNamespaces c =
     (case invoke (Call List Namespaces [] []) c of (bad, c1) \<Rightarrow>
        if bad then (Inl ServerError, c1) else (Inr (namespaces c1), c1))"

definition listNamespacesWithLabel ::
  "string \<Rightarrow> string \<Rightarrow> cluster \<Rightarrow> (apiError + Namespace list) \<times> cluster" where
  "listNamespacesWithLabel key val c =
     (case invoke (Call List Namespaces [] (key @ '' = '' @ val)) c of (bad, c1) \<Rightarrow>
        if bad then (Inl ServerError, c1)
        else (Inr (filter (hasLabel key val) (namespaces c1)), c1))"

definition updateNamespace :: "Namespace \<Rightarrow> cluster \<Rightarrow> apiError option \<times> cluster" where
  "updateNamespace n c =
     (case invoke (Call Update Namespaces [] (nsName n)) c of (bad, c1) \<Rightarrow>
        if bad then (Some ServerError, c1)
        else if nsName n \<notin> nsName ` set (namespaces c1) then (Some NotFound, c1)
        else (None, c1\<lparr>namespaces :=
                 map (\<lambda>m. if nsName m = nsName n then n else m) (namespaces c1)\<rparr>))"

definition patchNamespace ::
  "string \<Rightarrow> string \<Rightarrow> string \<Rightarrow> cluster \<Rightarrow> apiError option \<times> cluster" where
  "patchNamespace name key val c =
     (case invoke (Call Patch Namespaces [] name) c of (bad, c1) \<Rightarrow>
        if bad then (Some ServerError, c1)
        else if name \<notin> nsName ` set (namespaces c1) then (Some NotFound, c1)
        else (None, c1\<lparr>namespaces :=
                 map (\<lambda>m. if nsName m = name then m\<lparr>nsLabels := (nsLabels m)(key \<mapsto> val)\<rparr> else m)
                   (namespaces c1)\<rparr>))"

text \<open>
  The informer caches, read through their listers. They may lag behind the stored
  objects, so they are separate fields of the cluster.
\<close>

definition listerGetClusterRoleBinding ::
  "string \<Rightarrow> cluster \<Rightarrow> (apiError + ClusterRoleBinding) \<times> cluster" where
  "listerGetClusterRoleBinding name c =
     (case invoke (Call Get ClusterRoleBindingLister [] name) c of (bad, c1) \<Rightarrow>
        if bad then (Inl ServerError, c1)
        else case crbCache c1 name of
               None \<Rightarrow> (Inl NotFound, c1)
             | Some crb \<Rightarrow> (Inr crb, c1))"

definition listerListNamespaces ::
  "string \<Rightarrow> string \<Rightarrow> cluster \<Rightarrow> (apiError + Namespace list) \<times> cluster" where
  "listerListNamespaces key val c =
     (case invoke (Call List NamespaceLister [] (key @ ''='' @ val)) c of (bad, c1) \<Rightarrow>
        if bad then (Inl ServerError, c1)
        else (Inr (filter (hasLabel key val) (nsCache c1)), c1))"

subsection \<open>Defaulting the toggles\<close>

text \<open>
  \<^verbatim>\<open>setDefault\<close>. The range loop reads the copy \<open>v\<close> of each parameter and writes the
  stored parameter \<^verbatim>\<open>Params[i]\<close>; the three tests are written one after the other, as
  in the source. The local variables of the function are the record \<open>setDefaultVars\<close>.
\<close>

record setDefaultVars =
  rbacParamFound :: bool
  legacyParamFound :: bool
  caBundleParamFound :: bool
  createRbacResourceValue :: string

fun setDefault_loop :: "Param list \<Rightarrow> setDefaultVars \<Rightarrow> Param list \<times> setDefaultVars" where
  "setDefault_loop [] vars = ([], vars)"
| "setDefault_loop (v # params) vars =
     (let (p1, vars1) =
            (if pName v = rbacParamName
             then (if pValue v \<noteq> ''false'' \<and> pValue v \<noteq> ''true'' then v\<lparr>pValue := ''true''\<rparr> else v,
                   vars\<lparr>rbacParamFound := True, createRbacResourceValue := pValue v\<rparr>)
             else (v, vars));
          (p2, vars2) =
            (if pName v = legacyPipelineRbacParamName
             then (if pValue v \<noteq> ''false'' \<and> pValue v \<noteq> ''true'' then p1\<lparr>pValue := ''true''\<rparr> else p1,
                   vars1\<lparr>legacyParamFound := True\<rparr>)
             else (p1, vars1));
          (p3, vars3) =
            (if pName v = trustedCABundleParamName
             then (if pValue v \<noteq> ''false'' \<and> pValue v \<noteq> ''true'' then p2\<lparr>pValue := ''true''\<rparr> else p2,
                   vars2\<lparr>caBundleParamFound := True\<rparr>)
             else (p2, vars2));
          (rest, vars') = setDefault_loop params vars3
      in (p3 # rest, vars'))"

definition setDefault :: "rbac \<Rightarrow> rbac" where
  "setDefault r =
     (let (params, vars) =
            setDefault_loop (tcParams (tektonConfig r))
              \<lparr>rbacParamFound = False, legacyParamFound = False, caBundleParamFound = False,
               createRbacResourceValue = []\<rparr>;
          params1 = (if \<not> rbacParamFound vars
                     then params @ [\<lparr>pName = rbacParamName, pValue = ''true''\<rparr>] else params);
          params2 = (if \<not> legacyParamFound vars
                     then params1 @ [\<lparr>pName = legacyPipelineRbacParamName, pValue = ''true''\<rparr>]
                     else params1);
          params3 = (if \<not> caBundleParamFound vars
                     then (let defaultVal =
                                 (if rbacParamFound vars \<and> createRbacResourceValue vars = ''false''
                                  then ''false'' else ''true'')
                           in params2 @ [\<lparr>pName = trustedCABundleParamName, pValue = defaultVal\<rparr>])
                     else params2)
      in r\<lparr>tektonConfig := (tektonConfig r)\<lparr>tcParams := params3\<rparr>\<rparr>)"

subsection \<open>Pruning the cluster interceptors binding\<close>

text \<open>\<^verbatim>\<open>removeIndex\<close>: \<^verbatim>\<open>append(s[:index], s[index+1:]...)\<close>, called with an index inside \<open>s\<close>.\<close>

definition removeIndex :: "Subject list \<Rightarrow> nat \<Rightarrow> Subject list" where
  "removeIndex s index = take index s @ drop (index + 1) s"

text \<open>
  The map \<^verbatim>\<open>nsMap\<close> from the name of each listed namespace to itself, as an
  association list with one entry for each key: its length is \<^verbatim>\<open>len(nsMap)\<close>.
\<close>

fun buildNsMap :: "Namespace list \<Rightarrow> (string \<times> string) list \<Rightarrow> (string \<times> string) list" where
  "buildNsMap [] nsMap = nsMap"
| "buildNsMap (n # listed) nsMap = buildNsMap listed (AList.update (nsName n) (nsName n) nsMap)"

text \<open>
  The loop \<^verbatim>\<open>for i := 0; i <= len(rb.Subjects)-1; i++\<close> of \<^verbatim>\<open>removeAndUpdateNSFromCI\<close>.
  Both the bound and the comparison with \<^verbatim>\<open>len(nsMap)\<close> read the current length of the
  subject list, which a removal shortens; the index is incremented after a removal too.
  The result is the subject list and the flag \<^verbatim>\<open>update\<close>.
\<close>

function pruneSubjects ::
  "(string \<times> string) list \<Rightarrow> Subject list \<Rightarrow> nat \<Rightarrow> bool \<Rightarrow> Subject list \<times> bool" where
  "pruneSubjects nsMap subjects i update =
     (if int i \<le> int (length subjects) - 1 then
        (if length nsMap \<noteq> length subjects then
           (if map_of nsMap (sNamespace (subjects ! i)) = None
            then pruneSubjects nsMap (removeIndex subjects i) (i + 1) True
            else pruneSubjects nsMap subjects (i + 1) update)
         else pruneSubjects nsMap subjects (i + 1) update)
      else (subjects, update))"
  by pat_completeness auto
termination
  by (relation "measure (\<lambda>(nsMap, subjects, i, update). length subjects - i)")
    (auto simp: removeIndex_def)

text \<open>
  \<^verbatim>\<open>validation.IsValidLabelValue\<close> of the Kubernetes API machinery, which
  \<^verbatim>\<open>labels.NewRequirement\<close> applies to the version: at most 63 characters, empty or
  alphanumeric at both ends with \<open>-\<close>, \<open>_\<close>, \<open>.\<close> allowed inside.
\<close>

definition isAlnum :: "char \<Rightarrow> bool" where
  "isAlnum ch \<longleftrightarrow>
     ch \<in> set ''abcdefghijklmnopqrstuvwxyzABCDEFGHIJKLMNOPQRSTUVWXYZ0123456789''"

definition validLabelValue :: "string \<Rightarrow> bool" where
  "validLabelValue v \<longleftrightarrow>
     length v \<le> 63 \<and>
     (v = [] \<or> (isAlnum (hd v) \<and> isAlnum (last v) \<and> (\<forall>ch \<in> set v. isAlnum ch \<or> ch \<in> set ''-_.'')))"

text \<open>
  \<^verbatim>\<open>removeAndUpdateNSFromCI\<close>. The binding comes from the informer cache and is changed
  in place, so the cached object changes with it, whether or not the update succeeds.
  \<open>pruneAndUpdate\<close> is the part of the function after the two lister calls.
\<close>

definition pruneAndUpdate ::
  "ClusterRoleBinding \<Rightarrow> Namespace list \<Rightarrow> cluster \<Rightarrow> error option \<times> cluster" where
  "pruneAndUpdate rb listed c =
     (case pruneSubjects (buildNsMap listed []) (crbSubjects rb) 0 False of
        (subjects, update) \<Rightarrow>
          let rb' = rb\<lparr>crbSubjects := subjects\<rparr>;
              c1 = c\<lparr>crbCache := (crbCache c)(clusterInterceptors \<mapsto> rb')\<rparr>
          in if update then
               (case updateClusterRoleBinding rb' c1 of
                  (Some err, c2) \<Rightarrow> (Some (Api err), c2)
                | (None, c2) \<Rightarrow> (None, c2))
             else (None, c1))"

definition removeAndUpdateNSFromCI :: "rbac \<Rightarrow> cluster \<Rightarrow> error option \<times> cluster" where
  "removeAndUpdateNSFromCI r c =
     (case listerGetClusterRoleBinding clusterInterceptors c of
        (Inl err, c1) \<Rightarrow> if \<not> IsNotFound err then (Some (Api err), c1) else (None, c1)
      | (Inr rb, c1) \<Rightarrow>
          if \<not> validLabelValue (version r)
          then (Some (Errorf ''failed to create requirement''), c1)
          else
            (case listerListNamespaces namespaceVersionLabel (version r) c1 of
               (Inl err, c2) \<Rightarrow>
                 if \<not> IsNotFound err then (Some (Api err), c2) else pruneAndUpdate rb [] c2
             | (Inr listed, c2) \<Rightarrow> pruneAndUpdate rb listed c2))"

text \<open>
  For stating what the pruning does: the names of the cached namespaces that carry the
  version label with the reconciler's version, and the subject list the loop leaves.
\<close>

definition labeledNames :: "rbac \<Rightarrow> cluster \<Rightarrow> string set" where
  "labeledNames r c =
     nsName ` set (filter (hasLabel namespaceVersionLabel (version r)) (nsCache c))"


text \<open>
  For stating what \<^verbatim>\<open>setDefault\<close> does: the three toggle names, and a parameter with
  a toggle name and a value other than \<open>true\<close> and \<open>false\<close> set to \<open>true\<close>.
\<close>

definition isToggle :: "string \<Rightarrow> bool" where
  "isToggle n \<longleftrightarrow> n = rbacParamName \<or> n = legacyPipelineRbacParamName \<or> n = trustedCABundleParamName"

definition normalised :: "Param \<Rightarrow> Param" where
  "normalised p =
     (if isToggle (pName p) \<and> pValue p \<noteq> ''false'' \<and> pValue p \<noteq> ''true''
      then p\<lparr>pValue := ''true''\<rparr> else p)"

subsection \<open>Security context constraints\<close>

text \<open>
  The package \<^verbatim>\<open>common\<close> with \<^verbatim>\<open>VerifySCCExists\<close>, \<^verbatim>\<open>GetSCCRestrictiveList\<close> and
  \<^verbatim>\<open>SCCAMoreRestrictiveThanB\<close> is not part of these sources. \<open>sccPriority\<close> is the list
  of the names of the SCCs on the cluster, the most restrictive first.
\<close>

text \<open>
  Modelled from the spec: \<^verbatim>\<open>common.VerifySCCExists\<close>, missing from the sources;
  ``verifies both names exist as real security policies on the cluster (fails with
  NotFound if not)''.
\<close>

definition VerifySCCExists :: "string \<Rightarrow> cluster \<Rightarrow> error option \<times> cluster" where
  "VerifySCCExists name c =
     (case invoke (Call Get SecurityContextConstraints [] name) c of (bad, c1) \<Rightarrow>
        if bad then (Some (Api ServerError), c1)
        else if name \<in> set (sccPriority c1) then (None, c1)
        else (Some (Api NotFound), c1))"

text \<open>
  Modelled from the spec: \<^verbatim>\<open>common.GetSCCRestrictiveList\<close>, missing from the sources;
  the ``externally supplied total order over named security policies by
  restrictiveness''.
\<close>

definition GetSCCRestrictiveList :: "cluster \<Rightarrow> (error + string list) \<times> cluster" where
  "GetSCCRestrictiveList c =
     (case invoke (Call List SecurityContextConstraints [] []) c of (bad, c1) \<Rightarrow>
        if bad then (Inl (Api ServerError), c1) else (Inr (sccPriority c1), c1))"

text \<open>
  Modelled from the spec: \<^verbatim>\<open>common.SCCAMoreRestrictiveThanB\<close>, missing from the sources;
  the comparison ``is A at least as restrictive as B'', as ``an explicit index lookup
  over an ordered sequence of policy names''. A name that is not in the list is an error.
\<close>

definition indexOf :: "string list \<Rightarrow> string \<Rightarrow> nat" where
  "indexOf names name = length (takeWhile (\<lambda>n. n \<noteq> name) names)"

definition SCCAMoreRestrictiveThanB :: "string list \<Rightarrow> string \<Rightarrow> string \<Rightarrow> error + bool" where
  "SCCAMoreRestrictiveThanB prioritizedSCCList sccA sccB =
     (if sccA \<notin> set prioritizedSCCList \<or> sccB \<notin> set prioritizedSCCList
      then Inl (Errorf ''scc not found in the priority list'')
      else Inr (indexOf prioritizedSCCList sccA \<le> indexOf prioritizedSCCList sccB))"

subsection \<open>The bookkeeping object\<close>

text \<open>\<^verbatim>\<open>removeObsoleteRBACInstallerSet\<close>: delete by name, a missing object is no error.\<close>

definition deleteInstallerSet :: "string \<Rightarrow> cluster \<Rightarrow> apiError option \<times> cluster" where
  "deleteInstallerSet name c =
     (case invoke (Call Delete TektonInstallerSets [] name) c of (bad, c1) \<Rightarrow>
        if bad then (Some ServerError, c1)
        else if name \<notin> isName ` set (installerSets c1) then (Some NotFound, c1)
        else (None, c1\<lparr>installerSets := filter (\<lambda>s. isName s \<noteq> name) (installerSets c1)\<rparr>))"

definition removeObsoleteRBACInstallerSet :: "cluster \<Rightarrow> error option \<times> cluster" where
  "removeObsoleteRBACInstallerSet c =
     (case deleteInstallerSet rbacInstallerSetNameOld c of
        (Some err, c1) \<Rightarrow> if \<not> IsNotFound err then (Some (Api err), c1) else (None, c1)
      | (None, c1) \<Rightarrow> (None, c1))"

text \<open>
  Modelled from the spec: \<^verbatim>\<open>checkIfInstallerSetExist\<close>, missing from the sources;
  it ``checks whether a bookkeeping object for the current version exists'', through
  ``a bookkeeping-object create/lookup service keyed by release version''.
\<close>

definition checkIfInstallerSetExist ::
  "string \<Rightarrow> cluster \<Rightarrow> (error + TektonInstallerSet option) \<times> cluster" where
  "checkIfInstallerSetExist release c =
     (case invoke (Call List TektonInstallerSets [] release) c of (bad, c1) \<Rightarrow>
        if bad then (Inl (Api ServerError), c1)
        else (Inr (find (\<lambda>s. isVersion s = release) (installerSets c1)), c1))"

text \<open>
  Modelled from the spec: \<^verbatim>\<open>createInstallerSet\<close>, missing from the sources; it creates
  the bookkeeping object of the release. The server generates the name from the prefix
  \<open>rhosp-rbac-\<close>; the release stands for the generated suffix here.
\<close>

definition newInstallerSet :: "string \<Rightarrow> TektonInstallerSet" where
  "newInstallerSet release =
     \<lparr>isName = rbacInstallerSetNamePrefix @ release, isVersion = release,
      isOwnerRef = \<lparr>oAPIVersion = ''operator.tekton.dev/v1alpha1'', oKind = ''TektonInstallerSet'',
                    oName = rbacInstallerSetNamePrefix @ release,
                    oUID = rbacInstallerSetNamePrefix @ release\<rparr>\<rparr>"

definition createInstallerSet :: "string \<Rightarrow> cluster \<Rightarrow> error option \<times> cluster" where
  "createInstallerSet release c =
     (case invoke (Call Create TektonInstallerSets [] rbacInstallerSetNamePrefix) c of (bad, c1) \<Rightarrow>
        if bad then (Some (Api ServerError), c1)
        else (None, c1\<lparr>installerSets := installerSets c1 @ [newInstallerSet release]\<rparr>))"

text \<open>
  \<^verbatim>\<open>cleanUp\<close>. The server parses the selector \<^verbatim>\<open>key = version\<close>; for a version that is
  not a valid label value the list call is taken to fail. The loop removes the label
  from each listed namespace and updates it, and stops at the first update that fails.
\<close>

definition clearVersionLabel :: "Namespace \<Rightarrow> Namespace" where
  "clearVersionLabel n = n\<lparr>nsLabels := (nsLabels n)(namespaceVersionLabel := None)\<rparr>"

fun cleanUp_loop :: "Namespace list \<Rightarrow> cluster \<Rightarrow> error option \<times> cluster" where
  "cleanUp_loop [] c = (None, c)"
| "cleanUp_loop (n # items) c =
     (case updateNamespace (clearVersionLabel n) c of
        (Some err, c1) \<Rightarrow> (Some (Wrapf ''failed to update namespace'' (Api err)), c1)
      | (None, c1) \<Rightarrow> cleanUp_loop items c1)"

definition cleanUp :: "rbac \<Rightarrow> cluster \<Rightarrow> error option \<times> cluster" where
  "cleanUp r c =
     (case (if validLabelValue (version r)
            then listNamespacesWithLabel namespaceVersionLabel (version r) c
            else (Inl ServerError,
                  snd (invoke (Call List Namespaces []
                                 (namespaceVersionLabel @ '' = '' @ version r)) c))) of
        (Inl err, c1) \<Rightarrow>
          (Some (Wrapf ''failed to retreive namespaces with labelSeleclector'' (Api err)), c1)
      | (Inr items, c1) \<Rightarrow> cleanUp_loop items c1)"

definition EnsureRBACInstallerSet ::
  "rbac \<Rightarrow> cluster \<Rightarrow> (error + TektonInstallerSet) \<times> cluster" where
  "EnsureRBACInstallerSet r c =
     (case removeObsoleteRBACInstallerSet c of
        (Some err, c1) \<Rightarrow> (Inl err, c1)
      | (None, c1) \<Rightarrow>
          (case checkIfInstallerSetExist (version r) c1 of
             (Inl err, c2) \<Rightarrow> (Inl err, c2)
           | (Inr (Some rbacISet), c2) \<Rightarrow> (Inr rbacISet, c2)
           | (Inr None, c2) \<Rightarrow>
               (case cleanUp r c2 of
                  (Some err, c3) \<Rightarrow> (Inl err, c3)
                | (None, c3) \<Rightarrow>
                    (case createInstallerSet (version r) c3 of
                       (Some err, c4) \<Rightarrow> (Inl err, c4)
                     | (None, c4) \<Rightarrow> (Inl RECONCILE_AGAIN_ERR, c4)))))"

subsection \<open>Service account\<close>

text \<open>
  \<^verbatim>\<open>createSA\<close>. When the create call answers \<open>AlreadyExists\<close> the function returns what
  the client returned with the error, an empty object, and no error. The write to
  \<^verbatim>\<open>tc.Labels\<close> at the end changes the TektonConfig in memory only; its labels are not
  part of the model.
\<close>

definition createSA ::
  "string \<Rightarrow> TektonConfig \<Rightarrow> cluster \<Rightarrow> (error + ServiceAccount) \<times> cluster" where
  "createSA ns tc c =
     (let tcRef = tcOwnerRef tc;
          sa = \<lparr>saName = pipelineSA, saNamespace = ns, saOwnerReferences = [tcRef]\<rparr>
      in case createServiceAccount ns sa c of
           (Inl err, c1) \<Rightarrow>
             if \<not> IsAlreadyExists err then (Inl (Api err), c1)
             else (Inr \<lparr>saName = [], saNamespace = [], saOwnerReferences = []\<rparr>, c1)
         | (Inr created, c1) \<Rightarrow> (Inr created, c1))"

definition ensureSA :: "rbac \<Rightarrow> Namespace \<Rightarrow> cluster \<Rightarrow> (error + ServiceAccount) \<times> cluster" where
  "ensureSA r ns c =
     (case getServiceAccount (nsName ns) pipelineSA c of
        (Inl err, c1) \<Rightarrow>
          if \<not> IsNotFound err then (Inl (Api err), c1)
          else createSA (nsName ns) (tektonConfig r) c1
      | (Inr sa, c1) \<Rightarrow>
          (let tcRef = tcOwnerRef (tektonConfig r);
               sa' = sa\<lparr>saOwnerReferences := [tcRef]\<rparr>
           in case updateServiceAccount (nsName ns) sa' c1 of
                (Inl err, c2) \<Rightarrow> (Inl (Api err), c2)
              | (Inr updated, c2) \<Rightarrow> (Inr updated, c2)))"

subsection \<open>Roles for the security context constraints\<close>

definition sccRule :: "string \<Rightarrow> PolicyRule" where
  "sccRule scc =
     \<lparr>prAPIGroups = [''security.openshift.io''], prResourceNames = [scc],
      prResources = [''securitycontextconstraints''], prVerbs = [''use'']\<rparr>"

definition ensureSCCRoleInNamespace ::
  "rbac \<Rightarrow> string \<Rightarrow> string \<Rightarrow> cluster \<Rightarrow> error option \<times> cluster" where
  "ensureSCCRoleInNamespace r namespace scc c =
     (let sccRole = \<lparr>roName = pipelinesSCCRole, roNamespace = namespace,
                     roOwnerReferences = [ownerRef r], roRules = [sccRule scc]\<rparr>
      in case getRole namespace pipelinesSCCRole c of
           (Inl err, c1) \<Rightarrow>
             if IsNotFound err then
               (case createRole namespace sccRole c1 of
                  (Some err', c2) \<Rightarrow> (Some (Api err'), c2)
                | (None, c2) \<Rightarrow> (None, c2))
             else (Some (Api err), c1)
         | (Inr found, c1) \<Rightarrow>
             (case updateRole namespace sccRole c1 of
                (Some err, c2) \<Rightarrow> (Some (Api err), c2)
              | (None, c2) \<Rightarrow> (None, c2)))"

definition ensurePipelinesSCClusterRole :: "rbac \<Rightarrow> cluster \<Rightarrow> error option \<times> cluster" where
  "ensurePipelinesSCClusterRole r c =
     (let clusterRole = \<lparr>crName = pipelinesSCCClusterRole, crOwnerReferences = [ownerRef r],
                         crRules = [sccRule (tcSCCDefault (tektonConfig r))]\<rparr>
      in case getClusterRole pipelinesSCCClusterRole c of
           (Inl err, c1) \<Rightarrow>
             if IsNotFound err then
               (case createClusterRoleObject clusterRole c1 of
                  (Some err', c2) \<Rightarrow> (Some (Api err'), c2)
                | (None, c2) \<Rightarrow> (None, c2))
             else (Some (Api err), c1)
         | (Inr found, c1) \<Rightarrow>
             (case updateClusterRole clusterRole c1 of
                (Some err, c2) \<Rightarrow> (Some (Api err), c2)
              | (None, c2) \<Rightarrow> (None, c2)))"

subsection \<open>Prerequisites of a pass\<close>

text \<open>
  \<^verbatim>\<open>ensurePreRequisites\<close> sets \<^verbatim>\<open>r.ownerRef\<close>, so it returns the reconciler too. The
  error \<open>PolicyViolation\<close> is the one built from the message ``maxAllowed SCC must be less
  restrictive than the default SCC''.
\<close>

definition PolicyViolation :: error where
  "PolicyViolation = Errorf ''maxAllowed SCC must be less restrictive than the default SCC''"

definition ensurePreRequisites :: "rbac \<Rightarrow> cluster \<Rightarrow> error option \<times> rbac \<times> cluster" where
  "ensurePreRequisites r c =
     (case EnsureRBACInstallerSet r c of
        (Inl err, c1) \<Rightarrow> (Some err, r, c1)
      | (Inr rbacISet, c1) \<Rightarrow>
          (let r1 = r\<lparr>ownerRef := isOwnerRef rbacISet\<rparr>;
               defaultSCC = tcSCCDefault (tektonConfig r1)
           in if defaultSCC = []
              then (Some (Errorf ''tektonConfig.Spec.Platforms.OpenShift.SCC.Default cannot be empty''),
                    r1, c1)
              else
                (case VerifySCCExists defaultSCC c1 of
                   (Some err, c2) \<Rightarrow> (Some (Wrapf ''failed to verify scc exists'' err), r1, c2)
                 | (None, c2) \<Rightarrow>
                     (case GetSCCRestrictiveList c2 of
                        (Inl err, c3) \<Rightarrow> (Some err, r1, c3)
                      | (Inr prioritizedSCCList, c3) \<Rightarrow>
                          (let maxAllowedSCC = tcSCCMaxAllowed (tektonConfig r1)
                           in if maxAllowedSCC \<noteq> [] then
                                (case VerifySCCExists maxAllowedSCC c3 of
                                   (Some err, c4) \<Rightarrow>
                                     (Some (Wrapf ''failed to verify scc exists'' err), r1, c4)
                                 | (None, c4) \<Rightarrow>
                                     (case SCCAMoreRestrictiveThanB prioritizedSCCList
                                             defaultSCC maxAllowedSCC of
                                        Inl err \<Rightarrow> (Some err, r1, c4)
                                      | Inr isPriority \<Rightarrow>
                                          if \<not> isPriority then (Some PolicyViolation, r1, c4)
                                          else (case ensurePipelinesSCClusterRole r1 c4 of
                                                  (res, c5) \<Rightarrow> (res, r1, c5))))
                              else (case ensurePipelinesSCClusterRole r1 c3 of
                                      (res, c4) \<Rightarrow> (res, r1, c4)))))))"

subsection \<open>Selecting the namespaces\<close>

record NamespaceServiceAccount =
  nssaServiceAccount :: ServiceAccount
  nssaNamespace :: Namespace

record NamespacesToReconcile =
  RBACNamespaces :: "Namespace list"
  CANamespaces :: "Namespace list"

text \<open>
  \<^verbatim>\<open>nsRegex\<close>: the pattern \<^verbatim>\<open>reconcilerCommon.NamespaceIgnorePattern\<close> is declared outside
  these sources; the comment at its use gives it as \<^verbatim>\<open>^(openshift|kube)-\<close>.
\<close>

definition nsRegexMatch :: "string \<Rightarrow> bool" where
  "nsRegexMatch name \<longleftrightarrow> prefix ''openshift-'' name \<or> prefix ''kube-'' name"

text \<open>
  The part of the loop body of \<^verbatim>\<open>getNamespacesToBeReconciled\<close> that computes
  \<^verbatim>\<open>needsRBAC\<close>; an error ends the whole function.
\<close>

definition needsRBACCheck :: "rbac \<Rightarrow> Namespace \<Rightarrow> cluster \<Rightarrow> (error + bool) \<times> cluster" where
  "needsRBACCheck r ns c =
     (let needsRBAC = (lookupStr (nsAnnotations ns) NamespaceSCCAnnotation \<noteq> [])
      in if lookupStr (nsLabels ns) namespaceVersionLabel \<noteq> version r then (Inr True, c)
         else
           (case getRoleBinding (nsName ns) pipelinesSCCRoleBinding c of
              (Inl err, c1) \<Rightarrow>
                if IsNotFound err then (Inr True, c1)
                else (Inl (Wrapf ''error fetching rolebinding'' (Api err)), c1)
            | (Inr sccRoleBinding, c1) \<Rightarrow>
                if rrKind (rbRoleRef sccRoleBinding) \<noteq> ''ClusterRole'' then (Inr True, c1)
                else (Inr needsRBAC, c1)))"

fun selectNamespaces ::
  "rbac \<Rightarrow> Namespace list \<Rightarrow> NamespacesToReconcile \<Rightarrow> cluster
     \<Rightarrow> (error + NamespacesToReconcile) \<times> cluster" where
  "selectNamespaces r [] result c = (Inr result, c)"
| "selectNamespaces r (ns # items) result c =
     (if nsRegexMatch (nsName ns) then selectNamespaces r items result c
      else if nsDeletionTimestamp ns \<noteq> None then selectNamespaces r items result c
      else
        (case needsRBACCheck r ns c of
           (Inl err, c1) \<Rightarrow> (Inl err, c1)
         | (Inr needsRBAC, c1) \<Rightarrow>
             (let result1 = (if needsRBAC
                             then result\<lparr>RBACNamespaces := RBACNamespaces result @ [ns]\<rparr>
                             else result);
                  result2 = (if lookupStr (nsLabels ns) namespaceTrustedConfigLabel \<noteq> version r
                             then result1\<lparr>CANamespaces := CANamespaces result1 @ [ns]\<rparr>
                             else result1)
              in selectNamespaces r items result2 c1)))"

definition getNamespacesToBeReconciled ::
  "rbac \<Rightarrow> cluster \<Rightarrow> (error + NamespacesToReconcile) \<times> cluster" where
  "getNamespacesToBeReconciled r c =
     (case listNamespaces c of
        (Inl err, c1) \<Rightarrow> (Inl (Api err), c1)
      | (Inr allNamespaces, c1) \<Rightarrow>
          selectNamespaces r allNamespaces \<lparr>RBACNamespaces = [], CANamespaces = []\<rparr> c1)"

subsection \<open>The SCC of a namespace\<close>

definition getSCCRoleInNamespace :: "Namespace \<Rightarrow> RoleRef" where
  "getSCCRoleInNamespace ns =
     (let nsSCC = lookupStr (nsAnnotations ns) NamespaceSCCAnnotation
      in if nsSCC \<noteq> []
         then \<lparr>rrAPIGroup = GroupName, rrKind = ''Role'', rrName = pipelinesSCCRole\<rparr>
         else \<lparr>rrAPIGroup = GroupName, rrKind = ''ClusterRole'', rrName = pipelinesSCCClusterRole\<rparr>)"

definition createSCCFailureEventInNamespace ::
  "rbac \<Rightarrow> string \<Rightarrow> string \<Rightarrow> cluster \<Rightarrow> error option \<times> cluster" where
  "createSCCFailureEventInNamespace r namespace scc c =
     (let failureEvent = \<lparr>evNamespace = namespace, evOwnerReferences = [ownerRef r],
                          evReason = ''RequestedSCCNotFound'', evType = ''Warning'',
                          evAction = ''SCCNotUpdated'', evSCC = scc\<rparr>
      in case createEvent namespace failureEvent c of
           (Some err, c1) \<Rightarrow> (Some (Wrapf ''failed to create failure event in namespace'' (Api err)), c1)
         | (None, c1) \<Rightarrow> (None, c1))"

text \<open>
  The error of \<^verbatim>\<open>handleSCCInNamespace\<close> for a namespace that requests an SCC which the
  comparison with \<^verbatim>\<open>maxAllowed\<close> rejects.
\<close>

definition NamespacePolicyViolation :: error where
  "NamespacePolicyViolation =
     Errorf ''namespace has requested SCC, but it is less restrictive than the maxAllowed SCC''"

definition handleSCCInNamespace :: "rbac \<Rightarrow> Namespace \<Rightarrow> cluster \<Rightarrow> error option \<times> cluster" where
  "handleSCCInNamespace r ns c =
     (let nsSCC = lookupStr (nsAnnotations ns) NamespaceSCCAnnotation
      in if nsSCC = [] then
           (case getRole (nsName ns) pipelinesSCCRole c of
              (Inl err, c1) \<Rightarrow> if \<not> IsNotFound err then (Some (Api err), c1) else (None, c1)
            | (Inr leftover, c1) \<Rightarrow>
                (case deleteRole (nsName ns) pipelinesSCCRole c1 of
                   (Some err, c2) \<Rightarrow> if \<not> IsNotFound err then (Some (Api err), c2) else (None, c2)
                 | (None, c2) \<Rightarrow> (None, c2)))
         else
           (case VerifySCCExists nsSCC c of
              (Some err, c1) \<Rightarrow>
                (case createSCCFailureEventInNamespace r (nsName ns) nsSCC c1 of
                   (Some eventErr, c2) \<Rightarrow> (Some eventErr, c2)
                 | (None, c2) \<Rightarrow> (Some err, c2))
            | (None, c1) \<Rightarrow>
                (let maxAllowedSCC = tcSCCMaxAllowed (tektonConfig r)
                 in if maxAllowedSCC \<noteq> [] then
                      (case GetSCCRestrictiveList c1 of
                         (Inl err, c2) \<Rightarrow> (Some err, c2)
                       | (Inr prioritizedSCCList, c2) \<Rightarrow>
                           (case SCCAMoreRestrictiveThanB prioritizedSCCList nsSCC maxAllowedSCC of
                              Inl err \<Rightarrow> (Some err, c2)
                            | Inr isPriority \<Rightarrow>
                                if \<not> isPriority then (Some NamespacePolicyViolation, c2)
                                else ensureSCCRoleInNamespace r (nsName ns) nsSCC c2))
                    else ensureSCCRoleInNamespace r (nsName ns) nsSCC c1)))"

subsection \<open>Role bindings of a namespace\<close>

definition createSCCRoleBinding ::
  "rbac \<Rightarrow> ServiceAccount \<Rightarrow> RoleRef \<Rightarrow> cluster \<Rightarrow> error option \<times> cluster" where
  "createSCCRoleBinding r sa roleRef c =
     (let rb = \<lparr>rbName = pipelinesSCCRoleBinding, rbNamespace = saNamespace sa,
                rbOwnerReferences = [ownerRef r], rbRoleRef = roleRef,
                rbSubjects = [\<lparr>sKind = ServiceAccountKind, sName = saName sa,
                                sNamespace = saNamespace sa\<rparr>]\<rparr>
      in case createRoleBindingObject (saNamespace sa) rb c of
           (Some err, c1) \<Rightarrow> (Some (Api err), c1)
         | (None, c1) \<Rightarrow> (None, c1))"

text \<open>
  \<^verbatim>\<open>updateRoleBinding\<close>. The binding is changed in memory first; the first update call is
  made when no owner reference matched, the second unless the subject was there and the
  repaired owner reference list is not empty.
\<close>

definition updateRoleBinding ::
  "rbac \<Rightarrow> RoleBinding \<Rightarrow> ServiceAccount \<Rightarrow> RoleRef \<Rightarrow> cluster \<Rightarrow> error option \<times> cluster" where
  "updateRoleBinding r rb sa roleRef c =
     (let subject = \<lparr>sKind = ServiceAccountKind, sName = saName sa, sNamespace = saNamespace sa\<rparr>;
          hasSubj = hasSubject (rbSubjects rb) subject;
          rb1 = (if \<not> hasSubj then rb\<lparr>rbSubjects := rbSubjects rb @ [subject]\<rparr> else rb);
          rb2 = rb1\<lparr>rbRoleRef := roleRef\<rparr>;
          hasOwnerRef = hasOwnerRefernce (rbOwnerReferences rb2) (ownerRef r);
          ownerRefs = updateOwnerRefs (ownerRef r) (rbOwnerReferences rb2);
          rb3 = rb2\<lparr>rbOwnerReferences := ownerRefs\<rparr>
      in case (if \<not> hasOwnerRef then updateRoleBindingObject (saNamespace sa) rb3 c
               else (None, c)) of
           (Some err, c1) \<Rightarrow> (Some (Api err), c1)
         | (None, c1) \<Rightarrow>
             if hasSubj \<and> length ownerRefs \<noteq> 0 then (None, c1)
             else
               (case updateRoleBindingObject (saNamespace sa) rb3 c1 of
                  (Some err, c2) \<Rightarrow> (Some (Api err), c2)
                | (None, c2) \<Rightarrow> (None, c2)))"

definition ensurePipelinesSCCRoleBinding ::
  "rbac \<Rightarrow> ServiceAccount \<Rightarrow> RoleRef \<Rightarrow> cluster \<Rightarrow> error option \<times> cluster" where
  "ensurePipelinesSCCRoleBinding r sa roleRef c =
     (let roleKind = rrKind roleRef; roleName = rrName roleRef
      in case (if rrKind roleRef = ''Role'' then
                 (case getRole (saNamespace sa) roleName c of
                    (Inl err, c1) \<Rightarrow> (Some (Api err), c1)
                  | (Inr found, c1) \<Rightarrow> (None, c1))
               else if roleKind = ''ClusterRole'' then
                 (case getClusterRole roleName c of
                    (Inl err, c1) \<Rightarrow> (Some (Api err), c1)
                  | (Inr found, c1) \<Rightarrow> (None, c1))
               else (Some (Errorf ''incorrect value set for roleKind, needs to be Role or ClusterRole''), c)) of
           (Some err, c1) \<Rightarrow> (Some err, c1)
         | (None, c1) \<Rightarrow>
             (case getRoleBinding (saNamespace sa) pipelinesSCCRoleBinding c1 of
                (Inl rbErr, c2) \<Rightarrow>
                  if \<not> IsNotFound rbErr then (Some (Api rbErr), c2)
                  else createSCCRoleBinding r sa roleRef c2
              | (Inr pipelineRB, c2) \<Rightarrow>
                  if rrKind (rbRoleRef pipelineRB) \<noteq> roleKind \<or> rrName (rbRoleRef pipelineRB) \<noteq> roleName
                  then
                    (case deleteRoleBinding (saNamespace sa) pipelinesSCCRoleBinding c2 of
                       (Some err, c3) \<Rightarrow> (Some (Api err), c3)
                     | (None, c3) \<Rightarrow> createSCCRoleBinding r sa roleRef c3)
                  else updateRoleBinding r pipelineRB sa roleRef c2))"

text \<open>\<^verbatim>\<open>isLegacyRBACEnabled\<close> answers at the first parameter with the name.\<close>

fun isLegacyRBACEnabled_loop :: "Param list \<Rightarrow> bool" where
  "isLegacyRBACEnabled_loop [] = True"
| "isLegacyRBACEnabled_loop (v # params) =
     (if pName v = legacyPipelineRbacParamName then pValue v \<noteq> ''false''
      else isLegacyRBACEnabled_loop params)"

definition isLegacyRBACEnabled :: "rbac \<Rightarrow> bool" where
  "isLegacyRBACEnabled r = isLegacyRBACEnabled_loop (tcParams (tektonConfig r))"

definition createRoleBinding :: "rbac \<Rightarrow> ServiceAccount \<Rightarrow> cluster \<Rightarrow> error option \<times> cluster" where
  "createRoleBinding r sa c =
     (case getClusterRole ''edit'' c of
        (Inl err, c1) \<Rightarrow> (Some (Api err), c1)
      | (Inr found, c1) \<Rightarrow>
          (let rb = \<lparr>rbName = PipelineRoleBinding, rbNamespace = saNamespace sa,
                     rbOwnerReferences = [ownerRef r],
                     rbRoleRef = \<lparr>rrAPIGroup = GroupName, rrKind = ''ClusterRole'', rrName = ''edit''\<rparr>,
                     rbSubjects = [\<lparr>sKind = ServiceAccountKind, sName = saName sa,
                                     sNamespace = saNamespace sa\<rparr>]\<rparr>
           in case createRoleBindingObject (saNamespace sa) rb c1 of
                (Some err, c2) \<Rightarrow> (Some (Api err), c2)
              | (None, c2) \<Rightarrow> (None, c2)))"

definition ensureRoleBindings :: "rbac \<Rightarrow> ServiceAccount \<Rightarrow> cluster \<Rightarrow> error option \<times> cluster" where
  "ensureRoleBindings r sa c =
     (let legacyEnabled = isLegacyRBACEnabled r
      in case getRoleBinding (saNamespace sa) PipelineRoleBinding c of
           (Inr editRB, c1) \<Rightarrow>
             if \<not> legacyEnabled then
               (case deleteRoleBinding (saNamespace sa) PipelineRoleBinding c1 of
                  (Some err, c2) \<Rightarrow> (Some (Api err), c2)
                | (None, c2) \<Rightarrow> (None, c2))
             else updateRoleBinding r editRB sa
                    \<lparr>rrAPIGroup = GroupName, rrKind = ''ClusterRole'', rrName = ''edit''\<rparr> c1
         | (Inl err, c1) \<Rightarrow>
             if \<not> legacyEnabled then (None, c1)
             else if IsNotFound err then createRoleBinding r sa c1
             else (Some (Api err), c1))"

subsection \<open>One namespace\<close>

text \<open>
  \<^verbatim>\<open>processRBAC\<close>. The test \<^verbatim>\<open>sa == nil\<close> cannot hold: \<^verbatim>\<open>ensureSA\<close> returns a service
  account whenever it returns no error. \<^verbatim>\<open>getSCCRoleInNamespace\<close> never returns nil.
\<close>

definition processRBAC ::
  "rbac \<Rightarrow> Namespace \<Rightarrow> cluster \<Rightarrow> (error + NamespaceServiceAccount) \<times> cluster" where
  "processRBAC r ns c =
     (case ensureSA r ns c of
        (Inl err, c1) \<Rightarrow> (Inl (Wrapf ''failed to ensure ServiceAccount in namespace'' err), c1)
      | (Inr sa, c1) \<Rightarrow>
          (case handleSCCInNamespace r ns c1 of
             (Some err, c2) \<Rightarrow> (Inl (Wrapf ''failed to handle SCC in namespace'' err), c2)
           | (None, c2) \<Rightarrow>
               (let roleRef = getSCCRoleInNamespace ns
                in case ensurePipelinesSCCRoleBinding r sa roleRef c2 of
                     (Some err, c3) \<Rightarrow>
                       (Inl (Wrapf ''failed to ensure pipelines SCC role binding in namespace'' err), c3)
                   | (None, c3) \<Rightarrow>
                       (case ensureRoleBindings r sa c3 of
                          (Some err, c4) \<Rightarrow>
                            (Inl (Wrapf ''failed to ensure role bindings in namespace'' err), c4)
                        | (None, c4) \<Rightarrow>
                            (Inr \<lparr>nssaServiceAccount = sa, nssaNamespace = ns\<rparr>, c4)))))"

definition patchNamespaceLabel :: "rbac \<Rightarrow> Namespace \<Rightarrow> cluster \<Rightarrow> error option \<times> cluster" where
  "patchNamespaceLabel r ns c =
     (case patchNamespace (nsName ns) namespaceVersionLabel (version r) c of
        (Some err, c1) \<Rightarrow> (Some (Wrapf ''failed to patch namespace'' (Api err)), c1)
      | (None, c1) \<Rightarrow> (None, c1))"

definition patchNamespaceTrustedConfigLabel ::
  "rbac \<Rightarrow> Namespace \<Rightarrow> cluster \<Rightarrow> error option \<times> cluster" where
  "patchNamespaceTrustedConfigLabel r ns c =
     (case patchNamespace (nsName ns) namespaceTrustedConfigLabel (version r) c of
        (Some err, c1) \<Rightarrow> (Some (Wrapf ''failed to patch namespace'' (Api err)), c1)
      | (None, c1) \<Rightarrow> (None, c1))"

subsection \<open>The cluster interceptors binding\<close>

definition createClusterRole :: "rbac \<Rightarrow> cluster \<Rightarrow> error option \<times> cluster" where
  "createClusterRole r c =
     (let cr = \<lparr>crName = clusterInterceptors, crOwnerReferences = [ownerRef r],
                crRules = [\<lparr>prAPIGroups = [''triggers.tekton.dev''], prResourceNames = [],
                            prResources = [''clusterinterceptors''],
                            prVerbs = [''get'', ''list'', ''watch'']\<rparr>]\<rparr>
      in case createClusterRoleObject cr c of
           (Some err, c1) \<Rightarrow> (Some (Api err), c1)
         | (None, c1) \<Rightarrow> (None, c1))"

definition bulkUpdateClusterRoleBinding ::
  "rbac \<Rightarrow> ClusterRoleBinding \<Rightarrow> Subject list \<Rightarrow> cluster \<Rightarrow> error option \<times> cluster" where
  "bulkUpdateClusterRoleBinding r rb subjectlist c =
     (let hasSubj = CompareSubjects (crbSubjects rb) subjectlist;
          rb1 = (if \<not> hasSubj then rb\<lparr>crbSubjects := mergeSubjects (crbSubjects rb) subjectlist\<rparr>
                 else rb);
          hasOwnerRef = hasOwnerRefernce (crbOwnerReferences rb1) (ownerRef r);
          ownerRefs = updateOwnerRefs (ownerRef r) (crbOwnerReferences rb1);
          rb2 = rb1\<lparr>crbOwnerReferences := ownerRefs\<rparr>
      in case (if \<not> hasOwnerRef then updateClusterRoleBinding rb2 c else (None, c)) of
           (Some err, c1) \<Rightarrow> (Some (Api err), c1)
         | (None, c1) \<Rightarrow>
             if hasSubj \<and> length ownerRefs \<noteq> 0 then (None, c1)
             else
               (case updateClusterRoleBinding rb2 c1 of
                  (Some err, c2) \<Rightarrow> (Some (Api err), c2)
                | (None, c2) \<Rightarrow> (None, c2)))"

definition bulkCreateClusterRoleBinding ::
  "rbac \<Rightarrow> Subject list \<Rightarrow> cluster \<Rightarrow> error option \<times> cluster" where
  "bulkCreateClusterRoleBinding r subjectlist c =
     (case getClusterRole clusterInterceptors c of
        (Inl err, c1) \<Rightarrow> (Some (Api err), c1)
      | (Inr found, c1) \<Rightarrow>
          (let crb = \<lparr>crbName = clusterInterceptors, crbOwnerReferences = [ownerRef r],
                      crbRoleRef = \<lparr>rrAPIGroup = GroupName, rrKind = ''ClusterRole'',
                                     rrName = clusterInterceptors\<rparr>,
                      crbSubjects = subjectlist\<rparr>
           in case createClusterRoleBinding crb c1 of
                (Some err, c2) \<Rightarrow> (Some (Api err), c2)
              | (None, c2) \<Rightarrow> (None, c2)))"

text \<open>
  \<^verbatim>\<open>handleClusterRoleBinding\<close>. Only a \<open>NotFound\<close> answer of the first get is acted on;
  any other answer is ignored.
\<close>

definition handleClusterRoleBinding ::
  "rbac \<Rightarrow> NamespaceServiceAccount list \<Rightarrow> cluster \<Rightarrow> error option \<times> cluster" where
  "handleClusterRoleBinding r namespacesToUpdate c =
     (case getClusterRole clusterInterceptors c of (res, c1) \<Rightarrow>
        (case (case res of
                 Inl err \<Rightarrow> if IsNotFound err then createClusterRole r c1 else (None, c1)
               | Inr found \<Rightarrow> (None, c1)) of
           (Some e, c2) \<Rightarrow> (Some e, c2)
         | (None, c2) \<Rightarrow>
             (let subjects =
                    map (\<lambda>nsSA. \<lparr>sKind = ServiceAccountKind,
                                  sName = saName (nssaServiceAccount nsSA),
                                  sNamespace = saNamespace (nssaServiceAccount nsSA)\<rparr>)
                      namespacesToUpdate
              in case getClusterRoleBinding clusterInterceptors c2 of
                   (Inr viewCRB, c3) \<Rightarrow> bulkUpdateClusterRoleBinding r viewCRB subjects c3
                 | (Inl err, c3) \<Rightarrow>
                     if IsNotFound err then bulkCreateClusterRoleBinding r subjects c3
                     else (Some (Api err), c3))))"

subsection \<open>Trust bundles\<close>

definition createCABundleConfigMaps ::
  "string \<Rightarrow> string \<Rightarrow> cluster \<Rightarrow> error option \<times> cluster" where
  "createCABundleConfigMaps name ns c =
     (let cm = \<lparr>cmName = name, cmNamespace = ns,
                cmLabels = [''app.kubernetes.io/part-of'' \<mapsto> ''tekton-pipelines'',
                            ''config.openshift.io/inject-trusted-cabundle'' \<mapsto> ''true''],
                cmAnnotations = Map.empty, cmOwnerReferences = []\<rparr>
      in case createConfigMap ns cm c of
           (Inl err, c1) \<Rightarrow> if \<not> IsAlreadyExists err then (Some (Api err), c1) else (None, c1)
         | (Inr created, c1) \<Rightarrow> (None, c1))"

definition createServiceCABundleConfigMap ::
  "string \<Rightarrow> string \<Rightarrow> cluster \<Rightarrow> error option \<times> cluster" where
  "createServiceCABundleConfigMap name ns c =
     (let cm = \<lparr>cmName = name, cmNamespace = ns,
                cmLabels = [''app.kubernetes.io/part-of'' \<mapsto> ''tekton-pipelines''],
                cmAnnotations = [''service.beta.openshift.io/inject-cabundle'' \<mapsto> ''true''],
                cmOwnerReferences = []\<rparr>
      in case createConfigMap ns cm c of
           (Inl err, c1) \<Rightarrow> if \<not> IsAlreadyExists err then (Some (Api err), c1) else (None, c1)
         | (Inr created, c1) \<Rightarrow> (None, c1))"

text \<open>
  One half of \<^verbatim>\<open>ensureCABundles\<close>: get the config map, create it when missing, and
  when it was found remove its owner references and update it.
\<close>

definition ensureCABundle ::
  "(string \<Rightarrow> string \<Rightarrow> cluster \<Rightarrow> error option \<times> cluster) \<Rightarrow> string \<Rightarrow> Namespace \<Rightarrow> cluster
     \<Rightarrow> error option \<times> cluster" where
  "ensureCABundle create name ns c =
     (case getConfigMap (nsName ns) name c of
        (Inl getErr, c1) \<Rightarrow>
          if \<not> IsNotFound getErr then (Some (Api getErr), c1) else create name (nsName ns) c1
      | (Inr caBundleCM, c1) \<Rightarrow>
          (case updateConfigMap (nsName ns) (caBundleCM\<lparr>cmOwnerReferences := []\<rparr>) c1 of
             (Some err, c2) \<Rightarrow> (Some (Api err), c2)
           | (None, c2) \<Rightarrow> (None, c2)))"

definition ensureCABundles :: "Namespace \<Rightarrow> cluster \<Rightarrow> error option \<times> cluster" where
  "ensureCABundles ns c =
     (case ensureCABundle createCABundleConfigMaps trustedCABundleConfigMap ns c of
        (Some err, c1) \<Rightarrow> (Some err, c1)
      | (None, c1) \<Rightarrow> ensureCABundle createServiceCABundleConfigMap serviceCABundleConfigMap ns c1)"

definition ensureCABundlesInNamespace :: "Namespace \<Rightarrow> cluster \<Rightarrow> error option \<times> cluster" where
  "ensureCABundlesInNamespace ns c = ensureCABundles ns c"

subsection \<open>A pass\<close>

text \<open>The loop of \<^verbatim>\<open>createResources\<close> that reads the feature flags.\<close>

fun featureFlags :: "Param list \<Rightarrow> bool \<times> bool \<Rightarrow> bool \<times> bool" where
  "featureFlags [] flags = flags"
| "featureFlags (v # params) (createCABundles, createRBACResource) =
     featureFlags params
       (if pName v = trustedCABundleParamName \<and> pValue v = ''false'' then False else createCABundles,
        if pName v = rbacParamName \<and> pValue v = ''false'' then False else createRBACResource)"

text \<open>
  The loop over the namespaces that need RBAC work: a namespace whose processing fails
  is logged and skipped, the others are collected in \<^verbatim>\<open>namespacesToUpdate\<close>.
\<close>

fun processNamespaces ::
  "rbac \<Rightarrow> Namespace list \<Rightarrow> NamespaceServiceAccount list \<Rightarrow> cluster
     \<Rightarrow> NamespaceServiceAccount list \<times> cluster" where
  "processNamespaces r [] namespacesToUpdate c = (namespacesToUpdate, c)"
| "processNamespaces r (ns # rest) namespacesToUpdate c =
     (case processRBAC r ns c of
        (Inl err, c1) \<Rightarrow> processNamespaces r rest namespacesToUpdate c1
      | (Inr nsSA, c1) \<Rightarrow> processNamespaces r rest (namespacesToUpdate @ [nsSA]) c1)"

text \<open>The loop that stamps the version label; a failed patch is logged only.\<close>

fun patchLabels :: "rbac \<Rightarrow> NamespaceServiceAccount list \<Rightarrow> cluster \<Rightarrow> cluster" where
  "patchLabels r [] c = c"
| "patchLabels r (nsSA # rest) c =
     patchLabels r rest (snd (patchNamespaceLabel r (nssaNamespace nsSA) c))"

text \<open>Step 4 of \<^verbatim>\<open>createResources\<close>, for a non-empty list of namespaces.\<close>

definition reconcileRBAC :: "rbac \<Rightarrow> Namespace list \<Rightarrow> cluster \<Rightarrow> error option \<times> cluster" where
  "reconcileRBAC r rbacNamespaces c =
     (case removeAndUpdateNSFromCI r c of
        (Some err, c1) \<Rightarrow> (Some err, c1)
      | (None, c1) \<Rightarrow>
          (case processNamespaces r rbacNamespaces [] c1 of
             (namespacesToUpdate, c2) \<Rightarrow>
               if length namespacesToUpdate > 0 then
                 (case handleClusterRoleBinding r namespacesToUpdate c2 of
                    (Some err, c3) \<Rightarrow> (Some err, c3)
                  | (None, c3) \<Rightarrow> (None, patchLabels r namespacesToUpdate c3))
               else (None, c2)))"

text \<open>Step 5 of \<^verbatim>\<open>createResources\<close>: errors are logged, the loop goes on.\<close>

fun reconcileCABundles :: "rbac \<Rightarrow> Namespace list \<Rightarrow> cluster \<Rightarrow> cluster" where
  "reconcileCABundles r [] c = c"
| "reconcileCABundles r (ns # rest) c =
     (case ensureCABundlesInNamespace ns c of
        (Some err, c1) \<Rightarrow> reconcileCABundles r rest c1
      | (None, c1) \<Rightarrow>
          reconcileCABundles r rest (snd (patchNamespaceTrustedConfigLabel r ns c1)))"

definition createResources :: "rbac \<Rightarrow> cluster \<Rightarrow> error option \<times> rbac \<times> cluster" where
  "createResources r c =
     (case featureFlags (tcParams (tektonConfig r)) (True, True) of
        (createCABundles, createRBACResource) \<Rightarrow>
          if \<not> createCABundles \<and> \<not> createRBACResource then (None, r, c)
          else
            (case (if createRBACResource then ensurePreRequisites r c else (None, r, c)) of
               (Some err, r1, c1) \<Rightarrow> (Some err, r1, c1)
             | (None, r1, c1) \<Rightarrow>
                 (case getNamespacesToBeReconciled r1 c1 of
                    (Inl err, c2) \<Rightarrow> (Some err, r1, c2)
                  | (Inr namespacesToReconcile, c2) \<Rightarrow>
                      if length (RBACNamespaces namespacesToReconcile) = 0
                           \<and> length (CANamespaces namespacesToReconcile) = 0
                      then (None, r1, c2)
                      else
                        (case (if createRBACResource
                                    \<and> length (RBACNamespaces namespacesToReconcile) \<noteq> 0
                               then reconcileRBAC r1 (RBACNamespaces namespacesToReconcile) c2
                               else (None, c2)) of
                           (Some err, c3) \<Rightarrow> (Some err, r1, c3)
                         | (None, c3) \<Rightarrow>
                             if createCABundles
                             then (None, r1,
                                   reconcileCABundles r1 (CANamespaces namespacesToReconcile) c3)
                             else (None, r1, c3)))))"

subsection \<open>Notions for stating the properties of a pass\<close>

text \<open>
  Two clusters with the same namespaces, the same SCC priority list and the same faults.
\<close>

definition keepsNamespaces :: "cluster \<Rightarrow> cluster \<Rightarrow> bool" where
  "keepsNamespaces c c' \<longleftrightarrow>
     namespaces c' = namespaces c \<and> sccPriority c' = sccPriority c \<and> faults c' = faults c"


text \<open>
  A namespace requests, by its annotation, an SCC that is less restrictive than the
  ceiling \<^verbatim>\<open>maxAllowed\<close>: the ceiling is set and the comparison ``the requested SCC is
  at least as restrictive as the ceiling'' answers no.
\<close>

definition exceedsCeiling :: "rbac \<Rightarrow> Namespace \<Rightarrow> cluster \<Rightarrow> bool" where
  "exceedsCeiling r ns c \<longleftrightarrow>
     lookupStr (nsAnnotations ns) NamespaceSCCAnnotation \<noteq> []
     \<and> tcSCCMaxAllowed (tektonConfig r) \<noteq> []
     \<and> SCCAMoreRestrictiveThanB (sccPriority c)
          (lookupStr (nsAnnotations ns) NamespaceSCCAnnotation)
          (tcSCCMaxAllowed (tektonConfig r)) = Inr False"

text \<open>
  Two clusters with the same service accounts, roles, bindings, config maps, SCC priority
  list and faults: nothing a namespace is given was touched in between.
\<close>

definition keepsObjects :: "cluster \<Rightarrow> cluster \<Rightarrow> bool" where
  "keepsObjects c c' \<longleftrightarrow>
     serviceAccounts c' = serviceAccounts c \<and> roles c' = roles c
     \<and> roleBindings c' = roleBindings c \<and> clusterRoles c' = clusterRoles c
     \<and> clusterRoleBindings c' = clusterRoleBindings c \<and> configMaps c' = configMaps c
     \<and> sccPriority c' = sccPriority c \<and> faults c' = faults c"


text \<open>
  The ceiling \<^verbatim>\<open>maxAllowed\<close> is set and is more restrictive than the default SCC: the
  comparison ``the default is at least as restrictive as the ceiling'' answers no.
\<close>

definition ceilingTooRestrictive :: "rbac \<Rightarrow> cluster \<Rightarrow> bool" where
  "ceilingTooRestrictive r c \<longleftrightarrow>
     tcSCCMaxAllowed (tektonConfig r) \<noteq> []
     \<and> SCCAMoreRestrictiveThanB (sccPriority c) (tcSCCDefault (tektonConfig r))
          (tcSCCMaxAllowed (tektonConfig r)) = Inr False"

subsection \<open>Notions for stating what a repeated pass does\<close>





subsection \<open>Notions for stating what a pass touches\<close>

text \<open>
  Two clusters that differ at most in the bookkeeping objects and in the log of calls:
  the namespaces, every namespaced object, the cluster roles and bindings, the events,
  the caches and the faults are the same.
\<close>

definition onlyBookkeeping :: "cluster \<Rightarrow> cluster \<Rightarrow> bool" where
  "onlyBookkeeping c c' \<longleftrightarrow> c' = c\<lparr>installerSets := installerSets c', calls := calls c'\<rparr>"

text \<open>The names of the stored namespaces, each with its value of the label \<open>key\<close>.\<close>

definition labelsOf :: "string \<Rightarrow> cluster \<Rightarrow> (string \<times> string option) list" where
  "labelsOf key c = map (\<lambda>n. (nsName n, nsLabels n key)) (namespaces c)"

text \<open>Such a list with the label set to \<open>val\<close> for the given names and kept for the others.\<close>

definition stamped :: "string set \<Rightarrow> string \<Rightarrow> (string \<times> string option) list
    \<Rightarrow> (string \<times> string option) list" where
  "stamped names val labels = map (\<lambda>(n, l). if n \<in> names then (n, Some val) else (n, l)) labels"

text \<open>
  The namespaces that \<^verbatim>\<open>getNamespacesToBeReconciled\<close> selects for RBAC work, none when it
  returns an error.
\<close>

definition selectedForRBAC :: "rbac \<Rightarrow> cluster \<Rightarrow> Namespace list" where
  "selectedForRBAC r c =
     (case getNamespacesToBeReconciled r c of
        (Inl err, c1) \<Rightarrow> []
      | (Inr namespacesToReconcile, c1) \<Rightarrow> RBACNamespaces namespacesToReconcile)"

subsection \<open>Example objects\<close>

text \<open>Concrete objects on which the theorems below are instantiated.\<close>

definition serviceAccountSubject :: "string \<Rightarrow> string \<Rightarrow> Subject" where
  "serviceAccountSubject name ns = \<lparr>sKind = ServiceAccountKind, sName = name, sNamespace = ns\<rparr>"

definition emptyCluster :: cluster where
  "emptyCluster =
     \<lparr>namespaces = [], serviceAccounts = Map.empty, roles = Map.empty,
      roleBindings = Map.empty, clusterRoles = Map.empty, clusterRoleBindings = Map.empty,
      configMaps = Map.empty, events = [], installerSets = [], sccPriority = [],
      crbCache = Map.empty, nsCache = [], calls = [], faults = (\<lambda>n. False)\<rparr>"

definition labeledNamespace :: "string \<Rightarrow> string \<Rightarrow> Namespace" where
  "labeledNamespace name v =
     \<lparr>nsName = name, nsAnnotations = Map.empty,
      nsLabels = [namespaceVersionLabel \<mapsto> v], nsDeletionTimestamp = None\<rparr>"

definition interceptorsBinding :: "Subject list \<Rightarrow> ClusterRoleBinding" where
  "interceptorsBinding subjects =
     \<lparr>crbName = clusterInterceptors, crbOwnerReferences = [],
      crbRoleRef = \<lparr>rrAPIGroup = GroupName, rrKind = ''ClusterRole'', rrName = clusterInterceptors\<rparr>,
      crbSubjects = subjects\<rparr>"

definition exampleRbac :: rbac where
  "exampleRbac =
     \<lparr>ownerRef = \<lparr>oAPIVersion = ''operator.tekton.dev/v1alpha1'', oKind = ''TektonInstallerSet'',
                  oName = ''rhosp-rbac-x'', oUID = ''u1''\<rparr>,
      version = ''v1'',
      tektonConfig = \<lparr>tcParams = [], tcSCCDefault = ''pipelines-scc'', tcSCCMaxAllowed = [],
         tcOwnerRef = \<lparr>oAPIVersion = ''operator.tekton.dev/v1alpha1'', oKind = ''TektonConfig'',
                        oName = ''config'', oUID = ''u0''\<rparr>\<rparr>\<rparr>"

text \<open>The example reconciler with the given parameters in its TektonConfig.\<close>

definition paramsRbac :: "Param list \<Rightarrow> rbac" where
  "paramsRbac params = exampleRbac\<lparr>tektonConfig := (tektonConfig exampleRbac)\<lparr>tcParams := params\<rparr>\<rparr>"

text \<open>
  A cluster whose interceptors binding, on the server and in the cache, has the given
  subjects, and whose namespace cache holds the given namespaces.
\<close>

definition bindingCluster :: "Subject list \<Rightarrow> Namespace list \<Rightarrow> cluster" where
  "bindingCluster subjects cached =
     emptyCluster\<lparr>
       crbCache := [clusterInterceptors \<mapsto> interceptorsBinding subjects],
       clusterRoleBindings := [clusterInterceptors \<mapsto> interceptorsBinding subjects],
       nsCache := cached\<rparr>"

text \<open>A cluster with the given namespaces and bookkeeping objects and nothing else.\<close>

definition namespacesCluster :: "Namespace list \<Rightarrow> TektonInstallerSet list \<Rightarrow> cluster" where
  "namespacesCluster nss isets = emptyCluster\<lparr>namespaces := nss, installerSets := isets\<rparr>"

text \<open>A cluster with the pipeline service account of one namespace and nothing else.\<close>

definition serviceAccountCluster :: "string \<Rightarrow> OwnerReference list \<Rightarrow> cluster" where
  "serviceAccountCluster ns refs =
     emptyCluster\<lparr>serviceAccounts :=
       [(ns, pipelineSA) \<mapsto> \<lparr>saName = pipelineSA, saNamespace = ns, saOwnerReferences = refs\<rparr>]\<rparr>"

text \<open>
  Namespaces with and without an SCC request, a cluster with three SCCs and the cluster
  role \<open>edit\<close>, and the example reconciler with a ceiling.
\<close>

definition annotatedNamespace :: "string \<Rightarrow> string \<Rightarrow> string \<Rightarrow> Namespace" where
  "annotatedNamespace name scc v =
     \<lparr>nsName = name, nsAnnotations = [NamespaceSCCAnnotation \<mapsto> scc],
      nsLabels = [namespaceVersionLabel \<mapsto> v, namespaceTrustedConfigLabel \<mapsto> v],
      nsDeletionTimestamp = None\<rparr>"

definition plainNamespace :: "string \<Rightarrow> Namespace" where
  "plainNamespace name =
     \<lparr>nsName = name, nsAnnotations = Map.empty, nsLabels = Map.empty, nsDeletionTimestamp = None\<rparr>"

definition freshCluster :: "Namespace list \<Rightarrow> cluster" where
  "freshCluster nss =
     emptyCluster\<lparr>namespaces := nss, nsCache := nss,
       sccPriority := [''restricted'', ''pipelines-scc'', ''privileged''],
       clusterRoles := [''edit'' \<mapsto> \<lparr>crName = ''edit'', crOwnerReferences = [], crRules = []\<rparr>]\<rparr>"

definition ceilingRbac :: "string \<Rightarrow> rbac" where
  "ceilingRbac maxAllowed =
     exampleRbac\<lparr>tektonConfig := (tektonConfig exampleRbac)\<lparr>tcSCCMaxAllowed := maxAllowed\<rparr>\<rparr>"

text \<open>The example cluster with the bookkeeping object of the version \<open>v1\<close>.\<close>

definition readyCluster :: "Namespace list \<Rightarrow> cluster" where
  "readyCluster nss = (freshCluster nss)\<lparr>installerSets := [newInstallerSet ''v1'']\<rparr>"

text \<open>
  A pass as the reconciler runs it: \<^verbatim>\<open>setDefault\<close>, then \<^verbatim>\<open>createResources\<close>. Between two
  passes the informer caches catch up with the server, and the log of calls is started
  afresh so that the calls of the next pass can be read off; the stored objects stay as
  they are.
\<close>

definition pass :: "rbac \<Rightarrow> cluster \<Rightarrow> rbac \<times> cluster" where
  "pass r c = snd (createResources (setDefault r) c)"







text \<open>The example reconciler with a ceiling and with parameters.\<close>

definition flagsRbac :: "string \<Rightarrow> Param list \<Rightarrow> rbac" where
  "flagsRbac maxAllowed params =
     exampleRbac\<lparr>tektonConfig :=
       (tektonConfig exampleRbac)\<lparr>tcSCCMaxAllowed := maxAllowed, tcParams := params\<rparr>\<rparr>"

text \<open>An owner reference to an object that is neither the TektonConfig nor the bookkeeping object.\<close>

definition foreignRef :: OwnerReference where
  "foreignRef = \<lparr>oAPIVersion = ''apps/v1'', oKind = ''Deployment'', oName = ''other'', oUID = ''u9''\<rparr>"

text \<open>
  The example cluster with the bookkeeping object and the cluster role
  \<open>pipelines-scc-clusterrole\<close> in place, and a batch of three namespaces: one without an
  SCC request, one that requests \<open>privileged\<close> and one that requests \<open>restricted\<close>.
\<close>

definition preparedCluster :: "Namespace list \<Rightarrow> cluster" where
  "preparedCluster nss =
     (readyCluster nss)\<lparr>clusterRoles :=
       [''edit'' \<mapsto> \<lparr>crName = ''edit'', crOwnerReferences = [], crRules = []\<rparr>,
        pipelinesSCCClusterRole \<mapsto>
          \<lparr>crName = pipelinesSCCClusterRole,
           crOwnerReferences = [isOwnerRef (newInstallerSet ''v1'')],
           crRules = [sccRule ''pipelines-scc'']\<rparr>]\<rparr>"

definition threeNamespaces :: "Namespace list" where
  "threeNamespaces =
     [plainNamespace ''a'', annotatedNamespace ''b'' ''privileged'' ''v0'',
      annotatedNamespace ''d'' ''restricted'' ''v0'']"

section \<open>Auxiliary facts\<close>

subsection \<open>Facts about subject lists\<close>





subsection \<open>Facts about owner references\<close>

declare updateOwnerRefs_from.simps [simp del]

lemma updateOwnerRefs_from_all_match:
  "\<forall>j. i \<le> j \<and> j < length refs \<longrightarrow> \<not> refDiffers r (refs ! j) \<Longrightarrow>
   updateOwnerRefs_from r refs i = refs"
proof (induction r refs i rule: updateOwnerRefs_from.induct)
  case (1 r refs i)
  show ?case
  proof (cases "i < length refs")
    case True
    with "1.prems" have nd: "\<not> refDiffers r (refs ! i)" by simp
    from "1.prems" have "\<forall>j. i + 1 \<le> j \<and> j < length refs \<longrightarrow> \<not> refDiffers r (refs ! j)"
      by simp
    with "1.IH" [OF True nd] have "updateOwnerRefs_from r refs (i + 1) = refs" by blast
    with True nd show ?thesis by (subst updateOwnerRefs_from.simps) simp
  next
    case False
    then show ?thesis by (subst updateOwnerRefs_from.simps) simp
  qed
qed

lemma updateOwnerRefs_from_first:
  "k < length refs \<Longrightarrow> refDiffers r (refs ! k) \<Longrightarrow> i \<le> k \<Longrightarrow>
   \<forall>j. i \<le> j \<and> j < k \<longrightarrow> \<not> refDiffers r (refs ! j) \<Longrightarrow>
   updateOwnerRefs_from r refs i = removeAndUpdate r refs k"
proof (induction r refs i rule: updateOwnerRefs_from.induct)
  case (1 r refs i)
  from "1.prems" have il: "i < length refs" by simp
  show ?case
  proof (cases "i = k")
    case True
    with "1.prems" il show ?thesis by (subst updateOwnerRefs_from.simps) simp
  next
    case False
    with "1.prems" have lt: "i < k" by simp
    with "1.prems" have nd: "\<not> refDiffers r (refs ! i)" by simp
    have "updateOwnerRefs_from r refs (i + 1) = removeAndUpdate r refs k"
      using "1.IH" [OF il nd] "1.prems" lt by simp
    with il nd show ?thesis by (subst updateOwnerRefs_from.simps) simp
  qed
qed

lemma takeWhile_dropWhile_index:
  "\<exists>x \<in> set xs. \<not> P x \<Longrightarrow>
   length (takeWhile P xs) < length xs \<and> \<not> P (xs ! length (takeWhile P xs))
   \<and> (\<forall>j < length (takeWhile P xs). P (xs ! j))
   \<and> take (length (takeWhile P xs)) xs = takeWhile P xs
   \<and> drop (length (takeWhile P xs) + 1) xs = tl (dropWhile P xs)"
proof (induction xs)
  case Nil
  then show ?case by simp
next
  case (Cons a xs)
  show ?case
  proof (cases "P a")
    case True
    with Cons.prems have "\<exists>x \<in> set xs. \<not> P x" by auto
    from Cons.IH [OF this] True show ?thesis
      by (auto simp: nth_Cons split: nat.splits)
  next
    case False
    then show ?thesis by simp
  qed
qed

lemma updateOwnerRefs_first_foreign:
  assumes "\<exists>x \<in> set refs. refDiffers r x"
  shows "updateOwnerRefs r refs =
           takeWhile (\<lambda>x. \<not> refDiffers r x) refs
             @ tl (dropWhile (\<lambda>x. \<not> refDiffers r x) refs) @ [r]"
proof -
  let ?P = "\<lambda>x. \<not> refDiffers r x"
  let ?k = "length (takeWhile ?P refs)"
  from assms have ex: "\<exists>x \<in> set refs. \<not> ?P x" by simp
  note idx = takeWhile_dropWhile_index [of refs ?P, OF ex]
  from idx have k: "?k < length refs" and d: "refDiffers r (refs ! ?k)" by simp_all
  from idx have before: "\<forall>j. 0 \<le> j \<and> j < ?k \<longrightarrow> \<not> refDiffers r (refs ! j)" by simp
  have "updateOwnerRefs_from r refs 0 = removeAndUpdate r refs ?k"
    by (rule updateOwnerRefs_from_first [OF k d _ before]) simp
  moreover from assms have "refs \<noteq> []" by auto
  ultimately show ?thesis
    using idx by (simp add: updateOwnerRefs_def removeAndUpdate_def)
qed

lemma updateOwnerRefs_all_match:
  assumes "refs \<noteq> []" and "\<forall>x \<in> set refs. \<not> refDiffers r x"
  shows "updateOwnerRefs r refs = refs"
proof -
  from assms(2) have "\<forall>j. 0 \<le> j \<and> j < length refs \<longrightarrow> \<not> refDiffers r (refs ! j)" by simp
  from updateOwnerRefs_from_all_match [OF this] assms(1) show ?thesis
    by (simp add: updateOwnerRefs_def)
qed

lemma refDiffers_self: "\<not> refDiffers r r"
  by (simp add: refDiffers_def)


subsection \<open>Facts about the pruning loop\<close>

declare pruneSubjects.simps [simp del]

lemma dom_buildNsMap:
  "fst ` set (buildNsMap listed m) = fst ` set m \<union> nsName ` set listed"
  by (induction listed arbitrary: m) (auto simp: dom_update)

lemma distinct_buildNsMap:
  "distinct (map fst m) \<Longrightarrow> distinct (map fst (buildNsMap listed m))"
  by (induction listed arbitrary: m) (auto simp: distinct_update)

lemma pruneSubjects_stop:
  "\<not> i < length ss \<Longrightarrow> pruneSubjects m ss i u = (ss, u)"
  by (subst pruneSubjects.simps) simp

lemma pruneSubjects_remove:
  "i < length ss \<Longrightarrow> length m \<noteq> length ss \<Longrightarrow> map_of m (sNamespace (ss ! i)) = None \<Longrightarrow>
   pruneSubjects m ss i u = pruneSubjects m (removeIndex ss i) (i + 1) True"
  by (subst pruneSubjects.simps) simp

lemma pruneSubjects_keep:
  "i < length ss \<Longrightarrow> length m = length ss \<or> map_of m (sNamespace (ss ! i)) \<noteq> None \<Longrightarrow>
   pruneSubjects m ss i u = pruneSubjects m ss (i + 1) u"
  by (subst pruneSubjects.simps) auto

lemma pruneSubjects_cases:
  obtains (stop) "\<not> i < length ss"
  | (remove) "i < length ss" "length m \<noteq> length ss" "map_of m (sNamespace (ss ! i)) = None"
  | (keep) "i < length ss" "length m = length ss \<or> map_of m (sNamespace (ss ! i)) \<noteq> None"
  by blast

lemma length_removeIndex: "i < length ss \<Longrightarrow> length (removeIndex ss i) = length ss - 1"
  by (simp add: removeIndex_def)


lemma pruneSubjects_guard:
  "length m = length ss \<Longrightarrow> pruneSubjects m ss i u = (ss, u)"
proof (induction "length ss - i" arbitrary: i)
  case 0
  then show ?case by (simp add: pruneSubjects_stop)
next
  case (Suc n)
  from Suc.hyps(2) have n: "n = length ss - (i + 1)" and i: "i < length ss" by simp_all
  from Suc.hyps(1) [OF n Suc.prems] Suc.prems i show ?case
    by (simp add: pruneSubjects_keep)
qed






lemma pruneSubjects_prefix: "take i (fst (pruneSubjects m ss i u)) = take i ss"
proof (induction "length ss - i" arbitrary: ss i u rule: less_induct)
  case less
  have step: "take i xs = take i ys" if "take (i + 1) xs = take (i + 1) ys"
    for xs ys :: "Subject list"
  proof -
    have "take i (take (i + 1) xs) = take i (take (i + 1) ys)" using that by simp
    then show ?thesis by (simp add: min_def)
  qed
  show ?case
  proof (cases rule: pruneSubjects_cases [where i=i and ss=ss and m=m])
    case stop
    then show ?thesis by (simp add: pruneSubjects_stop)
  next
    case remove
    from remove(1) have "length (removeIndex ss i) - (i + 1) < length ss - i"
      by (simp add: length_removeIndex)
    from less [OF this]
    have "take (i + 1) (fst (pruneSubjects m (removeIndex ss i) (i + 1) True))
            = take (i + 1) (removeIndex ss i)" .
    then have "take i (fst (pruneSubjects m (removeIndex ss i) (i + 1) True))
            = take i (removeIndex ss i)" by (rule step)
    also from remove(1) have "\<dots> = take i ss" by (simp add: removeIndex_def)
    finally show ?thesis using remove by (simp add: pruneSubjects_remove)
  next
    case keep
    from keep(1) have "length ss - (i + 1) < length ss - i" by simp
    from less [OF this]
    have "take (i + 1) (fst (pruneSubjects m ss (i + 1) u)) = take (i + 1) ss" .
    then have "take i (fst (pruneSubjects m ss (i + 1) u)) = take i ss" by (rule step)
    with keep show ?thesis by (simp add: pruneSubjects_keep)
  qed
qed



lemma pruneSubjects_skip:
  assumes "i + 1 < length ss" and "length m \<noteq> length ss"
    and "map_of m (sNamespace (ss ! i)) = None"
  shows "fst (pruneSubjects m ss i u) ! i = ss ! (i + 1)"
proof -
  from assms have eq: "pruneSubjects m ss i u = pruneSubjects m (removeIndex ss i) (i + 1) True"
    by (simp add: pruneSubjects_remove)
  have "take (i + 1) (fst (pruneSubjects m (removeIndex ss i) (i + 1) True))
          = take (i + 1) (removeIndex ss i)" by (rule pruneSubjects_prefix)
  then have "take (i + 1) (fst (pruneSubjects m (removeIndex ss i) (i + 1) True)) ! i
          = take (i + 1) (removeIndex ss i) ! i" by simp
  then have "fst (pruneSubjects m (removeIndex ss i) (i + 1) True) ! i = removeIndex ss i ! i"
    by simp
  with eq assms(1) show ?thesis
    by (simp add: removeIndex_def nth_append min_def)
qed

lemma card_dom_buildNsMap:
  "length (buildNsMap listed []) = card (nsName ` set listed)"
proof -
  have "distinct (map fst (buildNsMap listed []))" by (simp add: distinct_buildNsMap)
  then have "card (fst ` set (buildNsMap listed [])) = length (buildNsMap listed [])"
    by (metis distinct_card length_map set_map)
  then show ?thesis by (simp add: dom_buildNsMap)
qed


lemma pruneAndUpdate_guard:
  assumes "card (nsName ` set listed) = length (crbSubjects rb)"
    and "crbCache c clusterInterceptors = Some rb"
  shows "pruneAndUpdate rb listed c = (None, c)"
proof -
  from assms(1) have "pruneSubjects (buildNsMap listed []) (crbSubjects rb) 0 False
      = (crbSubjects rb, False)"
    by (simp add: pruneSubjects_guard card_dom_buildNsMap)
  moreover from assms(2) have "(crbCache c)(clusterInterceptors \<mapsto> rb) = crbCache c"
    by (rule map_upd_triv)
  ultimately show ?thesis by (simp add: pruneAndUpdate_def)
qed

lemma isUpdate_lister [simp]:
  "\<not> isUpdate (Call Get res ns name)" "\<not> isUpdate (Call List res ns name)"
  by simp_all

lemma removeAndUpdateNSFromCI_guard:
  assumes cache: "crbCache c clusterInterceptors = Some rb"
    and dist: "distinct (map nsName (filter (hasLabel namespaceVersionLabel (version r)) (nsCache c)))"
    and len: "length (filter (hasLabel namespaceVersionLabel (version r)) (nsCache c))
                = length (crbSubjects rb)"
  shows "updateCalls (snd (removeAndUpdateNSFromCI r c)) = updateCalls c
       \<and> clusterRoleBindings (snd (removeAndUpdateNSFromCI r c)) = clusterRoleBindings c
       \<and> crbCache (snd (removeAndUpdateNSFromCI r c)) = crbCache c"
proof -
  let ?listed = "filter (hasLabel namespaceVersionLabel (version r)) (nsCache c)"
  from dist have "card (nsName ` set ?listed) = length ?listed"
    by (metis distinct_card length_map set_map)
  with len have card: "card (nsName ` set ?listed) = length (crbSubjects rb)" by simp
  have pu: "pruneAndUpdate rb ?listed c' = (None, c')"
    if "crbCache c' = crbCache c" for c'
    using card cache that by (simp add: pruneAndUpdate_guard)
  show ?thesis
    using cache
    by (simp add: removeAndUpdateNSFromCI_def listerGetClusterRoleBinding_def
        listerListNamespaces_def invoke_def updateCalls_def pu)
qed



lemma example_version_valid: "validLabelValue (version exampleRbac)"
  by (simp add: validLabelValue_def isAlnum_def exampleRbac_def)

subsection \<open>Facts about the defaulting of the toggles\<close>

lemma toggle_names_distinct:
  "rbacParamName \<noteq> legacyPipelineRbacParamName"
  "rbacParamName \<noteq> trustedCABundleParamName"
  "legacyPipelineRbacParamName \<noteq> trustedCABundleParamName"
  by (simp_all add: rbacParamName_def legacyPipelineRbacParamName_def trustedCABundleParamName_def)

lemma setDefault_loop_params: "fst (setDefault_loop ps vars) = map normalised ps"
proof (induction ps arbitrary: vars)
  case Nil
  then show ?case by simp
next
  case (Cons v ps)
  show ?case
    using toggle_names_distinct
    by (simp add: Let_def split_beta Cons.IH normalised_def isToggle_def)
qed

lemma setDefault_loop_rbacFound:
  "rbacParamFound (snd (setDefault_loop ps vars))
     = (rbacParamFound vars \<or> (\<exists>p \<in> set ps. pName p = rbacParamName))"
  by (induction ps arbitrary: vars) (auto simp: Let_def split_beta)

lemma setDefault_loop_legacyFound:
  "legacyParamFound (snd (setDefault_loop ps vars))
     = (legacyParamFound vars \<or> (\<exists>p \<in> set ps. pName p = legacyPipelineRbacParamName))"
  by (induction ps arbitrary: vars) (auto simp: Let_def split_beta)

lemma setDefault_loop_caFound:
  "caBundleParamFound (snd (setDefault_loop ps vars))
     = (caBundleParamFound vars \<or> (\<exists>p \<in> set ps. pName p = trustedCABundleParamName))"
  by (induction ps arbitrary: vars) (auto simp: Let_def split_beta)

lemma setDefault_loop_value:
  "createRbacResourceValue (snd (setDefault_loop ps vars))
     = (if \<exists>p \<in> set ps. pName p = rbacParamName
        then pValue (last (filter (\<lambda>p. pName p = rbacParamName) ps))
        else createRbacResourceValue vars)"
proof (induction ps arbitrary: vars)
  case Nil
  then show ?case by simp
next
  case (Cons v ps)
  show ?case
    by (simp add: Let_def split_beta Cons.IH filter_empty_conv)
qed

lemma setDefault_params:
  "tcParams (tektonConfig (setDefault r)) =
     map normalised (tcParams (tektonConfig r))
     @ (if \<exists>p \<in> set (tcParams (tektonConfig r)). pName p = rbacParamName then []
        else [\<lparr>pName = rbacParamName, pValue = ''true''\<rparr>])
     @ (if \<exists>p \<in> set (tcParams (tektonConfig r)). pName p = legacyPipelineRbacParamName then []
        else [\<lparr>pName = legacyPipelineRbacParamName, pValue = ''true''\<rparr>])
     @ (if \<exists>p \<in> set (tcParams (tektonConfig r)). pName p = trustedCABundleParamName then []
        else [\<lparr>pName = trustedCABundleParamName,
               pValue = (if (\<exists>p \<in> set (tcParams (tektonConfig r)). pName p = rbacParamName)
                            \<and> pValue (last (filter (\<lambda>p. pName p = rbacParamName)
                                                (tcParams (tektonConfig r)))) = ''false''
                         then ''false'' else ''true'')\<rparr>])"
proof -
  let ?ps0 = "tcParams (tektonConfig r)"
  let ?v0 = "\<lparr>rbacParamFound = False, legacyParamFound = False, caBundleParamFound = False,
               createRbacResourceValue = []\<rparr>"
  obtain params vars where l: "setDefault_loop ?ps0 ?v0 = (params, vars)" by fastforce
  from setDefault_loop_params [of ?ps0 ?v0] l have p: "params = map normalised ?ps0" by simp
  from setDefault_loop_rbacFound [of ?ps0 ?v0] l
  have a: "rbacParamFound vars = (\<exists>p \<in> set ?ps0. pName p = rbacParamName)" by simp
  from setDefault_loop_legacyFound [of ?ps0 ?v0] l
  have b: "legacyParamFound vars = (\<exists>p \<in> set ?ps0. pName p = legacyPipelineRbacParamName)" by simp
  from setDefault_loop_caFound [of ?ps0 ?v0] l
  have c: "caBundleParamFound vars = (\<exists>p \<in> set ?ps0. pName p = trustedCABundleParamName)" by simp
  from setDefault_loop_value [of ?ps0 ?v0] l
  have d: "createRbacResourceValue vars
     = (if \<exists>p \<in> set ?ps0. pName p = rbacParamName
        then pValue (last (filter (\<lambda>p. pName p = rbacParamName) ?ps0)) else [])" by simp
  show ?thesis
    unfolding setDefault_def l by (simp add: Let_def p a b c d)
qed

lemma normalised_name [simp]: "pName (normalised p) = pName p"
  by (simp add: normalised_def)

lemma normalised_value:
  "isToggle (pName p) \<Longrightarrow> pValue (normalised p) = ''true'' \<or> pValue (normalised p) = ''false''"
  by (simp add: normalised_def)

subsection \<open>Facts about the bookkeeping object and the label clean-up\<close>

lemma nsName_clear [simp]: "nsName (clearVersionLabel n) = nsName n"
  by (simp add: clearVersionLabel_def)

lemma updateNamespace_nofault:
  assumes "\<forall>k. \<not> faults c k" and "nsName n \<in> nsName ` set (namespaces c)"
  shows "updateNamespace n c =
           (None, c\<lparr>calls := calls c @ [Call Update Namespaces [] (nsName n)],
                     namespaces := map (\<lambda>m. if nsName m = nsName n then n else m) (namespaces c)\<rparr>)"
  using assms by (simp add: updateNamespace_def invoke_def)

lemma map_replace_by_name:
  assumes "distinct (map nsName ms)" and "n \<in> set ms"
  shows "map (\<lambda>m. if nsName m = nsName n then f n else m) ms = map (\<lambda>m. if m = n then f n else m) ms"
proof (rule map_cong [OF refl])
  fix m assume "m \<in> set ms"
  with assms have "nsName m = nsName n \<longleftrightarrow> m = n"
    by (metis distinct_map inj_on_def)
  then show "(if nsName m = nsName n then f n else m) = (if m = n then f n else m)" by simp
qed

lemma cleanUp_loop_nofault:
  assumes "\<forall>k. \<not> faults c k" and "set items \<subseteq> set (namespaces c)"
    and "distinct (map nsName (namespaces c))" and "distinct items"
  shows "fst (cleanUp_loop items c) = None
       \<and> namespaces (snd (cleanUp_loop items c))
           = map (\<lambda>m. if m \<in> set items then clearVersionLabel m else m) (namespaces c)
       \<and> installerSets (snd (cleanUp_loop items c)) = installerSets c
       \<and> faults (snd (cleanUp_loop items c)) = faults c"
  using assms
proof (induction items arbitrary: c)
  case Nil
  then show ?case by simp
next
  case (Cons n items)
  let ?n' = "clearVersionLabel n"
  let ?c1 = "c\<lparr>calls := calls c @ [Call Update Namespaces [] (nsName n)],
               namespaces := map (\<lambda>m. if nsName m = nsName n then ?n' else m) (namespaces c)\<rparr>"
  from Cons.prems have nin: "n \<in> set (namespaces c)" by simp
  then have "nsName ?n' \<in> nsName ` set (namespaces c)" by simp
  from updateNamespace_nofault [OF Cons.prems(1) this]
  have upd: "updateNamespace ?n' c = (None, ?c1)" by simp
  have ns1: "namespaces ?c1 = map (\<lambda>m. if m = n then ?n' else m) (namespaces c)"
    using map_replace_by_name [OF Cons.prems(3) nin, of clearVersionLabel] by simp
  have names1: "map nsName (namespaces ?c1) = map nsName (namespaces c)"
    by (auto simp: ns1)
  have other: "nsName m \<noteq> nsName n" if "m \<in> set items" for m
  proof -
    from that Cons.prems(4) have "m \<noteq> n" by auto
    moreover from that Cons.prems(2) have "m \<in> set (namespaces c)" by auto
    ultimately show ?thesis using Cons.prems(3) nin by (metis distinct_map inj_on_def)
  qed
  have sub1: "set items \<subseteq> set (namespaces ?c1)"
  proof
    fix m assume m: "m \<in> set items"
    with Cons.prems(2) have "m \<in> set (namespaces c)" by auto
    moreover from other [OF m] have "m \<noteq> n" by auto
    ultimately show "m \<in> set (namespaces ?c1)" unfolding ns1 by force
  qed
  have f1: "\<forall>k. \<not> faults ?c1 k" using Cons.prems(1) by simp
  have d1: "distinct (map nsName (namespaces ?c1))" by (simp only: names1 Cons.prems(3))
  from Cons.prems(4) have d2: "distinct items" by simp
  note IH = Cons.IH [OF f1 sub1 d1 d2]
  have notin: "?n' \<notin> set items"
  proof
    assume "?n' \<in> set items"
    from other [OF this] show False by simp
  qed
  have "map (\<lambda>m. if m \<in> set items then clearVersionLabel m else m) (namespaces ?c1)
      = map (\<lambda>m. if m \<in> set (n # items) then clearVersionLabel m else m) (namespaces c)"
    unfolding ns1 using notin by (auto simp: comp_def)
  with IH show ?case
    by (simp add: upd)
qed

lemma removeObsolete_nofault:
  assumes "\<forall>k. \<not> faults c k"
  shows "fst (removeObsoleteRBACInstallerSet c) = None"
    and "installerSets (snd (removeObsoleteRBACInstallerSet c))
           = filter (\<lambda>s. isName s \<noteq> rbacInstallerSetNameOld) (installerSets c)"
    and "namespaces (snd (removeObsoleteRBACInstallerSet c)) = namespaces c"
    and "faults (snd (removeObsoleteRBACInstallerSet c)) = faults c"
proof -
  have id: "filter (\<lambda>s. isName s \<noteq> rbacInstallerSetNameOld) (installerSets c) = installerSets c"
    if "rbacInstallerSetNameOld \<notin> isName ` set (installerSets c)"
    using that by (force simp: filter_id_conv)
  show "fst (removeObsoleteRBACInstallerSet c) = None"
    using assms by (simp add: removeObsoleteRBACInstallerSet_def deleteInstallerSet_def invoke_def)
  show "installerSets (snd (removeObsoleteRBACInstallerSet c))
           = filter (\<lambda>s. isName s \<noteq> rbacInstallerSetNameOld) (installerSets c)"
    using assms id
    by (simp add: removeObsoleteRBACInstallerSet_def deleteInstallerSet_def invoke_def)
  show "namespaces (snd (removeObsoleteRBACInstallerSet c)) = namespaces c"
    using assms by (simp add: removeObsoleteRBACInstallerSet_def deleteInstallerSet_def invoke_def)
  show "faults (snd (removeObsoleteRBACInstallerSet c)) = faults c"
    using assms by (simp add: removeObsoleteRBACInstallerSet_def deleteInstallerSet_def invoke_def)
qed

lemma cleanUp_nofault:
  assumes "\<forall>k. \<not> faults c k" and "validLabelValue (version r)"
    and "distinct (map nsName (namespaces c))"
  shows "fst (cleanUp r c) = None
       \<and> namespaces (snd (cleanUp r c))
           = map (\<lambda>m. if hasLabel namespaceVersionLabel (version r) m
                       then clearVersionLabel m else m) (namespaces c)
       \<and> installerSets (snd (cleanUp r c)) = installerSets c
       \<and> faults (snd (cleanUp r c)) = faults c"
proof -
  let ?items = "filter (hasLabel namespaceVersionLabel (version r)) (namespaces c)"
  let ?c1 = "c\<lparr>calls := calls c @ [Call List Namespaces [] (namespaceVersionLabel @ '' = '' @ version r)]\<rparr>"
  have eq: "cleanUp r c = cleanUp_loop ?items ?c1"
    using assms(1,2) by (simp add: cleanUp_def listNamespacesWithLabel_def invoke_def)
  have a: "\<forall>k. \<not> faults ?c1 k" using assms(1) by simp
  have b: "set ?items \<subseteq> set (namespaces ?c1)" by auto
  have c: "distinct (map nsName (namespaces ?c1))" using assms(3) by simp
  have d: "distinct ?items" using assms(3) by (simp add: distinct_map)
  from cleanUp_loop_nofault [OF a b c d] show ?thesis
    unfolding eq by (auto cong: if_cong)
qed

lemma EnsureRBACInstallerSet_nofault:
  assumes nf: "\<forall>k. \<not> faults c k" and valid: "validLabelValue (version r)"
    and dist: "distinct (map nsName (namespaces c))"
  shows "find (\<lambda>s. isVersion s = version r)
           (filter (\<lambda>s. isName s \<noteq> rbacInstallerSetNameOld) (installerSets c)) = None \<Longrightarrow>
         fst (EnsureRBACInstallerSet r c) = Inl RECONCILE_AGAIN_ERR
       \<and> namespaces (snd (EnsureRBACInstallerSet r c))
           = map (\<lambda>m. if hasLabel namespaceVersionLabel (version r) m
                       then clearVersionLabel m else m) (namespaces c)
       \<and> installerSets (snd (EnsureRBACInstallerSet r c))
           = filter (\<lambda>s. isName s \<noteq> rbacInstallerSetNameOld) (installerSets c)
               @ [newInstallerSet (version r)]"
    and "find (\<lambda>s. isVersion s = version r)
           (filter (\<lambda>s. isName s \<noteq> rbacInstallerSetNameOld) (installerSets c)) = Some rbacISet \<Longrightarrow>
         fst (EnsureRBACInstallerSet r c) = Inr rbacISet
       \<and> namespaces (snd (EnsureRBACInstallerSet r c)) = namespaces c
       \<and> installerSets (snd (EnsureRBACInstallerSet r c))
           = filter (\<lambda>s. isName s \<noteq> rbacInstallerSetNameOld) (installerSets c)"
proof -
  obtain c1 where r1: "removeObsoleteRBACInstallerSet c = (None, c1)"
    using removeObsolete_nofault(1) [OF nf] by (cases "removeObsoleteRBACInstallerSet c") auto
  from removeObsolete_nofault(2,3,4) [OF nf] r1
  have i1: "installerSets c1 = filter (\<lambda>s. isName s \<noteq> rbacInstallerSetNameOld) (installerSets c)"
    and n1: "namespaces c1 = namespaces c" and f1: "faults c1 = faults c" by simp_all
  let ?c2 = "c1\<lparr>calls := calls c1 @ [Call List TektonInstallerSets [] (version r)]\<rparr>"
  have chk: "checkIfInstallerSetExist (version r) c1
      = (Inr (find (\<lambda>s. isVersion s = version r) (installerSets c1)), ?c2)"
    using nf f1 by (simp add: checkIfInstallerSetExist_def invoke_def)
  have nf2: "\<forall>k. \<not> faults ?c2 k" using nf f1 by simp
  have d2: "distinct (map nsName (namespaces ?c2))" using dist n1 by simp
  note cu = cleanUp_nofault [OF nf2 valid d2]
  obtain c3 where r3: "cleanUp r ?c2 = (None, c3)"
    using cu by (cases "cleanUp r ?c2") auto
  from cu r3 have n3: "namespaces c3 = map (\<lambda>m. if hasLabel namespaceVersionLabel (version r) m
                       then clearVersionLabel m else m) (namespaces c)"
    and i3: "installerSets c3 = installerSets c1" and f3: "faults c3 = faults c"
    using n1 f1 by simp_all
  have cr: "createInstallerSet (version r) c3
      = (None, c3\<lparr>calls := calls c3 @ [Call Create TektonInstallerSets [] rbacInstallerSetNamePrefix],
                   installerSets := installerSets c3 @ [newInstallerSet (version r)]\<rparr>)"
    using nf f3 by (simp add: createInstallerSet_def invoke_def)
  show "fst (EnsureRBACInstallerSet r c) = Inl RECONCILE_AGAIN_ERR
       \<and> namespaces (snd (EnsureRBACInstallerSet r c))
           = map (\<lambda>m. if hasLabel namespaceVersionLabel (version r) m
                       then clearVersionLabel m else m) (namespaces c)
       \<and> installerSets (snd (EnsureRBACInstallerSet r c))
           = filter (\<lambda>s. isName s \<noteq> rbacInstallerSetNameOld) (installerSets c)
               @ [newInstallerSet (version r)]"
    if "find (\<lambda>s. isVersion s = version r)
           (filter (\<lambda>s. isName s \<noteq> rbacInstallerSetNameOld) (installerSets c)) = None"
    using that by (simp add: EnsureRBACInstallerSet_def r1 chk i1 r3 cr n3 i3)
  show "fst (EnsureRBACInstallerSet r c) = Inr rbacISet
       \<and> namespaces (snd (EnsureRBACInstallerSet r c)) = namespaces c
       \<and> installerSets (snd (EnsureRBACInstallerSet r c))
           = filter (\<lambda>s. isName s \<noteq> rbacInstallerSetNameOld) (installerSets c)"
    if "find (\<lambda>s. isVersion s = version r)
           (filter (\<lambda>s. isName s \<noteq> rbacInstallerSetNameOld) (installerSets c)) = Some rbacISet"
    using that by (simp add: EnsureRBACInstallerSet_def r1 chk i1 n1)
qed

lemma namespacesCluster_simps [simp]:
  "namespaces (namespacesCluster nss isets) = nss"
  "installerSets (namespacesCluster nss isets) = isets"
  "faults (namespacesCluster nss isets) k = False"
  by (simp_all add: namespacesCluster_def emptyCluster_def)

lemma hasLabel_labeledNamespace [simp]:
  "hasLabel namespaceVersionLabel v (labeledNamespace name w) \<longleftrightarrow> v = w"
  by (auto simp: hasLabel_def labeledNamespace_def)

lemma nsName_labeledNamespace [simp]: "nsName (labeledNamespace name w) = name"
  by (simp add: labeledNamespace_def)

lemma version_exampleRbac [simp]: "version exampleRbac = ''v1''"
  by (simp add: exampleRbac_def)

subsection \<open>Facts about the service account\<close>

lemma ensureSA_success:
  assumes ok: "fst (ensureSA r ns c) = Inr sa"
    and wf: "\<forall>sa0. serviceAccounts c (nsName ns, pipelineSA) = Some sa0 \<longrightarrow> saName sa0 = pipelineSA"
  shows "serviceAccounts (snd (ensureSA r ns c)) (nsName ns, pipelineSA) = Some sa"
    and "saOwnerReferences sa = [tcOwnerRef (tektonConfig r)]"
proof -
  have "serviceAccounts (snd (ensureSA r ns c)) (nsName ns, pipelineSA) = Some sa
      \<and> saOwnerReferences sa = [tcOwnerRef (tektonConfig r)]"
  proof (cases "serviceAccounts c (nsName ns, pipelineSA)")
    case None
    with ok show ?thesis
      by (auto simp: ensureSA_def createSA_def getServiceAccount_def createServiceAccount_def
          invoke_def Let_def split: if_splits)
  next
    case (Some sa0)
    with wf have "saName sa0 = pipelineSA" by simp
    with ok Some show ?thesis
      by (auto simp: ensureSA_def getServiceAccount_def updateServiceAccount_def
          invoke_def Let_def split: if_splits)
  qed
  then show "serviceAccounts (snd (ensureSA r ns c)) (nsName ns, pipelineSA) = Some sa"
    and "saOwnerReferences sa = [tcOwnerRef (tektonConfig r)]" by simp_all
qed

lemma createSA_success:
  assumes "fst (createSA n tc c) = Inr sa" and "serviceAccounts c (n, pipelineSA) = None"
  shows "serviceAccounts (snd (createSA n tc c)) (n, pipelineSA) = Some sa
       \<and> saOwnerReferences sa = [tcOwnerRef tc]"
  using assms
  by (auto simp: createSA_def createServiceAccount_def invoke_def Let_def split: if_splits)

lemma createSA_exists:
  assumes "serviceAccounts c (n, pipelineSA) = Some sa0"
  shows "serviceAccounts (snd (createSA n tc c)) = serviceAccounts c"
  using assms
  by (auto simp: createSA_def createServiceAccount_def invoke_def Let_def split: if_splits)

subsection \<open>What a pass leaves unchanged\<close>

lemma keepsNamespaces_refl [simp]: "keepsNamespaces c c"
  by (simp add: keepsNamespaces_def)

lemma keepsNamespaces_trans:
  "keepsNamespaces c c1 \<Longrightarrow> keepsNamespaces c1 c2 \<Longrightarrow> keepsNamespaces c c2"
  by (simp add: keepsNamespaces_def)

lemma keeps_primitives:
  "getServiceAccount ns name c = (sares, c') \<Longrightarrow> keepsNamespaces c c'"
  "createServiceAccount ns sa c = (sares, c') \<Longrightarrow> keepsNamespaces c c'"
  "updateServiceAccount ns sa c = (sares, c') \<Longrightarrow> keepsNamespaces c c'"
  "getRole ns name c = (rres, c') \<Longrightarrow> keepsNamespaces c c'"
  "createRole ns ro c = (eres, c') \<Longrightarrow> keepsNamespaces c c'"
  "updateRole ns ro c = (eres, c') \<Longrightarrow> keepsNamespaces c c'"
  "deleteRole ns name c = (eres, c') \<Longrightarrow> keepsNamespaces c c'"
  "getRoleBinding ns name c = (rbres, c') \<Longrightarrow> keepsNamespaces c c'"
  "createRoleBindingObject ns rb c = (eres, c') \<Longrightarrow> keepsNamespaces c c'"
  "updateRoleBindingObject ns rb c = (eres, c') \<Longrightarrow> keepsNamespaces c c'"
  "deleteRoleBinding ns name c = (eres, c') \<Longrightarrow> keepsNamespaces c c'"
  "getClusterRole name c = (crres, c') \<Longrightarrow> keepsNamespaces c c'"
  "createClusterRoleObject cr c = (eres, c') \<Longrightarrow> keepsNamespaces c c'"
  "updateClusterRole cr c = (eres, c') \<Longrightarrow> keepsNamespaces c c'"
  "getClusterRoleBinding name c = (crbres, c') \<Longrightarrow> keepsNamespaces c c'"
  "createClusterRoleBinding crb c = (eres, c') \<Longrightarrow> keepsNamespaces c c'"
  "updateClusterRoleBinding crb c = (eres, c') \<Longrightarrow> keepsNamespaces c c'"
  "createEvent ns ev c = (eres, c') \<Longrightarrow> keepsNamespaces c c'"
  "listerGetClusterRoleBinding name c = (crbres, c') \<Longrightarrow> keepsNamespaces c c'"
  "listerListNamespaces key val c = (lres, c') \<Longrightarrow> keepsNamespaces c c'"
  "VerifySCCExists name c = (vres, c') \<Longrightarrow> keepsNamespaces c c'"
  "GetSCCRestrictiveList c = (gres, c') \<Longrightarrow> keepsNamespaces c c'"
  by (auto simp: getServiceAccount_def createServiceAccount_def updateServiceAccount_def
      getRole_def createRole_def updateRole_def deleteRole_def getRoleBinding_def
      createRoleBindingObject_def updateRoleBindingObject_def deleteRoleBinding_def
      getClusterRole_def createClusterRoleObject_def updateClusterRole_def
      getClusterRoleBinding_def createClusterRoleBinding_def updateClusterRoleBinding_def
      createEvent_def listerGetClusterRoleBinding_def listerListNamespaces_def
      VerifySCCExists_def GetSCCRestrictiveList_def
      invoke_def keepsNamespaces_def split: if_splits option.splits)

lemma createSA_keeps: "createSA ns tc c = (res, c') \<Longrightarrow> keepsNamespaces c c'"
  by (auto simp: createSA_def Let_def split: prod.splits sum.splits if_splits
      dest!: keeps_primitives)

lemma ensureSA_keeps: "ensureSA r ns c = (res, c') \<Longrightarrow> keepsNamespaces c c'"
  by (auto simp: ensureSA_def Let_def split: prod.splits sum.splits if_splits
      dest!: keeps_primitives createSA_keeps intro: keepsNamespaces_trans)


lemma ensureSCCRoleInNamespace_keeps:
  "ensureSCCRoleInNamespace r ns scc c = (res, c') \<Longrightarrow> keepsNamespaces c c'"
  by (auto simp: ensureSCCRoleInNamespace_def Let_def split: prod.splits sum.splits option.splits if_splits
      dest!: keeps_primitives intro: keepsNamespaces_trans)

lemma createSCCFailureEventInNamespace_keeps:
  "createSCCFailureEventInNamespace r ns scc c = (res, c') \<Longrightarrow> keepsNamespaces c c'"
  by (auto simp: createSCCFailureEventInNamespace_def Let_def split: prod.splits option.splits
      dest!: keeps_primitives)

lemma handleSCCInNamespace_keeps:
  "handleSCCInNamespace r ns c = (res, c') \<Longrightarrow> keepsNamespaces c c'"
  by (auto simp: handleSCCInNamespace_def Let_def split: prod.splits sum.splits option.splits if_splits
      dest!: keeps_primitives ensureSCCRoleInNamespace_keeps createSCCFailureEventInNamespace_keeps
      intro: keepsNamespaces_trans)

lemma createSCCRoleBinding_keeps:
  "createSCCRoleBinding r sa roleRef c = (res, c') \<Longrightarrow> keepsNamespaces c c'"
  by (auto simp: createSCCRoleBinding_def Let_def split: prod.splits option.splits
      dest!: keeps_primitives)

lemma updateRoleBinding_keeps:
  "updateRoleBinding r rb sa roleRef c = (res, c') \<Longrightarrow> keepsNamespaces c c'"
  by (auto simp: updateRoleBinding_def Let_def split: prod.splits option.splits if_splits
      dest!: keeps_primitives intro: keepsNamespaces_trans)

lemma ensurePipelinesSCCRoleBinding_keeps:
  "ensurePipelinesSCCRoleBinding r sa roleRef c = (res, c') \<Longrightarrow> keepsNamespaces c c'"
  by (auto simp: ensurePipelinesSCCRoleBinding_def Let_def
      split: prod.splits sum.splits option.splits if_splits
      dest!: keeps_primitives createSCCRoleBinding_keeps updateRoleBinding_keeps
      intro: keepsNamespaces_trans)

lemma createRoleBinding_keeps:
  "createRoleBinding r sa c = (res, c') \<Longrightarrow> keepsNamespaces c c'"
  by (auto simp: createRoleBinding_def Let_def split: prod.splits sum.splits option.splits
      dest!: keeps_primitives intro: keepsNamespaces_trans)

lemma ensureRoleBindings_keeps:
  "ensureRoleBindings r sa c = (res, c') \<Longrightarrow> keepsNamespaces c c'"
  by (auto simp: ensureRoleBindings_def Let_def split: prod.splits sum.splits option.splits if_splits
      dest!: keeps_primitives createRoleBinding_keeps updateRoleBinding_keeps
      intro: keepsNamespaces_trans)

lemma processRBAC_keeps:
  "processRBAC r ns c = (res, c') \<Longrightarrow> keepsNamespaces c c'"
  by (auto simp: processRBAC_def Let_def split: prod.splits sum.splits option.splits
      dest!: ensureSA_keeps handleSCCInNamespace_keeps ensurePipelinesSCCRoleBinding_keeps
        ensureRoleBindings_keeps
      intro: keepsNamespaces_trans)

lemma processNamespaces_keeps:
  "processNamespaces r nss acc c = (res, c') \<Longrightarrow> keepsNamespaces c c'"
proof (induction nss arbitrary: acc c)
  case Nil
  then show ?case by simp
next
  case (Cons ns nss)
  obtain x c1 where p: "processRBAC r ns c = (x, c1)" by fastforce
  from processRBAC_keeps [OF p] have k1: "keepsNamespaces c c1" .
  from Cons.prems p obtain acc' where "processNamespaces r nss acc' c1 = (res, c')"
    by (cases x) auto
  from Cons.IH [OF this] k1 show ?case by (rule keepsNamespaces_trans [rotated])
qed

lemma createClusterRole_keeps:
  "createClusterRole r c = (res, c') \<Longrightarrow> keepsNamespaces c c'"
  by (auto simp: createClusterRole_def Let_def split: prod.splits option.splits
      dest!: keeps_primitives)

lemma bulkUpdateClusterRoleBinding_keeps:
  "bulkUpdateClusterRoleBinding r rb subjects c = (res, c') \<Longrightarrow> keepsNamespaces c c'"
  by (auto simp: bulkUpdateClusterRoleBinding_def Let_def split: prod.splits option.splits if_splits
      dest!: keeps_primitives intro: keepsNamespaces_trans)

lemma bulkCreateClusterRoleBinding_keeps:
  "bulkCreateClusterRoleBinding r subjects c = (res, c') \<Longrightarrow> keepsNamespaces c c'"
  by (auto simp: bulkCreateClusterRoleBinding_def Let_def split: prod.splits sum.splits option.splits
      dest!: keeps_primitives intro: keepsNamespaces_trans)

lemma handleClusterRoleBinding_keeps:
  "handleClusterRoleBinding r nsSAs c = (res, c') \<Longrightarrow> keepsNamespaces c c'"
  by (auto simp: handleClusterRoleBinding_def Let_def
      split: prod.splits sum.splits option.splits if_splits
      dest!: keeps_primitives createClusterRole_keeps bulkUpdateClusterRoleBinding_keeps
        bulkCreateClusterRoleBinding_keeps
      intro: keepsNamespaces_trans)

lemma pruneAndUpdate_keeps:
  "pruneAndUpdate rb listed c = (res, c') \<Longrightarrow> keepsNamespaces c c'"
  by (auto simp: pruneAndUpdate_def Let_def keepsNamespaces_def
      updateClusterRoleBinding_def invoke_def
      split: prod.splits option.splits if_splits)

lemma removeAndUpdateNSFromCI_keeps:
  "removeAndUpdateNSFromCI r c = (res, c') \<Longrightarrow> keepsNamespaces c c'"
  by (auto simp: removeAndUpdateNSFromCI_def Let_def
      split: prod.splits sum.splits option.splits if_splits
      dest!: keeps_primitives pruneAndUpdate_keeps
      intro: keepsNamespaces_trans)

subsection \<open>Facts about a namespace above the ceiling\<close>

lemma exceedsCeiling_keeps:
  "keepsNamespaces c c' \<Longrightarrow> exceedsCeiling r ns c' = exceedsCeiling r ns c"
  by (simp add: exceedsCeiling_def keepsNamespaces_def)

lemma handleSCCInNamespace_violation:
  assumes "exceedsCeiling r ns c"
  shows "fst (handleSCCInNamespace r ns c) \<noteq> None"
proof -
  let ?scc = "lookupStr (nsAnnotations ns) NamespaceSCCAnnotation"
  from assms have a: "?scc \<noteq> []" and b: "tcSCCMaxAllowed (tektonConfig r) \<noteq> []"
    and cmp: "SCCAMoreRestrictiveThanB (sccPriority c) ?scc (tcSCCMaxAllowed (tektonConfig r)) = Inr False"
    by (simp_all add: exceedsCeiling_def)
  obtain v c1 where v: "VerifySCCExists ?scc c = (v, c1)" by fastforce
  from keeps_primitives(21) [OF v] have p1: "sccPriority c1 = sccPriority c"
    by (simp add: keepsNamespaces_def)
  show ?thesis
  proof (cases v)
    case (Some err)
    with v a show ?thesis
      by (auto simp: handleSCCInNamespace_def Let_def split: prod.splits option.splits)
  next
    case None
    obtain g c2 where g: "GetSCCRestrictiveList c1 = (g, c2)" by fastforce
    then have "g = Inl (Api ServerError) \<or> g = Inr (sccPriority c1)"
      by (auto simp: GetSCCRestrictiveList_def invoke_def split: if_splits)
    with v None g a b cmp p1 show ?thesis
      by (auto simp: handleSCCInNamespace_def Let_def)
  qed
qed

lemma handleSCCInNamespace_violation_error:
  assumes "exceedsCeiling r ns c" and "\<forall>k. \<not> faults c k"
  shows "fst (handleSCCInNamespace r ns c) = Some NamespacePolicyViolation"
proof -
  let ?scc = "lookupStr (nsAnnotations ns) NamespaceSCCAnnotation"
  from assms have a: "?scc \<noteq> []" and b: "tcSCCMaxAllowed (tektonConfig r) \<noteq> []"
    and cmp: "SCCAMoreRestrictiveThanB (sccPriority c) ?scc (tcSCCMaxAllowed (tektonConfig r)) = Inr False"
    by (simp_all add: exceedsCeiling_def)
  from cmp have "?scc \<in> set (sccPriority c)"
    by (auto simp: SCCAMoreRestrictiveThanB_def split: if_splits)
  with assms(2) a b cmp show ?thesis
    by (simp add: handleSCCInNamespace_def Let_def VerifySCCExists_def GetSCCRestrictiveList_def
        invoke_def)
qed

lemma processRBAC_violation:
  assumes "exceedsCeiling r ns c"
  shows "\<exists>err. fst (processRBAC r ns c) = Inl err"
proof -
  obtain s c1 where s: "ensureSA r ns c = (s, c1)" by fastforce
  show ?thesis
  proof (cases s)
    case (Inl err)
    with s show ?thesis by (simp add: processRBAC_def)
  next
    case (Inr sa)
    from ensureSA_keeps [OF s] assms have "exceedsCeiling r ns c1"
      by (simp add: exceedsCeiling_keeps)
    from handleSCCInNamespace_violation [OF this]
    obtain err c2 where "handleSCCInNamespace r ns c1 = (Some err, c2)"
      by (cases "handleSCCInNamespace r ns c1") auto
    with s Inr show ?thesis by (simp add: processRBAC_def)
  qed
qed

lemma processRBAC_namespace:
  "processRBAC r ns c = (Inr nsSA, c') \<Longrightarrow> nssaNamespace nsSA = ns"
  by (auto simp: processRBAC_def Let_def split: prod.splits sum.splits option.splits)

lemma processNamespaces_skip:
  assumes "exceedsCeiling r ns c"
  shows "processNamespaces r (ns # rest) acc c
           = processNamespaces r rest acc (snd (processRBAC r ns c))"
proof -
  from processRBAC_violation [OF assms] obtain err c1 where "processRBAC r ns c = (Inl err, c1)"
    by (cases "processRBAC r ns c") auto
  then show ?thesis by simp
qed

lemma processNamespaces_members:
  "x \<in> set (fst (processNamespaces r nss acc c)) \<Longrightarrow>
   x \<in> set acc \<or> (nssaNamespace x \<in> set nss \<and> \<not> exceedsCeiling r (nssaNamespace x) c)"
proof (induction nss arbitrary: acc c)
  case Nil
  then show ?case by simp
next
  case (Cons ns nss)
  obtain y c1 where p: "processRBAC r ns c = (y, c1)" by fastforce
  from processRBAC_keeps [OF p] have k: "\<And>n. exceedsCeiling r n c1 = exceedsCeiling r n c"
    by (simp add: exceedsCeiling_keeps)
  show ?case
  proof (cases y)
    case (Inl err)
    with Cons.prems p have "x \<in> set (fst (processNamespaces r nss acc c1))" by simp
    from Cons.IH [OF this] k show ?thesis by auto
  next
    case (Inr nsSA)
    with Cons.prems p have "x \<in> set (fst (processNamespaces r nss (acc @ [nsSA]) c1))" by simp
    from Cons.IH [OF this] have "x \<in> set acc \<or> x = nsSA
        \<or> (nssaNamespace x \<in> set nss \<and> \<not> exceedsCeiling r (nssaNamespace x) c1)" by auto
    moreover from p Inr have "nssaNamespace nsSA = ns" by (simp add: processRBAC_namespace)
    moreover have "\<not> exceedsCeiling r ns c"
    proof
      assume "exceedsCeiling r ns c"
      from processRBAC_violation [OF this] p Inr show False by simp
    qed
    ultimately show ?thesis using k by auto
  qed
qed

lemma processNamespaces_sublist:
  "x \<in> set (fst (processNamespaces r nss acc c)) \<Longrightarrow> x \<in> set acc \<or> nssaNamespace x \<in> set nss"
  using processNamespaces_members by blast

lemma patchNamespace_other:
  assumes "patchNamespace name key val c = (res, c')" and "name \<noteq> name'"
  shows "filter (\<lambda>n. nsName n = name') (namespaces c') = filter (\<lambda>n. nsName n = name') (namespaces c)"
proof -
  have "filter (\<lambda>n. nsName n = name')
          (map (\<lambda>m. if nsName m = name then m\<lparr>nsLabels := (nsLabels m)(key \<mapsto> val)\<rparr> else m) nss)
        = filter (\<lambda>n. nsName n = name') nss" for nss
    using assms(2) by (induction nss) auto
  with assms(1) show ?thesis
    by (auto simp: patchNamespace_def invoke_def split: if_splits)
qed

lemma patchLabels_other:
  assumes "nsName ns \<notin> nsName ` nssaNamespace ` set l"
  shows "filter (\<lambda>n. nsName n = nsName ns) (namespaces (patchLabels r l c))
           = filter (\<lambda>n. nsName n = nsName ns) (namespaces c)"
  using assms
proof (induction l arbitrary: c)
  case Nil
  then show ?case by simp
next
  case (Cons x l)
  obtain res c1 where p: "patchNamespace (nsName (nssaNamespace x)) namespaceVersionLabel (version r) c = (res, c1)"
    by fastforce
  from Cons.prems have ne: "nsName (nssaNamespace x) \<noteq> nsName ns" by auto
  from patchNamespace_other [OF p ne]
  have "filter (\<lambda>n. nsName n = nsName ns) (namespaces c1)
          = filter (\<lambda>n. nsName n = nsName ns) (namespaces c)" .
  moreover from Cons.prems have "nsName ns \<notin> nsName ` nssaNamespace ` set l" by auto
  from Cons.IH [OF this, of c1]
  have "filter (\<lambda>n. nsName n = nsName ns) (namespaces (patchLabels r l c1))
          = filter (\<lambda>n. nsName n = nsName ns) (namespaces c1)" .
  moreover have "snd (patchNamespaceLabel r (nssaNamespace x) c) = c1"
    using p by (simp add: patchNamespaceLabel_def split: option.splits)
  ultimately show ?case by simp
qed

lemma reconcileRBAC_violation:
  assumes ex: "exceedsCeiling r ns c" and mem: "ns \<in> set nss"
    and dist: "distinct (map nsName nss)"
  shows "filter (\<lambda>n. nsName n = nsName ns) (namespaces (snd (reconcileRBAC r nss c)))
           = filter (\<lambda>n. nsName n = nsName ns) (namespaces c)"
proof -
  obtain e c1 where ci: "removeAndUpdateNSFromCI r c = (e, c1)" by fastforce
  from removeAndUpdateNSFromCI_keeps [OF ci] have k1: "keepsNamespaces c c1" .
  obtain upd c2 where pn: "processNamespaces r nss [] c1 = (upd, c2)" by fastforce
  from processNamespaces_keeps [OF pn] have k2: "keepsNamespaces c1 c2" .
  from ex k1 have ex1: "exceedsCeiling r ns c1" by (simp add: exceedsCeiling_keeps)
  have notin: "nsName ns \<notin> nsName ` nssaNamespace ` set upd"
  proof
    assume "nsName ns \<in> nsName ` nssaNamespace ` set upd"
    then obtain x where x: "x \<in> set upd" and nm: "nsName (nssaNamespace x) = nsName ns" by auto
    from x pn have "x \<in> set (fst (processNamespaces r nss [] c1))" by simp
    from processNamespaces_members [OF this]
    have xin: "nssaNamespace x \<in> set nss" and nex: "\<not> exceedsCeiling r (nssaNamespace x) c1" by simp_all
    from dist xin mem nm have "nssaNamespace x = ns" by (metis distinct_map inj_on_def)
    with nex ex1 show False by simp
  qed
  obtain h c3 where h: "handleClusterRoleBinding r upd c2 = (h, c3)" by fastforce
  from handleClusterRoleBinding_keeps [OF h] have k3: "keepsNamespaces c2 c3" .
  from k1 k2 k3 have n: "namespaces c1 = namespaces c" "namespaces c2 = namespaces c"
    "namespaces c3 = namespaces c" by (simp_all add: keepsNamespaces_def)
  show ?thesis
    using ci pn h n patchLabels_other [OF notin, of r c3]
    by (auto simp: reconcileRBAC_def split: option.splits)
qed

lemma reconcileRBAC_single_violation:
  assumes "exceedsCeiling r ns c"
  shows "fst (reconcileRBAC r [ns] c) = fst (removeAndUpdateNSFromCI r c)"
proof -
  obtain e c1 where ci: "removeAndUpdateNSFromCI r c = (e, c1)" by fastforce
  from removeAndUpdateNSFromCI_keeps [OF ci] assms have "exceedsCeiling r ns c1"
    by (simp add: exceedsCeiling_keeps)
  from processRBAC_violation [OF this] obtain err c2 where "processRBAC r ns c1 = (Inl err, c2)"
    by (cases "processRBAC r ns c1") auto
  with ci show ?thesis by (auto simp: reconcileRBAC_def split: option.splits)
qed

subsection \<open>Facts about the prerequisites\<close>

lemma keepsObjects_refl [simp]: "keepsObjects c c"
  by (simp add: keepsObjects_def)

lemma keepsObjects_trans:
  "keepsObjects c c1 \<Longrightarrow> keepsObjects c1 c2 \<Longrightarrow> keepsObjects c c2"
  by (simp add: keepsObjects_def)

lemma keepsObjects_primitives:
  "deleteInstallerSet name c = (eres, c') \<Longrightarrow> keepsObjects c c'"
  "checkIfInstallerSetExist release c = (cres, c') \<Longrightarrow> keepsObjects c c'"
  "createInstallerSet release c = (xres, c') \<Longrightarrow> keepsObjects c c'"
  "listNamespacesWithLabel key val c = (lres, c') \<Longrightarrow> keepsObjects c c'"
  "updateNamespace n c = (eres, c') \<Longrightarrow> keepsObjects c c'"
  "VerifySCCExists name c = (xres, c') \<Longrightarrow> keepsObjects c c'"
  "GetSCCRestrictiveList c = (gres, c') \<Longrightarrow> keepsObjects c c'"
  "invoke call c = (b, c') \<Longrightarrow> keepsObjects c c'"
  by (auto simp: deleteInstallerSet_def checkIfInstallerSetExist_def createInstallerSet_def
      listNamespacesWithLabel_def updateNamespace_def VerifySCCExists_def
      GetSCCRestrictiveList_def invoke_def keepsObjects_def split: if_splits)

lemma cleanUp_loop_keepsObjects:
  "cleanUp_loop items c = (res, c') \<Longrightarrow> keepsObjects c c'"
proof (induction items arbitrary: c)
  case Nil
  then show ?case by simp
next
  case (Cons n items)
  obtain e c1 where u: "updateNamespace (clearVersionLabel n) c = (e, c1)" by fastforce
  from keepsObjects_primitives(5) [OF u] have k: "keepsObjects c c1" .
  show ?case
  proof (cases e)
    case None
    with Cons.prems u have "cleanUp_loop items c1 = (res, c')" by simp
    from Cons.IH [OF this] k show ?thesis by (rule keepsObjects_trans [rotated])
  next
    case (Some err)
    with Cons.prems u k show ?thesis by auto
  qed
qed

lemma invoke_keepsObjects [simp]: "keepsObjects c (snd (invoke call c))"
  by (simp add: invoke_def keepsObjects_def)

lemma cleanUp_keepsObjects: "cleanUp r c = (res, c') \<Longrightarrow> keepsObjects c c'"
  by (auto simp: cleanUp_def split: prod.splits sum.splits if_splits
      dest!: keepsObjects_primitives cleanUp_loop_keepsObjects
      intro: keepsObjects_trans)

lemma removeObsolete_keepsObjects:
  "removeObsoleteRBACInstallerSet c = (res, c') \<Longrightarrow> keepsObjects c c'"
  by (auto simp: removeObsoleteRBACInstallerSet_def split: prod.splits option.splits if_splits
      dest!: keepsObjects_primitives)

lemma EnsureRBACInstallerSet_keepsObjects:
  "EnsureRBACInstallerSet r c = (res, c') \<Longrightarrow> keepsObjects c c'"
  by (auto simp: EnsureRBACInstallerSet_def split: prod.splits sum.splits option.splits
      dest!: keepsObjects_primitives cleanUp_keepsObjects removeObsolete_keepsObjects
      intro: keepsObjects_trans)


lemma ensurePipelinesSCClusterRole_nofault:
  assumes "\<forall>k. \<not> faults c k"
  shows "fst (ensurePipelinesSCClusterRole r c) = None"
  using assms
  by (auto simp: ensurePipelinesSCClusterRole_def Let_def getClusterRole_def
      createClusterRoleObject_def updateClusterRole_def invoke_def split: option.splits)

lemma ensurePreRequisites_violation:
  assumes "ceilingTooRestrictive r c"
  shows "fst (ensurePreRequisites r c) \<noteq> None"
    and "keepsObjects c (snd (snd (ensurePreRequisites r c)))"
proof -
  let ?d = "tcSCCDefault (tektonConfig r)" and ?m = "tcSCCMaxAllowed (tektonConfig r)"
  from assms have m: "?m \<noteq> []" and cmp: "SCCAMoreRestrictiveThanB (sccPriority c) ?d ?m = Inr False"
    by (simp_all add: ceilingTooRestrictive_def)
  obtain e c1 where e: "EnsureRBACInstallerSet r c = (e, c1)" by fastforce
  from EnsureRBACInstallerSet_keepsObjects [OF e] have k1: "keepsObjects c c1" .
  have "fst (ensurePreRequisites r c) \<noteq> None \<and> keepsObjects c (snd (snd (ensurePreRequisites r c)))"
  proof (cases e)
    case (Inl err)
    with e k1 show ?thesis by (simp add: ensurePreRequisites_def)
  next
    case (Inr iset)
    obtain v c2 where v: "VerifySCCExists ?d c1 = (v, c2)" by fastforce
    from keepsObjects_primitives(6) [OF v] k1 have k2: "keepsObjects c c2"
      by (rule keepsObjects_trans [rotated])
    obtain g c3 where g: "GetSCCRestrictiveList c2 = (g, c3)" by fastforce
    from keepsObjects_primitives(7) [OF g] k2 have k3: "keepsObjects c c3"
      by (rule keepsObjects_trans [rotated])
    from g k2 have gv: "g = Inl (Api ServerError) \<or> g = Inr (sccPriority c)"
      by (auto simp: GetSCCRestrictiveList_def invoke_def keepsObjects_def split: if_splits)
    obtain w c4 where w: "VerifySCCExists ?m c3 = (w, c4)" by fastforce
    from keepsObjects_primitives(6) [OF w] k3 have k4: "keepsObjects c c4"
      by (rule keepsObjects_trans [rotated])
    from e Inr v g w gv k1 k2 k3 k4 m cmp show ?thesis
      by (auto simp: ensurePreRequisites_def Let_def split: option.splits)
  qed
  then show "fst (ensurePreRequisites r c) \<noteq> None"
    and "keepsObjects c (snd (snd (ensurePreRequisites r c)))" by simp_all
qed

lemma createResources_violation:
  assumes "ceilingTooRestrictive r c"
    and "snd (featureFlags (tcParams (tektonConfig r)) (True, True))"
  shows "fst (createResources r c) \<noteq> None
       \<and> keepsObjects c (snd (snd (createResources r c)))"
proof -
  obtain ca where ff: "featureFlags (tcParams (tektonConfig r)) (True, True) = (ca, True)"
    using assms(2) by (cases "featureFlags (tcParams (tektonConfig r)) (True, True)") auto
  from ensurePreRequisites_violation [OF assms(1)]
  obtain err r1 c1 where p: "ensurePreRequisites r c = (Some err, r1, c1)" and "keepsObjects c c1"
    by (cases "ensurePreRequisites r c") auto
  then show ?thesis by (simp add: createResources_def ff)
qed

lemma ensurePreRequisites_nofault:
  assumes nf: "\<forall>k. \<not> faults c k"
    and iset: "fst (EnsureRBACInstallerSet r c) = Inr rbacISet"
    and d: "tcSCCDefault (tektonConfig r) \<noteq> []"
  shows "ceilingTooRestrictive r c \<Longrightarrow> fst (ensurePreRequisites r c) = Some PolicyViolation"
    and "tcSCCDefault (tektonConfig r) \<in> set (sccPriority c) \<Longrightarrow>
         tcSCCMaxAllowed (tektonConfig r) = []
           \<or> SCCAMoreRestrictiveThanB (sccPriority c) (tcSCCDefault (tektonConfig r))
                (tcSCCMaxAllowed (tektonConfig r)) = Inr True \<Longrightarrow>
         fst (ensurePreRequisites r c) = None"
proof -
  let ?d = "tcSCCDefault (tektonConfig r)" and ?m = "tcSCCMaxAllowed (tektonConfig r)"
  obtain c1 where e: "EnsureRBACInstallerSet r c = (Inr rbacISet, c1)"
    using iset by (cases "EnsureRBACInstallerSet r c") auto
  from EnsureRBACInstallerSet_keepsObjects [OF e] nf
  have f1: "\<forall>k. \<not> faults c1 k" and p1: "sccPriority c1 = sccPriority c"
    by (simp_all add: keepsObjects_def)
  let ?r1 = "r\<lparr>ownerRef := isOwnerRef rbacISet\<rparr>"
  have cr: "fst (ensurePipelinesSCClusterRole ?r1 c') = None" if "\<forall>k. \<not> faults c' k" for c'
    using that by (rule ensurePipelinesSCClusterRole_nofault)
  show "fst (ensurePreRequisites r c) = Some PolicyViolation" if "ceilingTooRestrictive r c"
  proof -
    from that have m: "?m \<noteq> []" and cmp: "SCCAMoreRestrictiveThanB (sccPriority c) ?d ?m = Inr False"
      by (simp_all add: ceilingTooRestrictive_def)
    from cmp have "?d \<in> set (sccPriority c)" "?m \<in> set (sccPriority c)"
      by (auto simp: SCCAMoreRestrictiveThanB_def split: if_splits)
    with e f1 p1 d m cmp show ?thesis
      by (simp add: ensurePreRequisites_def Let_def VerifySCCExists_def GetSCCRestrictiveList_def
          invoke_def)
  qed
  show "fst (ensurePreRequisites r c) = None"
    if din: "?d \<in> set (sccPriority c)"
      and ok: "?m = [] \<or> SCCAMoreRestrictiveThanB (sccPriority c) ?d ?m = Inr True"
  proof -
    let ?c2 = "c1\<lparr>calls := calls c1 @ [Call Get SecurityContextConstraints [] ?d]\<rparr>"
    let ?c3 = "?c2\<lparr>calls := calls ?c2 @ [Call List SecurityContextConstraints [] []]\<rparr>"
    let ?c4 = "?c3\<lparr>calls := calls ?c3 @ [Call Get SecurityContextConstraints [] ?m]\<rparr>"
    have v: "VerifySCCExists ?d c1 = (None, ?c2)"
      using f1 p1 din by (simp add: VerifySCCExists_def invoke_def)
    have g: "GetSCCRestrictiveList ?c2 = (Inr (sccPriority c), ?c3)"
      using f1 p1 by (simp add: GetSCCRestrictiveList_def invoke_def)
    from f1 have f3: "\<forall>k. \<not> faults ?c3 k" and f4: "\<forall>k. \<not> faults ?c4 k" by simp_all
    obtain c5 where cr3: "ensurePipelinesSCClusterRole ?r1 ?c3 = (None, c5)"
      using cr [OF f3] by (cases "ensurePipelinesSCClusterRole ?r1 ?c3") auto
    obtain c6 where cr4: "ensurePipelinesSCClusterRole ?r1 ?c4 = (None, c6)"
      using cr [OF f4] by (cases "ensurePipelinesSCClusterRole ?r1 ?c4") auto
    show ?thesis
    proof (cases "?m = []")
      case True
      with e d v g cr3 show ?thesis by (simp add: ensurePreRequisites_def Let_def)
    next
      case False
      with ok have cmp: "SCCAMoreRestrictiveThanB (sccPriority c) ?d ?m = Inr True" by simp
      then have "?m \<in> set (sccPriority c)"
        by (auto simp: SCCAMoreRestrictiveThanB_def split: if_splits)
      with f1 p1 have w: "VerifySCCExists ?m ?c3 = (None, ?c4)"
        by (simp add: VerifySCCExists_def invoke_def)
      from e d v g w cr4 False cmp show ?thesis by (simp add: ensurePreRequisites_def Let_def)
    qed
  qed
qed

lemma readyCluster_installerSet:
  "fst (EnsureRBACInstallerSet (ceilingRbac m) (readyCluster [])) = Inr (newInstallerSet ''v1'')"
proof -
  have nf: "\<forall>k. \<not> faults (readyCluster []) k"
    by (simp add: readyCluster_def freshCluster_def emptyCluster_def)
  have v: "validLabelValue (version (ceilingRbac m))"
    using example_version_valid by (simp add: ceilingRbac_def)
  have d: "distinct (map nsName (namespaces (readyCluster [])))"
    by (simp add: readyCluster_def freshCluster_def emptyCluster_def)
  have f: "find (\<lambda>s. isVersion s = version (ceilingRbac m))
             (filter (\<lambda>s. isName s \<noteq> rbacInstallerSetNameOld) (installerSets (readyCluster [])))
           = Some (newInstallerSet ''v1'')"
    by (simp add: readyCluster_def freshCluster_def emptyCluster_def ceilingRbac_def exampleRbac_def
        newInstallerSet_def rbacInstallerSetNameOld_def rbacInstallerSetNamePrefix_def)
  from EnsureRBACInstallerSet_nofault(2) [OF nf v d f] show ?thesis by simp
qed

subsection \<open>A pass over objects that are already correct\<close>








lemma needsRBACCheck_reconciled:
  assumes "\<forall>k. \<not> faults c k"
    and "lookupStr (nsAnnotations ns) NamespaceSCCAnnotation = []"
    and "lookupStr (nsLabels ns) namespaceVersionLabel = version r"
    and "roleBindings c (nsName ns, pipelinesSCCRoleBinding) = Some rb"
    and "rrKind (rbRoleRef rb) = ''ClusterRole''"
  shows "fst (needsRBACCheck r ns c) = Inr False"
  using assms by (simp add: needsRBACCheck_def Let_def getRoleBinding_def invoke_def)


subsection \<open>More facts about the service account\<close>

lemma createSA_exists_result:
  assumes "serviceAccounts c (n, pipelineSA) = Some sa0" and "\<not> faults c (length (calls c))"
  shows "fst (createSA n tc c) = Inr \<lparr>saName = [], saNamespace = [], saOwnerReferences = []\<rparr>"
  using assms
  by (simp add: createSA_def createServiceAccount_def invoke_def Let_def)

subsection \<open>What the prerequisites touch\<close>

lemma onlyBookkeeping_refl [simp]: "onlyBookkeeping c c"
  by (simp add: onlyBookkeeping_def)

lemma onlyBookkeeping_trans:
  "onlyBookkeeping c c1 \<Longrightarrow> onlyBookkeeping c1 c2 \<Longrightarrow> onlyBookkeeping c c2"
  by (cases c, cases c1, cases c2) (simp add: onlyBookkeeping_def)

lemma onlyBookkeeping_primitives:
  "deleteInstallerSet name c = (eres, c') \<Longrightarrow> onlyBookkeeping c c'"
  "checkIfInstallerSetExist release c = (cres, c') \<Longrightarrow> onlyBookkeeping c c'"
  "VerifySCCExists name c = (xres, c') \<Longrightarrow> onlyBookkeeping c c'"
  "GetSCCRestrictiveList c = (gres, c') \<Longrightarrow> onlyBookkeeping c c'"
  by (auto simp: deleteInstallerSet_def checkIfInstallerSetExist_def VerifySCCExists_def
      GetSCCRestrictiveList_def invoke_def onlyBookkeeping_def split: if_splits)

lemma removeObsolete_onlyBookkeeping:
  "removeObsoleteRBACInstallerSet c = (res, c') \<Longrightarrow> onlyBookkeeping c c'"
  by (auto simp: removeObsoleteRBACInstallerSet_def split: prod.splits option.splits if_splits
      dest!: onlyBookkeeping_primitives)

lemma EnsureRBACInstallerSet_found_frame:
  assumes "EnsureRBACInstallerSet r c = (Inr iset, c')"
  shows "onlyBookkeeping c c'"
proof -
  obtain e c1 where ro: "removeObsoleteRBACInstallerSet c = (e, c1)" by fastforce
  from removeObsolete_onlyBookkeeping [OF ro] have k1: "onlyBookkeeping c c1" .
  obtain f c2 where ch: "checkIfInstallerSetExist (version r) c1 = (f, c2)" by fastforce
  from onlyBookkeeping_primitives(2) [OF ch] have k2: "onlyBookkeeping c1 c2" .
  from assms ro ch have "c' = c2"
    by (auto simp: EnsureRBACInstallerSet_def split: option.splits sum.splits prod.splits)
  with k1 k2 show ?thesis by (auto intro: onlyBookkeeping_trans)
qed

lemma ensurePreRequisites_gate:
  assumes "fst (EnsureRBACInstallerSet r c) = Inl err"
  shows "ensurePreRequisites r c = (Some err, r, snd (EnsureRBACInstallerSet r c))"
  using assms by (cases "EnsureRBACInstallerSet r c") (simp add: ensurePreRequisites_def)

lemma ensurePreRequisites_violation_frame:
  assumes bad: "ceilingTooRestrictive r c"
    and iset: "fst (EnsureRBACInstallerSet r c) = Inr rbacISet"
  shows "onlyBookkeeping c (snd (snd (ensurePreRequisites r c)))"
proof -
  let ?d = "tcSCCDefault (tektonConfig r)" and ?m = "tcSCCMaxAllowed (tektonConfig r)"
  from bad have m: "?m \<noteq> []" and cmp: "SCCAMoreRestrictiveThanB (sccPriority c) ?d ?m = Inr False"
    by (simp_all add: ceilingTooRestrictive_def)
  obtain c1 where e: "EnsureRBACInstallerSet r c = (Inr rbacISet, c1)"
    using iset by (cases "EnsureRBACInstallerSet r c") auto
  from EnsureRBACInstallerSet_found_frame [OF e] have k1: "onlyBookkeeping c c1" .
  obtain v c2 where v: "VerifySCCExists ?d c1 = (v, c2)" by fastforce
  from onlyBookkeeping_primitives(3) [OF v] k1 have k2: "onlyBookkeeping c c2"
    by (rule onlyBookkeeping_trans [rotated])
  obtain g c3 where g: "GetSCCRestrictiveList c2 = (g, c3)" by fastforce
  from onlyBookkeeping_primitives(4) [OF g] k2 have k3: "onlyBookkeeping c c3"
    by (rule onlyBookkeeping_trans [rotated])
  from k2 have "sccPriority c2 = sccPriority c"
    by (cases c, cases c2) (simp add: onlyBookkeeping_def)
  with g have gv: "g = Inl (Api ServerError) \<or> g = Inr (sccPriority c)"
    by (auto simp: GetSCCRestrictiveList_def invoke_def split: if_splits)
  obtain w c4 where w: "VerifySCCExists ?m c3 = (w, c4)" by fastforce
  from onlyBookkeeping_primitives(3) [OF w] k3 have k4: "onlyBookkeeping c c4"
    by (rule onlyBookkeeping_trans [rotated])
  from e v g w gv k1 k2 k3 k4 m cmp show ?thesis
    by (auto simp: ensurePreRequisites_def Let_def split: option.splits)
qed

lemma createResources_violation_eq:
  assumes "ceilingTooRestrictive r c"
    and "snd (featureFlags (tcParams (tektonConfig r)) (True, True))"
  shows "createResources r c = ensurePreRequisites r c"
proof -
  obtain ca where ff: "featureFlags (tcParams (tektonConfig r)) (True, True) = (ca, True)"
    using assms(2) by (cases "featureFlags (tcParams (tektonConfig r)) (True, True)") auto
  from ensurePreRequisites_violation(1) [OF assms(1)]
  obtain err r1 c1 where p: "ensurePreRequisites r c = (Some err, r1, c1)"
    by (cases "ensurePreRequisites r c") auto
  then show ?thesis by (simp add: createResources_def ff)
qed

lemma removeObsolete_exact:
  assumes "\<forall>k. \<not> faults c k"
  shows "removeObsoleteRBACInstallerSet c
    = (None, c\<lparr>installerSets := filter (\<lambda>s. isName s \<noteq> rbacInstallerSetNameOld) (installerSets c),
               calls := calls c @ [Call Delete TektonInstallerSets [] rbacInstallerSetNameOld]\<rparr>)"
proof -
  have id: "filter (\<lambda>s. isName s \<noteq> rbacInstallerSetNameOld) (installerSets c) = installerSets c"
    if "rbacInstallerSetNameOld \<notin> isName ` set (installerSets c)"
    using that by (force simp: filter_id_conv)
  show ?thesis
    using assms id
    by (simp add: removeObsoleteRBACInstallerSet_def deleteInstallerSet_def invoke_def)
qed

lemma EnsureRBACInstallerSet_found_exact:
  assumes nf: "\<forall>k. \<not> faults c k"
    and iset: "fst (EnsureRBACInstallerSet r c) = Inr rbacISet"
  shows "EnsureRBACInstallerSet r c
    = (Inr rbacISet,
       c\<lparr>installerSets := filter (\<lambda>s. isName s \<noteq> rbacInstallerSetNameOld) (installerSets c),
         calls := calls c @ [Call Delete TektonInstallerSets [] rbacInstallerSetNameOld,
                             Call List TektonInstallerSets [] (version r)]\<rparr>)"
proof -
  let ?c1 = "c\<lparr>installerSets := filter (\<lambda>s. isName s \<noteq> rbacInstallerSetNameOld) (installerSets c),
               calls := calls c @ [Call Delete TektonInstallerSets [] rbacInstallerSetNameOld]\<rparr>"
  let ?c2 = "?c1\<lparr>calls := calls ?c1 @ [Call List TektonInstallerSets [] (version r)]\<rparr>"
  note ro = removeObsolete_exact [OF nf]
  have chk: "checkIfInstallerSetExist (version r) ?c1
      = (Inr (find (\<lambda>s. isVersion s = version r) (installerSets ?c1)), ?c2)"
    using nf by (simp add: checkIfInstallerSetExist_def invoke_def)
  show ?thesis
  proof (cases "find (\<lambda>s. isVersion s = version r) (installerSets ?c1)")
    case None
    with iset ro chk show ?thesis
      by (auto simp: EnsureRBACInstallerSet_def split: prod.splits option.splits)
  next
    case (Some found)
    with iset ro chk show ?thesis
      by (simp add: EnsureRBACInstallerSet_def)
  qed
qed

lemma ensurePreRequisites_violation_exact:
  assumes nf: "\<forall>k. \<not> faults c k"
    and iset: "fst (EnsureRBACInstallerSet r c) = Inr rbacISet"
    and d: "tcSCCDefault (tektonConfig r) \<noteq> []"
    and bad: "ceilingTooRestrictive r c"
  shows "ensurePreRequisites r c
    = (Some PolicyViolation, r\<lparr>ownerRef := isOwnerRef rbacISet\<rparr>,
       c\<lparr>installerSets := filter (\<lambda>s. isName s \<noteq> rbacInstallerSetNameOld) (installerSets c),
         calls := calls c @ [Call Delete TektonInstallerSets [] rbacInstallerSetNameOld,
                             Call List TektonInstallerSets [] (version r),
                             Call Get SecurityContextConstraints [] (tcSCCDefault (tektonConfig r)),
                             Call List SecurityContextConstraints [] [],
                             Call Get SecurityContextConstraints []
                               (tcSCCMaxAllowed (tektonConfig r))]\<rparr>)"
proof -
  let ?d = "tcSCCDefault (tektonConfig r)" and ?m = "tcSCCMaxAllowed (tektonConfig r)"
  from bad have m: "?m \<noteq> []" and cmp: "SCCAMoreRestrictiveThanB (sccPriority c) ?d ?m = Inr False"
    by (simp_all add: ceilingTooRestrictive_def)
  from cmp have din: "?d \<in> set (sccPriority c)" and min: "?m \<in> set (sccPriority c)"
    by (auto simp: SCCAMoreRestrictiveThanB_def split: if_splits)
  note e = EnsureRBACInstallerSet_found_exact [OF nf iset]
  from nf d m cmp din min show ?thesis
    by (simp add: ensurePreRequisites_def e Let_def VerifySCCExists_def GetSCCRestrictiveList_def
        invoke_def)
qed

lemma readyCluster_installerSet_any:
  assumes "distinct (map nsName nss)"
  shows "fst (EnsureRBACInstallerSet (ceilingRbac m) (readyCluster nss)) = Inr (newInstallerSet ''v1'')"
proof -
  have nf: "\<forall>k. \<not> faults (readyCluster nss) k"
    by (simp add: readyCluster_def freshCluster_def emptyCluster_def)
  have v: "validLabelValue (version (ceilingRbac m))"
    using example_version_valid by (simp add: ceilingRbac_def)
  have d: "distinct (map nsName (namespaces (readyCluster nss)))"
    using assms by (simp add: readyCluster_def freshCluster_def emptyCluster_def)
  have f: "find (\<lambda>s. isVersion s = version (ceilingRbac m))
             (filter (\<lambda>s. isName s \<noteq> rbacInstallerSetNameOld) (installerSets (readyCluster nss)))
           = Some (newInstallerSet ''v1'')"
    by (simp add: readyCluster_def freshCluster_def emptyCluster_def ceilingRbac_def exampleRbac_def
        newInstallerSet_def rbacInstallerSetNameOld_def rbacInstallerSetNamePrefix_def)
  from EnsureRBACInstallerSet_nofault(2) [OF nf v d f] show ?thesis by simp
qed

subsection \<open>The loop over the batch and the stamping of the labels\<close>

lemma processNamespaces_append:
  "processNamespaces r (xs @ ys) acc c
     = processNamespaces r ys (fst (processNamespaces r xs acc c)) (snd (processNamespaces r xs acc c))"
proof (induction xs arbitrary: acc c)
  case Nil
  then show ?case by simp
next
  case (Cons x xs)
  obtain y c1 where p: "processRBAC r x c = (y, c1)" by fastforce
  show ?case using p Cons.IH by (cases y) simp_all
qed

lemma processNamespaces_keeps':
  "keepsNamespaces c (snd (processNamespaces r nss acc c))"
  using processNamespaces_keeps [of r nss acc c] by (cases "processNamespaces r nss acc c") simp

lemma processNamespaces_skip_at:
  assumes "exceedsCeiling r ns c"
  shows "processNamespaces r (pre @ ns # rest) acc c
           = processNamespaces r rest (fst (processNamespaces r pre acc c))
               (snd (processRBAC r ns (snd (processNamespaces r pre acc c))))"
proof -
  from assms processNamespaces_keeps' [of c r pre acc]
  have "exceedsCeiling r ns (snd (processNamespaces r pre acc c))"
    by (simp add: exceedsCeiling_keeps)
  from processNamespaces_skip [OF this] show ?thesis
    by (simp add: processNamespaces_append)
qed

lemma processNamespaces_prefix:
  "prefix acc (fst (processNamespaces r nss acc c))"
proof (induction nss arbitrary: acc c)
  case Nil
  then show ?case by simp
next
  case (Cons x xs)
  obtain y c1 where p: "processRBAC r x c = (y, c1)" by fastforce
  show ?case
  proof (cases y)
    case (Inl err)
    with p Cons.IH [of acc c1] show ?thesis by simp
  next
    case (Inr nsSA)
    from Cons.IH [of "acc @ [nsSA]" c1] have "prefix acc (fst (processNamespaces r xs (acc @ [nsSA]) c1))"
      by (rule append_prefixD)
    with p Inr show ?thesis by simp
  qed
qed

lemma processNamespaces_collects:
  assumes "\<not> isl (fst (processRBAC r m (snd (processNamespaces r before [] c))))"
  shows "m \<in> nssaNamespace ` set (fst (processNamespaces r (before @ m # after) [] c))"
proof -
  let ?acc = "fst (processNamespaces r before [] c)" and ?c1 = "snd (processNamespaces r before [] c)"
  obtain y c2 where p: "processRBAC r m ?c1 = (y, c2)" by fastforce
  with assms obtain nsSA where y: "y = Inr nsSA" by (cases y) auto
  from p y have nm: "nssaNamespace nsSA = m" by (simp add: processRBAC_namespace)
  have "processNamespaces r (before @ m # after) [] c = processNamespaces r after (?acc @ [nsSA]) c2"
    using p y by (simp add: processNamespaces_append)
  moreover have "prefix (?acc @ [nsSA]) (fst (processNamespaces r after (?acc @ [nsSA]) c2))"
    by (rule processNamespaces_prefix)
  ultimately have "prefix (?acc @ [nsSA]) (fst (processNamespaces r (before @ m # after) [] c))"
    by simp
  then have "set (?acc @ [nsSA]) \<subseteq> set (fst (processNamespaces r (before @ m # after) [] c))"
    by (rule set_mono_prefix)
  then have "nsSA \<in> set (fst (processNamespaces r (before @ m # after) [] c))"
    by simp
  with nm show ?thesis by force
qed

lemma reconcileRBAC_error:
  "fst (reconcileRBAC r nss c)
     = (case fst (removeAndUpdateNSFromCI r c) of
          Some err \<Rightarrow> Some err
        | None \<Rightarrow>
            (case processNamespaces r nss [] (snd (removeAndUpdateNSFromCI r c)) of
               (namespacesToUpdate, c2) \<Rightarrow>
                 if namespacesToUpdate = [] then None
                 else fst (handleClusterRoleBinding r namespacesToUpdate c2)))"
proof -
  obtain e c1 where ci: "removeAndUpdateNSFromCI r c = (e, c1)" by fastforce
  obtain upd c2 where pn: "processNamespaces r nss [] c1 = (upd, c2)" by fastforce
  obtain res c3 where hc: "handleClusterRoleBinding r upd c2 = (res, c3)" by fastforce
  show ?thesis
    by (cases e; cases res; cases "upd = []") (simp_all add: reconcileRBAC_def ci pn hc)
qed

lemma stamped_empty [simp]: "stamped {} val labels = labels"
  by (induction labels) (auto simp: stamped_def)

lemma stamped_stamped:
  "stamped B val (stamped A val labels) = stamped (A \<union> B) val labels"
  by (induction labels) (auto simp: stamped_def)

lemma patchNamespace_namespaces:
  "namespaces (snd (patchNamespace name key val c)) =
     (if faults c (length (calls c)) \<or> name \<notin> nsName ` set (namespaces c) then namespaces c
      else map (\<lambda>m. if nsName m = name then m\<lparr>nsLabels := (nsLabels m)(key \<mapsto> val)\<rparr> else m)
             (namespaces c))"
  by (simp add: patchNamespace_def invoke_def)

lemma labels_patched:
  "map (\<lambda>n. (nsName n, nsLabels n key))
     (map (\<lambda>m. if nsName m = name then m\<lparr>nsLabels := (nsLabels m)(key \<mapsto> val)\<rparr> else m) nss)
   = stamped {name} val (map (\<lambda>n. (nsName n, nsLabels n key)) nss)"
  by (induction nss) (auto simp: stamped_def)

lemma labels_not_patched:
  "name \<notin> nsName ` set nss \<Longrightarrow>
   stamped {name} val (map (\<lambda>n. (nsName n, nsLabels n key)) nss)
     = map (\<lambda>n. (nsName n, nsLabels n key)) nss"
  by (induction nss) (auto simp: stamped_def)

lemma labels_otherKey:
  "key \<noteq> key' \<Longrightarrow>
   map (\<lambda>n. (nsName n, nsLabels n key'))
     (map (\<lambda>m. if nsName m = name then m\<lparr>nsLabels := (nsLabels m)(key \<mapsto> val)\<rparr> else m) nss)
   = map (\<lambda>n. (nsName n, nsLabels n key')) nss"
  by (induction nss) auto

lemma patchNamespace_labels:
  assumes "\<not> faults c (length (calls c))"
  shows "labelsOf key (snd (patchNamespace name key val c)) = stamped {name} val (labelsOf key c)"
proof (cases "name \<in> nsName ` set (namespaces c)")
  case True
  with assms show ?thesis
    unfolding labelsOf_def patchNamespace_namespaces by (simp only: labels_patched simp_thms if_False)
next
  case False
  with assms show ?thesis
    unfolding labelsOf_def patchNamespace_namespaces
    by (simp only: labels_not_patched simp_thms if_True not_False_eq_True)
qed

lemma patchNamespace_faults:
  "faults (snd (patchNamespace name key val c)) = faults c"
  "length (calls (snd (patchNamespace name key val c))) = Suc (length (calls c))"
  by (simp_all add: patchNamespace_def invoke_def)

lemma patchNamespace_otherKey:
  assumes "key \<noteq> key'"
  shows "labelsOf key' (snd (patchNamespace name key val c)) = labelsOf key' c"
  unfolding labelsOf_def patchNamespace_namespaces
  using labels_otherKey [OF assms, of name val "namespaces c"]
  by (cases "faults c (length (calls c)) \<or> name \<notin> nsName ` set (namespaces c)")
    (simp_all only: if_True if_False)

lemma snd_patchNamespaceLabel:
  "snd (patchNamespaceLabel r ns c) = snd (patchNamespace (nsName ns) namespaceVersionLabel (version r) c)"
  by (simp add: patchNamespaceLabel_def split: prod.splits option.splits)

lemma snd_patchNamespaceTrustedConfigLabel:
  "snd (patchNamespaceTrustedConfigLabel r ns c)
     = snd (patchNamespace (nsName ns) namespaceTrustedConfigLabel (version r) c)"
  by (simp add: patchNamespaceTrustedConfigLabel_def split: prod.splits option.splits)

lemma patchLabels_labels:
  assumes "\<forall>k. \<not> faults c k"
  shows "labelsOf namespaceVersionLabel (patchLabels r upd c)
           = stamped (nsName ` nssaNamespace ` set upd) (version r) (labelsOf namespaceVersionLabel c)"
  using assms
proof (induction upd arbitrary: c)
  case Nil
  then show ?case by simp
next
  case (Cons x upd)
  let ?c1 = "snd (patchNamespace (nsName (nssaNamespace x)) namespaceVersionLabel (version r) c)"
  from Cons.prems have nf1: "\<forall>k. \<not> faults ?c1 k" by (simp add: patchNamespace_faults)
  from Cons.prems have l1: "labelsOf namespaceVersionLabel ?c1
      = stamped {nsName (nssaNamespace x)} (version r) (labelsOf namespaceVersionLabel c)"
    by (simp add: patchNamespace_labels)
  have p: "patchLabels r (x # upd) c = patchLabels r upd ?c1"
    by (simp add: snd_patchNamespaceLabel)
  have u: "nsName ` nssaNamespace ` set (x # upd)
      = {nsName (nssaNamespace x)} \<union> nsName ` nssaNamespace ` set upd" by simp
  show ?case
    unfolding p u Cons.IH [OF nf1] l1 stamped_stamped ..
qed

lemma reconcileRBAC_labels:
  assumes nf: "\<forall>k. \<not> faults c k" and ok: "fst (reconcileRBAC r nss c) = None"
  shows "labelsOf namespaceVersionLabel (snd (reconcileRBAC r nss c))
           = stamped (nsName ` nssaNamespace `
                 set (fst (processNamespaces r nss [] (snd (removeAndUpdateNSFromCI r c)))))
               (version r) (labelsOf namespaceVersionLabel c)"
proof -
  obtain e c1 where ci: "removeAndUpdateNSFromCI r c = (e, c1)" by fastforce
  from removeAndUpdateNSFromCI_keeps [OF ci] have k1: "keepsNamespaces c c1" .
  obtain upd c2 where pn: "processNamespaces r nss [] c1 = (upd, c2)" by fastforce
  from processNamespaces_keeps [OF pn] have k2: "keepsNamespaces c1 c2" .
  obtain res c3 where hc: "handleClusterRoleBinding r upd c2 = (res, c3)" by fastforce
  from handleClusterRoleBinding_keeps [OF hc] have k3: "keepsNamespaces c2 c3" .
  from k1 k2 k3 have n2: "namespaces c2 = namespaces c" and n3: "namespaces c3 = namespaces c"
    and f3: "faults c3 = faults c" by (simp_all add: keepsNamespaces_def)
  from ok ci have e: "e = None" by (cases e) (simp_all add: reconcileRBAC_def)
  show ?thesis
  proof (cases "upd = []")
    case True
    with ci pn e n2 show ?thesis by (simp add: reconcileRBAC_def labelsOf_def)
  next
    case False
    with ok ci pn hc e have res: "res = None" by (cases res) (simp_all add: reconcileRBAC_def)
    from nf f3 have "\<forall>k. \<not> faults c3 k" by simp
    from patchLabels_labels [OF this, of r upd] n3 False ci pn hc e res show ?thesis
      by (simp add: reconcileRBAC_def labelsOf_def)
  qed
qed

subsection \<open>What a whole pass does to the namespaces\<close>

lemma keeps_more_primitives:
  "listNamespaces c = (lres, c') \<Longrightarrow> keepsNamespaces c c'"
  "getConfigMap ns name c = (gres, c') \<Longrightarrow> keepsNamespaces c c'"
  "createConfigMap ns cm c = (gres, c') \<Longrightarrow> keepsNamespaces c c'"
  "updateConfigMap ns cm c = (eres, c') \<Longrightarrow> keepsNamespaces c c'"
  by (auto simp: listNamespaces_def getConfigMap_def createConfigMap_def updateConfigMap_def
      invoke_def keepsNamespaces_def split: if_splits option.splits)

lemma ensurePipelinesSCClusterRole_keeps:
  "ensurePipelinesSCClusterRole r c = (res, c') \<Longrightarrow> keepsNamespaces c c'"
  by (auto simp: ensurePipelinesSCClusterRole_def Let_def
      split: prod.splits sum.splits option.splits if_splits
      dest!: keeps_primitives intro: keepsNamespaces_trans)

lemma onlyBookkeeping_keepsNamespaces:
  "onlyBookkeeping c c' \<Longrightarrow> faults c' = faults c \<Longrightarrow> keepsNamespaces c c'"
  by (cases c, cases c') (simp add: onlyBookkeeping_def keepsNamespaces_def)

lemma onlyBookkeeping_faults: "onlyBookkeeping c c' \<Longrightarrow> faults c' = faults c"
  by (cases c, cases c') (simp add: onlyBookkeeping_def)

lemma ensurePreRequisites_rbac:
  "tektonConfig (fst (snd (ensurePreRequisites r c))) = tektonConfig r
   \<and> version (fst (snd (ensurePreRequisites r c))) = version r"
  by (auto simp: ensurePreRequisites_def Let_def split: prod.splits sum.splits option.splits)

lemma ensurePreRequisites_keepsNamespaces:
  assumes iset: "fst (EnsureRBACInstallerSet r c) = Inr rbacISet"
  shows "keepsNamespaces c (snd (snd (ensurePreRequisites r c)))"
proof -
  let ?r1 = "r\<lparr>ownerRef := isOwnerRef rbacISet\<rparr>"
  let ?d = "tcSCCDefault (tektonConfig r)" and ?m = "tcSCCMaxAllowed (tektonConfig r)"
  obtain c1 where e: "EnsureRBACInstallerSet r c = (Inr rbacISet, c1)"
    using iset by (cases "EnsureRBACInstallerSet r c") auto
  from EnsureRBACInstallerSet_found_frame [OF e]
  have k1: "keepsNamespaces c c1"
    by (simp add: onlyBookkeeping_keepsNamespaces onlyBookkeeping_faults)
  obtain v c2 where v: "VerifySCCExists ?d c1 = (v, c2)" by fastforce
  from keeps_primitives(21) [OF v] k1 have k2: "keepsNamespaces c c2"
    by (rule keepsNamespaces_trans [rotated])
  obtain g c3 where g: "GetSCCRestrictiveList c2 = (g, c3)" by fastforce
  from keeps_primitives(22) [OF g] k2 have k3: "keepsNamespaces c c3"
    by (rule keepsNamespaces_trans [rotated])
  obtain w c4 where w: "VerifySCCExists ?m c3 = (w, c4)" by fastforce
  from keeps_primitives(21) [OF w] k3 have k4: "keepsNamespaces c c4"
    by (rule keepsNamespaces_trans [rotated])
  obtain p3 c5 where p3: "ensurePipelinesSCClusterRole ?r1 c3 = (p3, c5)" by fastforce
  from ensurePipelinesSCClusterRole_keeps [OF p3] k3 have k5: "keepsNamespaces c c5"
    by (rule keepsNamespaces_trans [rotated])
  obtain p4 c6 where p4: "ensurePipelinesSCClusterRole ?r1 c4 = (p4, c6)" by fastforce
  from ensurePipelinesSCClusterRole_keeps [OF p4] k4 have k6: "keepsNamespaces c c6"
    by (rule keepsNamespaces_trans [rotated])
  from e v g w p3 p4 k1 k2 k3 k4 k5 k6 show ?thesis
    by (auto simp: ensurePreRequisites_def Let_def split: option.splits sum.splits)
qed

lemma needsRBACCheck_keeps:
  "needsRBACCheck r ns c = (res, c') \<Longrightarrow> keepsNamespaces c c'"
  by (auto simp: needsRBACCheck_def Let_def split: prod.splits sum.splits if_splits
      dest!: keeps_primitives)

lemma selectNamespaces_keeps:
  "selectNamespaces r items acc c = (res, c') \<Longrightarrow> keepsNamespaces c c'"
proof (induction items arbitrary: acc c)
  case Nil
  then show ?case by simp
next
  case (Cons ns items)
  show ?case
  proof (cases "nsRegexMatch (nsName ns) \<or> nsDeletionTimestamp ns \<noteq> None")
    case True
    with Cons.prems have "selectNamespaces r items acc c = (res, c')"
      by (cases "nsRegexMatch (nsName ns)") simp_all
    then show ?thesis by (rule Cons.IH)
  next
    case False
    obtain n c1 where nc: "needsRBACCheck r ns c = (n, c1)" by fastforce
    from needsRBACCheck_keeps [OF nc] have k1: "keepsNamespaces c c1" .
    show ?thesis
    proof (cases n)
      case (Inl err)
      with False nc Cons.prems k1 show ?thesis by auto
    next
      case (Inr b)
      with False nc Cons.prems obtain acc' where "selectNamespaces r items acc' c1 = (res, c')"
        by (auto simp: Let_def)
      from Cons.IH [OF this] k1 show ?thesis by (rule keepsNamespaces_trans [rotated])
    qed
  qed
qed

lemma selectNamespaces_subset:
  "selectNamespaces r items acc c = (Inr out, c') \<Longrightarrow>
   set (RBACNamespaces out) \<subseteq> set (RBACNamespaces acc) \<union> set items
   \<and> set (CANamespaces out) \<subseteq> set (CANamespaces acc) \<union> set items"
proof (induction items arbitrary: acc c)
  case Nil
  then show ?case by simp
next
  case (Cons ns items)
  show ?case
  proof (cases "nsRegexMatch (nsName ns) \<or> nsDeletionTimestamp ns \<noteq> None")
    case True
    with Cons.prems have "selectNamespaces r items acc c = (Inr out, c')"
      by (cases "nsRegexMatch (nsName ns)") simp_all
    from Cons.IH [OF this] show ?thesis by auto
  next
    case False
    obtain n c1 where nc: "needsRBACCheck r ns c = (n, c1)" by fastforce
    show ?thesis
    proof (cases n)
      case (Inl err)
      with False nc Cons.prems show ?thesis by auto
    next
      case (Inr b)
      let ?acc1 = "if b then acc\<lparr>RBACNamespaces := RBACNamespaces acc @ [ns]\<rparr> else acc"
      let ?acc2 = "if lookupStr (nsLabels ns) namespaceTrustedConfigLabel \<noteq> version r
                   then ?acc1\<lparr>CANamespaces := CANamespaces ?acc1 @ [ns]\<rparr> else ?acc1"
      from False nc Inr Cons.prems have "selectNamespaces r items ?acc2 c1 = (Inr out, c')"
        by (simp add: Let_def)
      from Cons.IH [OF this] show ?thesis by (auto split: if_splits)
    qed
  qed
qed

lemma getNamespacesToBeReconciled_keeps:
  "getNamespacesToBeReconciled r c = (res, c') \<Longrightarrow> keepsNamespaces c c'"
  by (auto simp: getNamespacesToBeReconciled_def split: prod.splits sum.splits
      dest!: keeps_more_primitives selectNamespaces_keeps intro: keepsNamespaces_trans)

lemma getNamespacesToBeReconciled_subset:
  assumes "getNamespacesToBeReconciled r c = (Inr out, c')"
  shows "set (RBACNamespaces out) \<subseteq> set (namespaces c)"
proof -
  obtain l c1 where l: "listNamespaces c = (l, c1)" by fastforce
  with assms obtain items where i: "l = Inr items" and
    s: "selectNamespaces r items \<lparr>RBACNamespaces = [], CANamespaces = []\<rparr> c1 = (Inr out, c')"
    by (cases l) (auto simp: getNamespacesToBeReconciled_def)
  from l i have "items = namespaces c"
    by (auto simp: listNamespaces_def invoke_def split: if_splits)
  with selectNamespaces_subset [OF s] show ?thesis by simp
qed

lemma ensureCABundle_keeps:
  assumes "\<And>name ns c res c'. create name ns c = (res, c') \<Longrightarrow> keepsNamespaces c c'"
    and "ensureCABundle create name ns c = (res, c')"
  shows "keepsNamespaces c c'"
proof -
  obtain g c1 where g: "getConfigMap (nsName ns) name c = (g, c1)" by fastforce
  from keeps_more_primitives(2) [OF g] have k1: "keepsNamespaces c c1" .
  show ?thesis
  proof (cases g)
    case (Inl err)
    show ?thesis
    proof (cases "IsNotFound err")
      case True
      with g Inl assms(2) have "create name (nsName ns) c1 = (res, c')"
        by (simp add: ensureCABundle_def)
      from assms(1) [OF this] k1 show ?thesis by (rule keepsNamespaces_trans [rotated])
    next
      case False
      with g Inl assms(2) k1 show ?thesis by (auto simp: ensureCABundle_def)
    qed
  next
    case (Inr cm)
    obtain u c2 where u: "updateConfigMap (nsName ns) (cm\<lparr>cmOwnerReferences := []\<rparr>) c1 = (u, c2)"
      by fastforce
    from keeps_more_primitives(4) [OF u] k1 have "keepsNamespaces c c2"
      by (rule keepsNamespaces_trans [rotated])
    with g Inr u assms(2) show ?thesis
      by (auto simp: ensureCABundle_def split: option.splits)
  qed
qed

lemma createCABundleConfigMaps_keeps:
  "createCABundleConfigMaps name ns c = (res, c') \<Longrightarrow> keepsNamespaces c c'"
  by (auto simp: createCABundleConfigMaps_def Let_def split: prod.splits sum.splits if_splits
      dest!: keeps_more_primitives)

lemma createServiceCABundleConfigMap_keeps:
  "createServiceCABundleConfigMap name ns c = (res, c') \<Longrightarrow> keepsNamespaces c c'"
  by (auto simp: createServiceCABundleConfigMap_def Let_def split: prod.splits sum.splits if_splits
      dest!: keeps_more_primitives)

lemma ensureCABundlesInNamespace_keeps:
  assumes "ensureCABundlesInNamespace ns c = (res, c')"
  shows "keepsNamespaces c c'"
proof -
  obtain a c1 where a: "ensureCABundle createCABundleConfigMaps trustedCABundleConfigMap ns c = (a, c1)"
    by fastforce
  from ensureCABundle_keeps [OF createCABundleConfigMaps_keeps a] have k1: "keepsNamespaces c c1" .
  show ?thesis
  proof (cases a)
    case (Some err)
    with a assms k1 show ?thesis by (simp add: ensureCABundlesInNamespace_def ensureCABundles_def)
  next
    case None
    with a assms
    have "ensureCABundle createServiceCABundleConfigMap serviceCABundleConfigMap ns c1 = (res, c')"
      by (simp add: ensureCABundlesInNamespace_def ensureCABundles_def)
    from ensureCABundle_keeps [OF createServiceCABundleConfigMap_keeps this] k1
    show ?thesis by (rule keepsNamespaces_trans [rotated])
  qed
qed

lemma labels_distinct: "namespaceTrustedConfigLabel \<noteq> namespaceVersionLabel"
  by (simp add: namespaceTrustedConfigLabel_def namespaceVersionLabel_def)

lemma reconcileCABundles_labels:
  "labelsOf namespaceVersionLabel (reconcileCABundles r nss c) = labelsOf namespaceVersionLabel c"
proof (induction nss arbitrary: c)
  case Nil
  then show ?case by simp
next
  case (Cons ns nss)
  obtain e c1 where e: "ensureCABundlesInNamespace ns c = (e, c1)" by fastforce
  from ensureCABundlesInNamespace_keeps [OF e]
  have l1: "labelsOf namespaceVersionLabel c1 = labelsOf namespaceVersionLabel c"
    by (simp add: keepsNamespaces_def labelsOf_def)
  show ?case
  proof (cases e)
    case (Some err)
    with e have "reconcileCABundles r (ns # nss) c = reconcileCABundles r nss c1" by simp
    with Cons.IH [of c1] l1 show ?thesis by simp
  next
    case None
    let ?c2 = "snd (patchNamespace (nsName ns) namespaceTrustedConfigLabel (version r) c1)"
    from None e have "reconcileCABundles r (ns # nss) c = reconcileCABundles r nss ?c2"
      by (simp add: snd_patchNamespaceTrustedConfigLabel)
    moreover have "labelsOf namespaceVersionLabel ?c2 = labelsOf namespaceVersionLabel c1"
      by (rule patchNamespace_otherKey [OF labels_distinct])
    ultimately show ?thesis using Cons.IH [of ?c2] l1 by simp
  qed
qed

lemma reconcileRBAC_violation_sub:
  assumes ex: "exceedsCeiling r ns c" and sub: "set nss \<subseteq> set every"
    and mem: "ns \<in> set every" and dist: "distinct (map nsName every)"
  shows "filter (\<lambda>n. nsName n = nsName ns) (namespaces (snd (reconcileRBAC r nss c)))
           = filter (\<lambda>n. nsName n = nsName ns) (namespaces c)"
proof -
  obtain e c1 where ci: "removeAndUpdateNSFromCI r c = (e, c1)" by fastforce
  from removeAndUpdateNSFromCI_keeps [OF ci] have k1: "keepsNamespaces c c1" .
  obtain upd c2 where pn: "processNamespaces r nss [] c1 = (upd, c2)" by fastforce
  from processNamespaces_keeps [OF pn] have k2: "keepsNamespaces c1 c2" .
  from ex k1 have ex1: "exceedsCeiling r ns c1" by (simp add: exceedsCeiling_keeps)
  have notin: "nsName ns \<notin> nsName ` nssaNamespace ` set upd"
  proof
    assume "nsName ns \<in> nsName ` nssaNamespace ` set upd"
    then obtain x where x: "x \<in> set upd" and nm: "nsName (nssaNamespace x) = nsName ns" by auto
    from x pn have "x \<in> set (fst (processNamespaces r nss [] c1))" by simp
    from processNamespaces_members [OF this]
    have xin: "nssaNamespace x \<in> set nss" and nex: "\<not> exceedsCeiling r (nssaNamespace x) c1" by simp_all
    from xin sub have "nssaNamespace x \<in> set every" by auto
    with dist mem nm have "nssaNamespace x = ns" by (metis distinct_map inj_on_def)
    with nex ex1 show False by simp
  qed
  obtain res c3 where hc: "handleClusterRoleBinding r upd c2 = (res, c3)" by fastforce
  from handleClusterRoleBinding_keeps [OF hc] have k3: "keepsNamespaces c2 c3" .
  from k1 k2 k3 have n: "namespaces c1 = namespaces c" "namespaces c2 = namespaces c"
    "namespaces c3 = namespaces c" by (simp_all add: keepsNamespaces_def)
  show ?thesis
    using ci pn hc n patchLabels_other [OF notin, of r c3]
    by (auto simp: reconcileRBAC_def split: option.splits)
qed

lemma filter_labelsOf:
  "filter (\<lambda>p. fst p = name) (labelsOf key c)
     = map (\<lambda>n. (nsName n, nsLabels n key)) (filter (\<lambda>n. nsName n = name) (namespaces c))"
  by (simp add: labelsOf_def filter_map o_def)

lemma exceedsCeiling_cong:
  "tektonConfig r1 = tektonConfig r \<Longrightarrow> keepsNamespaces c c' \<Longrightarrow>
   exceedsCeiling r1 ns c' = exceedsCeiling r ns c"
  by (simp add: exceedsCeiling_def keepsNamespaces_def)

lemma createResources_label:
  assumes ex: "exceedsCeiling r ns c" and mem: "ns \<in> set (namespaces c)"
    and dist: "distinct (map nsName (namespaces c))"
    and iset: "fst (EnsureRBACInstallerSet r c) = Inr rbacISet"
  shows "filter (\<lambda>p. fst p = nsName ns) (labelsOf namespaceVersionLabel (snd (snd (createResources r c))))
           = filter (\<lambda>p. fst p = nsName ns) (labelsOf namespaceVersionLabel c)"
proof -
  let ?L = "\<lambda>c. filter (\<lambda>p. fst p = nsName ns) (labelsOf namespaceVersionLabel c)"
  have same: "?L c' = ?L c" if "namespaces c' = namespaces c" for c'
    using that by (simp add: labelsOf_def)
  obtain ca rb where ff: "featureFlags (tcParams (tektonConfig r)) (True, True) = (ca, rb)"
    by fastforce
  obtain pe r1 c1 where p: "(if rb then ensurePreRequisites r c else (None, r, c)) = (pe, r1, c1)"
    by (metis prod_cases3)
  have k1: "keepsNamespaces c c1" and t1: "tektonConfig r1 = tektonConfig r"
  proof -
    show "keepsNamespaces c c1"
    proof (cases rb)
      case True
      with p ensurePreRequisites_keepsNamespaces [OF iset] show ?thesis by simp
    next
      case False
      with p show ?thesis by simp
    qed
    show "tektonConfig r1 = tektonConfig r"
    proof (cases rb)
      case True
      with p ensurePreRequisites_rbac [of r c] show ?thesis by simp
    next
      case False
      with p show ?thesis by simp
    qed
  qed
  obtain g c2 where g: "getNamespacesToBeReconciled r1 c1 = (g, c2)" by fastforce
  from getNamespacesToBeReconciled_keeps [OF g] k1 have k2: "keepsNamespaces c c2"
    by (rule keepsNamespaces_trans [rotated])
  show ?thesis
  proof (cases "\<not> ca \<and> \<not> rb")
    case True
    then show ?thesis by (simp add: createResources_def ff)
  next
    case active: False
    show ?thesis
    proof (cases pe)
      case (Some err)
      with active p k1 same [of c1] show ?thesis
        by (simp add: createResources_def ff keepsNamespaces_def)
    next
      case None
      show ?thesis
      proof (cases g)
        case (Inl err)
        with active p None g k2 same [of c2] show ?thesis
          by (simp add: createResources_def ff keepsNamespaces_def)
      next
        case (Inr sel)
        from g Inr k1 getNamespacesToBeReconciled_subset [of r1 c1 sel c2]
        have sub: "set (RBACNamespaces sel) \<subseteq> set (namespaces c)"
          by (simp add: keepsNamespaces_def)
        from ex t1 k2 have ex2: "exceedsCeiling r1 ns c2" by (simp add: exceedsCeiling_cong)
        obtain e3 c3 where s3: "(if rb \<and> length (RBACNamespaces sel) \<noteq> 0
                               then reconcileRBAC r1 (RBACNamespaces sel) c2
                               else (None, c2)) = (e3, c3)" by fastforce
        have l3: "?L c3 = ?L c"
        proof (cases "rb \<and> length (RBACNamespaces sel) \<noteq> 0")
          case True
          with s3 have c3: "c3 = snd (reconcileRBAC r1 (RBACNamespaces sel) c2)" by simp
          from reconcileRBAC_violation_sub [OF ex2 sub mem dist] k2
          show ?thesis by (simp add: c3 filter_labelsOf keepsNamespaces_def)
        next
          case False
          with s3 have "c3 = c2" by auto
          with k2 same [of c2] show ?thesis by (simp add: keepsNamespaces_def)
        qed
        have l4: "?L (reconcileCABundles r1 (CANamespaces sel) c3) = ?L c"
          using l3 by (simp add: reconcileCABundles_labels)
        show ?thesis
        proof (cases "length (RBACNamespaces sel) = 0 \<and> length (CANamespaces sel) = 0")
          case True
          with active p None g Inr k2 same [of c2] show ?thesis
            by (simp add: createResources_def ff keepsNamespaces_def)
        next
          case False
          have cr: "createResources r c =
              (case e3 of Some err \<Rightarrow> (Some err, r1, c3)
               | None \<Rightarrow> if ca then (None, r1, reconcileCABundles r1 (CANamespaces sel) c3)
                         else (None, r1, c3))"
            using active False
            by (simp only: createResources_def ff prod.case p None option.case g Inr sum.case s3
                if_False simp_thms)
          show ?thesis
            unfolding cr using l3 l4 by (cases e3; cases ca) simp_all
        qed
      qed
    qed
  qed
qed

lemma createResources_rbac_error:
  assumes flags: "snd (featureFlags (tcParams (tektonConfig r)) (True, True))"
    and pre: "fst (ensurePreRequisites r c) = None"
    and sel: "length (selectedForRBAC (fst (snd (ensurePreRequisites r c)))
                 (snd (snd (ensurePreRequisites r c)))) \<noteq> 0"
  shows "fst (createResources r c)
           = fst (reconcileRBAC (fst (snd (ensurePreRequisites r c)))
                   (selectedForRBAC (fst (snd (ensurePreRequisites r c)))
                      (snd (snd (ensurePreRequisites r c))))
                   (snd (getNamespacesToBeReconciled (fst (snd (ensurePreRequisites r c)))
                      (snd (snd (ensurePreRequisites r c))))))"
proof -
  obtain ca where ff: "featureFlags (tcParams (tektonConfig r)) (True, True) = (ca, True)"
    using flags by (cases "featureFlags (tcParams (tektonConfig r)) (True, True)") auto
  obtain r1 c1 where p: "ensurePreRequisites r c = (None, r1, c1)"
    using pre by (cases "ensurePreRequisites r c") auto
  obtain g c2 where g: "getNamespacesToBeReconciled r1 c1 = (g, c2)" by fastforce
  from sel p g obtain s where s: "g = Inr s" and ne: "length (RBACNamespaces s) \<noteq> 0"
    by (cases g) (auto simp: selectedForRBAC_def)
  obtain e3 c3 where e3: "reconcileRBAC r1 (RBACNamespaces s) c2 = (e3, c3)" by fastforce
  have "fst (createResources r c) = e3"
    using ff p g s ne e3 by (cases e3) (simp_all add: createResources_def)
  with p g s e3 show ?thesis by (simp add: selectedForRBAC_def)
qed

section \<open>Properties of the reconciler\<close>

subsection \<open>Merging subject lists\<close>



subsection \<open>Repairing owner references\<close>

text \<open>
  C9. For every list of owner references \<^verbatim>\<open>updateOwnerRefs\<close> returns a non-empty list
  that contains a reference with the API version, kind and name of the reconciler's
  owner reference. An empty list gives the one-element list of that reference. When
  some reference differs, the first one that differs is removed and the reconciler's
  reference is appended at the end; everything before and after the removed reference,
  also a later reference that differs, stays. When no reference differs the list is
  returned as it is.
\<close>

theorem updateOwnerRefs_invariant:
  "updateOwnerRefs r refs \<noteq> []
   \<and> (\<exists>x \<in> set (updateOwnerRefs r refs).
         oAPIVersion x = oAPIVersion r \<and> oKind x = oKind r \<and> oName x = oName r)
   \<and> updateOwnerRefs r [] = [r]
   \<and> (\<forall>ys f zs. refs = ys @ f # zs \<and> (\<forall>y \<in> set ys. \<not> refDiffers r y) \<and> refDiffers r f \<longrightarrow>
         updateOwnerRefs r refs = ys @ zs @ [r])
   \<and> (refs \<noteq> [] \<and> (\<forall>x \<in> set refs. \<not> refDiffers r x) \<longrightarrow> updateOwnerRefs r refs = refs)"
proof -
  have empty: "updateOwnerRefs r [] = [r]"
    by (simp add: updateOwnerRefs_def)
  have first: "updateOwnerRefs r refs = ys @ zs @ [r]"
    if "refs = ys @ f # zs" and "\<forall>y \<in> set ys. \<not> refDiffers r y" and "refDiffers r f"
    for ys f zs
  proof -
    from that have "\<exists>x \<in> set refs. refDiffers r x" by auto
    from updateOwnerRefs_first_foreign [OF this] that show ?thesis
      by (simp add: takeWhile_append2 dropWhile_append2)
  qed
  have same: "updateOwnerRefs r refs = refs"
    if "refs \<noteq> []" and "\<forall>x \<in> set refs. \<not> refDiffers r x"
    using that by (rule updateOwnerRefs_all_match)
  have nonempty_has: "updateOwnerRefs r refs \<noteq> []
    \<and> (\<exists>x \<in> set (updateOwnerRefs r refs).
          oAPIVersion x = oAPIVersion r \<and> oKind x = oKind r \<and> oName x = oName r)"
  proof (cases "refs = []")
    case True
    with empty show ?thesis by simp
  next
    case ne: False
    show ?thesis
    proof (cases "\<exists>x \<in> set refs. refDiffers r x")
      case True
      from updateOwnerRefs_first_foreign [OF this] show ?thesis by simp
    next
      case False
      with ne have "updateOwnerRefs r refs = refs" by (simp add: updateOwnerRefs_all_match)
      moreover from ne obtain a where "a \<in> set refs" by (cases refs) auto
      moreover from this False have "\<not> refDiffers r a" by blast
      ultimately show ?thesis using ne by (auto simp: refDiffers_def)
    qed
  qed
  from nonempty_has empty first same show ?thesis by blast
qed

theorem updateOwnerRefs_invariant_witness:
  "refDiffers \<lparr>oAPIVersion = ''v1'', oKind = ''K'', oName = ''cur'', oUID = ''1''\<rparr>
      \<lparr>oAPIVersion = ''v1'', oKind = ''K'', oName = ''old'', oUID = ''2''\<rparr>
   \<and> \<not> refDiffers \<lparr>oAPIVersion = ''v1'', oKind = ''K'', oName = ''cur'', oUID = ''1''\<rparr>
      \<lparr>oAPIVersion = ''v1'', oKind = ''K'', oName = ''cur'', oUID = ''9''\<rparr>
   \<and> updateOwnerRefs \<lparr>oAPIVersion = ''v1'', oKind = ''K'', oName = ''cur'', oUID = ''1''\<rparr>
       [\<lparr>oAPIVersion = ''v1'', oKind = ''K'', oName = ''cur'', oUID = ''9''\<rparr>,
        \<lparr>oAPIVersion = ''v1'', oKind = ''K'', oName = ''old'', oUID = ''2''\<rparr>,
        \<lparr>oAPIVersion = ''v1'', oKind = ''K'', oName = ''older'', oUID = ''3''\<rparr>]
     = [\<lparr>oAPIVersion = ''v1'', oKind = ''K'', oName = ''cur'', oUID = ''9''\<rparr>,
        \<lparr>oAPIVersion = ''v1'', oKind = ''K'', oName = ''older'', oUID = ''3''\<rparr>,
        \<lparr>oAPIVersion = ''v1'', oKind = ''K'', oName = ''cur'', oUID = ''1''\<rparr>]
   \<and> updateOwnerRefs \<lparr>oAPIVersion = ''v1'', oKind = ''K'', oName = ''cur'', oUID = ''1''\<rparr>
       [\<lparr>oAPIVersion = ''v1'', oKind = ''K'', oName = ''cur'', oUID = ''9''\<rparr>]
     = [\<lparr>oAPIVersion = ''v1'', oKind = ''K'', oName = ''cur'', oUID = ''9''\<rparr>]"
proof -
  let ?r = "\<lparr>oAPIVersion = ''v1'', oKind = ''K'', oName = ''cur'', oUID = ''1''\<rparr>"
  let ?c = "\<lparr>oAPIVersion = ''v1'', oKind = ''K'', oName = ''cur'', oUID = ''9''\<rparr>"
  let ?o = "\<lparr>oAPIVersion = ''v1'', oKind = ''K'', oName = ''old'', oUID = ''2''\<rparr>"
  let ?p = "\<lparr>oAPIVersion = ''v1'', oKind = ''K'', oName = ''older'', oUID = ''3''\<rparr>"
  have d: "refDiffers ?r ?o" and m: "\<not> refDiffers ?r ?c"
    by (simp_all add: refDiffers_def)
  from updateOwnerRefs_invariant [of ?r "[?c, ?o, ?p]"] d m
  have a: "updateOwnerRefs ?r [?c, ?o, ?p] = [?c] @ [?p] @ [?r]"
    by (metis append_Cons append_Nil empty_iff empty_set set_ConsD)
  from updateOwnerRefs_invariant [of ?r "[?c]"] m
  have b: "updateOwnerRefs ?r [?c] = [?c]" by simp
  from d m a b show ?thesis by simp
qed

subsection \<open>Pruning stale subjects\<close>

text \<open>
  C8. In \<^verbatim>\<open>removeAndUpdateNSFromCI\<close>, when the number of cached namespaces that carry
  the version label with the reconciler's version equals the length of the subject list
  of the cached interceptors binding, no update call is made and the binding stays as
  it is, on the server and in the cache, whatever the namespaces of its subjects are.
  And when the loop removes the subject at index \<open>i\<close>, it goes on at index \<open>i + 1\<close> of
  the shortened list: the subject that moved to index \<open>i\<close> is still there in the result,
  not looked at.
\<close>

theorem pruning_guard_and_skip:
  "(crbCache c clusterInterceptors = Some rb
      \<and> distinct (map nsName (filter (hasLabel namespaceVersionLabel (version r)) (nsCache c)))
      \<and> length (filter (hasLabel namespaceVersionLabel (version r)) (nsCache c))
           = length (crbSubjects rb)
    \<longrightarrow> updateCalls (snd (removeAndUpdateNSFromCI r c)) = updateCalls c
      \<and> clusterRoleBindings (snd (removeAndUpdateNSFromCI r c)) = clusterRoleBindings c
      \<and> crbCache (snd (removeAndUpdateNSFromCI r c)) = crbCache c)
   \<and> (i + 1 < length ss \<and> length nsMap \<noteq> length ss \<and> map_of nsMap (sNamespace (ss ! i)) = None
    \<longrightarrow> pruneSubjects nsMap ss i u = pruneSubjects nsMap (removeIndex ss i) (i + 1) True
      \<and> fst (pruneSubjects nsMap ss i u) ! i = ss ! (i + 1))"
proof (intro conjI impI)
  assume a: "crbCache c clusterInterceptors = Some rb
      \<and> distinct (map nsName (filter (hasLabel namespaceVersionLabel (version r)) (nsCache c)))
      \<and> length (filter (hasLabel namespaceVersionLabel (version r)) (nsCache c))
           = length (crbSubjects rb)"
  then have g: "updateCalls (snd (removeAndUpdateNSFromCI r c)) = updateCalls c
       \<and> clusterRoleBindings (snd (removeAndUpdateNSFromCI r c)) = clusterRoleBindings c
       \<and> crbCache (snd (removeAndUpdateNSFromCI r c)) = crbCache c"
    by (intro removeAndUpdateNSFromCI_guard) simp_all
  from g show "updateCalls (snd (removeAndUpdateNSFromCI r c)) = updateCalls c" by simp
  from g show "clusterRoleBindings (snd (removeAndUpdateNSFromCI r c)) = clusterRoleBindings c"
    by simp
  from g show "crbCache (snd (removeAndUpdateNSFromCI r c)) = crbCache c" by simp
next
  assume b: "i + 1 < length ss \<and> length nsMap \<noteq> length ss
      \<and> map_of nsMap (sNamespace (ss ! i)) = None"
  then show "pruneSubjects nsMap ss i u = pruneSubjects nsMap (removeIndex ss i) (i + 1) True"
    by (simp add: pruneSubjects_remove)
  from b show "fst (pruneSubjects nsMap ss i u) ! i = ss ! (i + 1)"
    by (simp add: pruneSubjects_skip)
qed

theorem pruning_guard_and_skip_witness:
  "crbCache (bindingCluster [serviceAccountSubject pipelineSA ''a'', serviceAccountSubject pipelineSA ''b'']
               [labeledNamespace ''a'' ''v1'', labeledNamespace ''d'' ''v1'']) clusterInterceptors
     = Some (interceptorsBinding [serviceAccountSubject pipelineSA ''a'', serviceAccountSubject pipelineSA ''b''])
   \<and> ''b'' \<notin> labeledNames exampleRbac
        (bindingCluster [serviceAccountSubject pipelineSA ''a'', serviceAccountSubject pipelineSA ''b'']
               [labeledNamespace ''a'' ''v1'', labeledNamespace ''d'' ''v1''])
   \<and> clusterRoleBindings (snd (removeAndUpdateNSFromCI exampleRbac
        (bindingCluster [serviceAccountSubject pipelineSA ''a'', serviceAccountSubject pipelineSA ''b'']
               [labeledNamespace ''a'' ''v1'', labeledNamespace ''d'' ''v1''])))
     = [clusterInterceptors \<mapsto>
          interceptorsBinding [serviceAccountSubject pipelineSA ''a'', serviceAccountSubject pipelineSA ''b'']]
   \<and> updateCalls (snd (removeAndUpdateNSFromCI exampleRbac
        (bindingCluster [serviceAccountSubject pipelineSA ''a'', serviceAccountSubject pipelineSA ''b'']
               [labeledNamespace ''a'' ''v1'', labeledNamespace ''d'' ''v1'']))) = []
   \<and> fst (pruneSubjects [(''a'', ''a'')]
        [serviceAccountSubject pipelineSA ''b'', serviceAccountSubject pipelineSA ''c'',
         serviceAccountSubject pipelineSA ''a''] 0 False) ! 0
     = serviceAccountSubject pipelineSA ''c''"
proof -
  let ?ss = "[serviceAccountSubject pipelineSA ''a'', serviceAccountSubject pipelineSA ''b'']"
  let ?c = "bindingCluster ?ss [labeledNamespace ''a'' ''v1'', labeledNamespace ''d'' ''v1'']"
  let ?ts = "[serviceAccountSubject pipelineSA ''b'', serviceAccountSubject pipelineSA ''c'',
         serviceAccountSubject pipelineSA ''a'']"
  have h1: "crbCache ?c clusterInterceptors = Some (interceptorsBinding ?ss)"
    by (simp add: bindingCluster_def emptyCluster_def)
  have h2: "distinct (map nsName (filter (hasLabel namespaceVersionLabel (version exampleRbac)) (nsCache ?c)))"
    by (simp add: bindingCluster_def emptyCluster_def exampleRbac_def labeledNamespace_def hasLabel_def)
  have h3: "length (filter (hasLabel namespaceVersionLabel (version exampleRbac)) (nsCache ?c))
              = length (crbSubjects (interceptorsBinding ?ss))"
    by (simp add: bindingCluster_def emptyCluster_def exampleRbac_def labeledNamespace_def hasLabel_def
        interceptorsBinding_def)
  have h4: "''b'' \<notin> labeledNames exampleRbac ?c"
    by (simp add: labeledNames_def bindingCluster_def emptyCluster_def exampleRbac_def
        labeledNamespace_def hasLabel_def)
  have h5: "0 + 1 < length ?ts \<and> length [(''a'', ''a'')] \<noteq> length ?ts
      \<and> map_of [(''a'', ''a'')] (sNamespace (?ts ! 0)) = None"
    by (simp add: serviceAccountSubject_def)
  have c1: "clusterRoleBindings ?c = [clusterInterceptors \<mapsto> interceptorsBinding ?ss]"
    and c2: "updateCalls ?c = []"
    by (simp_all add: bindingCluster_def emptyCluster_def updateCalls_def)
  from pruning_guard_and_skip [of ?c "interceptorsBinding ?ss" exampleRbac 0 ?ts "[(''a'', ''a'')]" False]
    h1 h2 h3 h5
  have "updateCalls (snd (removeAndUpdateNSFromCI exampleRbac ?c)) = updateCalls ?c
      \<and> clusterRoleBindings (snd (removeAndUpdateNSFromCI exampleRbac ?c)) = clusterRoleBindings ?c
      \<and> fst (pruneSubjects [(''a'', ''a'')] ?ts 0 False) ! 0 = ?ts ! (0 + 1)"
    by blast
  with h1 h4 c1 c2 show ?thesis by simp
qed




subsection \<open>Defaulting of the toggles\<close>

text \<open>
  C4, as stated, fails: with \<open>createRbacResource\<close> set to \<open>false\<close> and
  \<open>createCABundleConfigMaps\<close> absent, the latter is added with the value \<open>false\<close>.
\<close>

theorem setDefault_toggles_counterexample:
  "tcParams (tektonConfig (setDefault (paramsRbac [\<lparr>pName = rbacParamName, pValue = ''false''\<rparr>])))
     = [\<lparr>pName = rbacParamName, pValue = ''false''\<rparr>,
        \<lparr>pName = legacyPipelineRbacParamName, pValue = ''true''\<rparr>,
        \<lparr>pName = trustedCABundleParamName, pValue = ''false''\<rparr>]"
  by (simp add: setDefault_def paramsRbac_def exampleRbac_def Let_def rbacParamName_def
      legacyPipelineRbacParamName_def trustedCABundleParamName_def)

text \<open>
  C4, amended. After \<^verbatim>\<open>setDefault\<close> the parameters are the old ones, in order, where
  each parameter named \<open>createRbacResource\<close>, \<open>legacyPipelineRbac\<close> or
  \<open>createCABundleConfigMaps\<close> whose value is neither \<open>true\<close> nor \<open>false\<close> has the
  value \<open>true\<close>, followed by a parameter with the value \<open>true\<close> for
  \<open>createRbacResource\<close> and for \<open>legacyPipelineRbac\<close> when absent, and by one for
  \<open>createCABundleConfigMaps\<close> when absent, whose value is \<open>false\<close> if
  \<open>createRbacResource\<close> was present and its last occurrence had the value \<open>false\<close>, and
  \<open>true\<close> otherwise. So each of the three is present, and every parameter with one of
  the three names has the value \<open>true\<close> or \<open>false\<close>.
\<close>

theorem setDefault_toggles:
  "tcParams (tektonConfig (setDefault r)) =
     map normalised (tcParams (tektonConfig r))
     @ (if \<exists>p \<in> set (tcParams (tektonConfig r)). pName p = rbacParamName then []
        else [\<lparr>pName = rbacParamName, pValue = ''true''\<rparr>])
     @ (if \<exists>p \<in> set (tcParams (tektonConfig r)). pName p = legacyPipelineRbacParamName then []
        else [\<lparr>pName = legacyPipelineRbacParamName, pValue = ''true''\<rparr>])
     @ (if \<exists>p \<in> set (tcParams (tektonConfig r)). pName p = trustedCABundleParamName then []
        else [\<lparr>pName = trustedCABundleParamName,
               pValue = (if (\<exists>p \<in> set (tcParams (tektonConfig r)). pName p = rbacParamName)
                            \<and> pValue (last (filter (\<lambda>p. pName p = rbacParamName)
                                                (tcParams (tektonConfig r)))) = ''false''
                         then ''false'' else ''true'')\<rparr>])
   \<and> (\<forall>n. isToggle n \<longrightarrow> (\<exists>p \<in> set (tcParams (tektonConfig (setDefault r))). pName p = n))
   \<and> (\<forall>p \<in> set (tcParams (tektonConfig (setDefault r))).
         isToggle (pName p) \<longrightarrow> pValue p = ''true'' \<or> pValue p = ''false'')"
proof (intro conjI)
  show "tcParams (tektonConfig (setDefault r)) =
     map normalised (tcParams (tektonConfig r))
     @ (if \<exists>p \<in> set (tcParams (tektonConfig r)). pName p = rbacParamName then []
        else [\<lparr>pName = rbacParamName, pValue = ''true''\<rparr>])
     @ (if \<exists>p \<in> set (tcParams (tektonConfig r)). pName p = legacyPipelineRbacParamName then []
        else [\<lparr>pName = legacyPipelineRbacParamName, pValue = ''true''\<rparr>])
     @ (if \<exists>p \<in> set (tcParams (tektonConfig r)). pName p = trustedCABundleParamName then []
        else [\<lparr>pName = trustedCABundleParamName,
               pValue = (if (\<exists>p \<in> set (tcParams (tektonConfig r)). pName p = rbacParamName)
                            \<and> pValue (last (filter (\<lambda>p. pName p = rbacParamName)
                                                (tcParams (tektonConfig r)))) = ''false''
                         then ''false'' else ''true'')\<rparr>])"
    by (rule setDefault_params)
  show "\<forall>n. isToggle n \<longrightarrow> (\<exists>p \<in> set (tcParams (tektonConfig (setDefault r))). pName p = n)"
    unfolding setDefault_params isToggle_def by (auto simp: image_iff)
  show "\<forall>p \<in> set (tcParams (tektonConfig (setDefault r))).
         isToggle (pName p) \<longrightarrow> pValue p = ''true'' \<or> pValue p = ''false''"
    unfolding setDefault_params using normalised_value by (auto split: if_splits)
qed


theorem setDefault_toggles_witness:
  "isToggle rbacParamName
   \<and> tcParams (tektonConfig (setDefault (paramsRbac
       [\<lparr>pName = rbacParamName, pValue = ''yes''\<rparr>, \<lparr>pName = ''other'', pValue = ''x''\<rparr>])))
     = [\<lparr>pName = rbacParamName, pValue = ''true''\<rparr>, \<lparr>pName = ''other'', pValue = ''x''\<rparr>,
        \<lparr>pName = legacyPipelineRbacParamName, pValue = ''true''\<rparr>,
        \<lparr>pName = trustedCABundleParamName, pValue = ''true''\<rparr>]"
proof -
  let ?r = "paramsRbac [\<lparr>pName = rbacParamName, pValue = ''yes''\<rparr>, \<lparr>pName = ''other'', pValue = ''x''\<rparr>]"
  have ps: "tcParams (tektonConfig ?r)
      = [\<lparr>pName = rbacParamName, pValue = ''yes''\<rparr>, \<lparr>pName = ''other'', pValue = ''x''\<rparr>]"
    by (simp add: paramsRbac_def)
  have t: "isToggle rbacParamName" by (simp add: isToggle_def)
  from setDefault_toggles [of ?r] t show ?thesis
    unfolding ps
    by (simp add: normalised_def isToggle_def rbacParamName_def legacyPipelineRbacParamName_def
        trustedCABundleParamName_def)
qed

subsection \<open>The version gate\<close>






subsection \<open>Owner of the service account\<close>

text \<open>
  C5, as stated, fails: \<^verbatim>\<open>ensureSA\<close> on a service account whose only owner reference
  is the reconciler's \<^verbatim>\<open>r.ownerRef\<close>, the bookkeeping object, replaces it with the
  reference to the TektonConfig.
\<close>

theorem serviceAccount_owner_counterexample:
  "fst (ensureSA exampleRbac (labeledNamespace ''a'' ''v1'')
          (serviceAccountCluster ''a'' [ownerRef exampleRbac]))
     = Inr \<lparr>saName = pipelineSA, saNamespace = ''a'',
            saOwnerReferences = [\<lparr>oAPIVersion = ''operator.tekton.dev/v1alpha1'',
               oKind = ''TektonConfig'', oName = ''config'', oUID = ''u0''\<rparr>]\<rparr>
   \<and> serviceAccounts (snd (ensureSA exampleRbac (labeledNamespace ''a'' ''v1'')
          (serviceAccountCluster ''a'' [ownerRef exampleRbac]))) (''a'', pipelineSA)
     = Some \<lparr>saName = pipelineSA, saNamespace = ''a'',
            saOwnerReferences = [\<lparr>oAPIVersion = ''operator.tekton.dev/v1alpha1'',
               oKind = ''TektonConfig'', oName = ''config'', oUID = ''u0''\<rparr>]\<rparr>
   \<and> ownerRef exampleRbac
     = \<lparr>oAPIVersion = ''operator.tekton.dev/v1alpha1'', oKind = ''TektonInstallerSet'',
        oName = ''rhosp-rbac-x'', oUID = ''u1''\<rparr>"
  by (simp add: ensureSA_def getServiceAccount_def updateServiceAccount_def invoke_def Let_def
      serviceAccountCluster_def emptyCluster_def exampleRbac_def labeledNamespace_def)

text \<open>
  C5, amended. When \<^verbatim>\<open>ensureSA\<close> succeeds for a namespace (whose stored pipeline
  service account, if any, carries its own name), the stored service account is the
  returned one and its owner references are exactly one reference, the one of the
  TektonConfig (\<^verbatim>\<open>tektonConfigOwnerRef\<close>), whatever they were before. The same holds
  when \<^verbatim>\<open>createSA\<close> succeeds and the service account did not exist. When it exists,
  \<^verbatim>\<open>createSA\<close> leaves the stored service accounts as they are and, unless the create
  call fails with a server error, reports success: it returns no error and the empty
  object that the client handed back with the answer \<open>AlreadyExists\<close>.
\<close>

theorem serviceAccount_owner:
  "(fst (ensureSA r ns c) = Inr sa
      \<and> (\<forall>sa0. serviceAccounts c (nsName ns, pipelineSA) = Some sa0 \<longrightarrow> saName sa0 = pipelineSA)
    \<longrightarrow> serviceAccounts (snd (ensureSA r ns c)) (nsName ns, pipelineSA) = Some sa
      \<and> saOwnerReferences sa = [tcOwnerRef (tektonConfig r)])
   \<and> (fst (createSA n tc c) = Inr sa \<and> serviceAccounts c (n, pipelineSA) = None
    \<longrightarrow> serviceAccounts (snd (createSA n tc c)) (n, pipelineSA) = Some sa
      \<and> saOwnerReferences sa = [tcOwnerRef tc])
   \<and> (serviceAccounts c (n, pipelineSA) \<noteq> None
    \<longrightarrow> serviceAccounts (snd (createSA n tc c)) = serviceAccounts c
      \<and> (\<not> faults c (length (calls c)) \<longrightarrow>
           fst (createSA n tc c)
             = Inr \<lparr>saName = [], saNamespace = [], saOwnerReferences = []\<rparr>))"
  using ensureSA_success [of r ns c sa] createSA_success [of n tc c sa] createSA_exists [of c n _ tc]
    createSA_exists_result [of c n _ tc]
  by blast

theorem serviceAccount_owner_witness:
  "fst (ensureSA exampleRbac (labeledNamespace ''a'' ''v1'')
          (serviceAccountCluster ''a'' [foreignRef, ownerRef exampleRbac]))
     = Inr \<lparr>saName = pipelineSA, saNamespace = ''a'',
            saOwnerReferences = [tcOwnerRef (tektonConfig exampleRbac)]\<rparr>
   \<and> serviceAccounts (serviceAccountCluster ''a'' [foreignRef, ownerRef exampleRbac]) (''a'', pipelineSA)
     = Some \<lparr>saName = pipelineSA, saNamespace = ''a'',
            saOwnerReferences = [foreignRef, ownerRef exampleRbac]\<rparr>
   \<and> serviceAccounts (snd (ensureSA exampleRbac (labeledNamespace ''a'' ''v1'')
          (serviceAccountCluster ''a'' [foreignRef, ownerRef exampleRbac]))) (''a'', pipelineSA)
     = Some \<lparr>saName = pipelineSA, saNamespace = ''a'',
            saOwnerReferences = [tcOwnerRef (tektonConfig exampleRbac)]\<rparr>
   \<and> fst (createSA ''a'' (tektonConfig exampleRbac) emptyCluster)
     = Inr \<lparr>saName = pipelineSA, saNamespace = ''a'',
            saOwnerReferences = [tcOwnerRef (tektonConfig exampleRbac)]\<rparr>
   \<and> serviceAccounts emptyCluster (''a'', pipelineSA) = None
   \<and> serviceAccounts (snd (createSA ''a'' (tektonConfig exampleRbac) emptyCluster)) (''a'', pipelineSA)
     = Some \<lparr>saName = pipelineSA, saNamespace = ''a'',
            saOwnerReferences = [tcOwnerRef (tektonConfig exampleRbac)]\<rparr>
   \<and> fst (createSA ''a'' (tektonConfig exampleRbac) (serviceAccountCluster ''a'' [foreignRef]))
     = Inr \<lparr>saName = [], saNamespace = [], saOwnerReferences = []\<rparr>
   \<and> serviceAccounts (snd (createSA ''a'' (tektonConfig exampleRbac)
          (serviceAccountCluster ''a'' [foreignRef]))) (''a'', pipelineSA)
     = Some \<lparr>saName = pipelineSA, saNamespace = ''a'', saOwnerReferences = [foreignRef]\<rparr>"
proof -
  let ?ns = "labeledNamespace ''a'' ''v1''"
  let ?tc = "tektonConfig exampleRbac"
  let ?sa = "\<lparr>saName = pipelineSA, saNamespace = ''a'', saOwnerReferences = [tcOwnerRef ?tc]\<rparr>"
  let ?c1 = "serviceAccountCluster ''a'' [foreignRef, ownerRef exampleRbac]"
  let ?c3 = "serviceAccountCluster ''a'' [foreignRef]"
  have nm: "nsName ?ns = ''a''" by simp
  have s1: "serviceAccounts ?c1 (''a'', pipelineSA)
      = Some \<lparr>saName = pipelineSA, saNamespace = ''a'',
              saOwnerReferences = [foreignRef, ownerRef exampleRbac]\<rparr>"
    by (simp add: serviceAccountCluster_def emptyCluster_def)
  have a1: "fst (ensureSA exampleRbac ?ns ?c1) = Inr ?sa"
    by (simp add: ensureSA_def getServiceAccount_def updateServiceAccount_def invoke_def Let_def
        serviceAccountCluster_def emptyCluster_def)
  have w1: "\<forall>sa0. serviceAccounts ?c1 (nsName ?ns, pipelineSA) = Some sa0 \<longrightarrow> saName sa0 = pipelineSA"
    using s1 by (simp add: nm)
  from serviceAccount_owner [of exampleRbac ?ns ?c1 ?sa] a1 w1
  have r1: "serviceAccounts (snd (ensureSA exampleRbac ?ns ?c1)) (''a'', pipelineSA) = Some ?sa"
    by (simp add: nm)
  have a2: "fst (createSA ''a'' ?tc emptyCluster) = Inr ?sa"
    by (simp add: createSA_def createServiceAccount_def invoke_def Let_def emptyCluster_def)
  have s2: "serviceAccounts emptyCluster (''a'', pipelineSA) = None"
    by (simp add: emptyCluster_def)
  from serviceAccount_owner [of _ _ emptyCluster ?sa "''a''" ?tc] a2 s2
  have r2: "serviceAccounts (snd (createSA ''a'' ?tc emptyCluster)) (''a'', pipelineSA) = Some ?sa"
    by blast
  have s3: "serviceAccounts ?c3 (''a'', pipelineSA)
      = Some \<lparr>saName = pipelineSA, saNamespace = ''a'', saOwnerReferences = [foreignRef]\<rparr>"
    by (simp add: serviceAccountCluster_def emptyCluster_def)
  have f3: "\<not> faults ?c3 (length (calls ?c3))"
    by (simp add: serviceAccountCluster_def emptyCluster_def)
  from s3 have s3': "serviceAccounts ?c3 (''a'', pipelineSA) \<noteq> None" by simp
  from serviceAccount_owner [of _ _ ?c3 _ "''a''" ?tc] s3' f3
  have r3: "fst (createSA ''a'' ?tc ?c3) = Inr \<lparr>saName = [], saNamespace = [], saOwnerReferences = []\<rparr>"
    and r4: "serviceAccounts (snd (createSA ''a'' ?tc ?c3)) = serviceAccounts ?c3"
    by blast+
  from a1 s1 r1 a2 s2 r2 r3 r4 s3 show ?thesis by (simp only: simp_thms)
qed

subsection \<open>A namespace above the ceiling\<close>

text \<open>
  C7. Let a namespace request, by its annotation, an SCC less restrictive than the
  ceiling \<^verbatim>\<open>maxAllowed\<close>. Then \<^verbatim>\<open>processRBAC\<close> returns an error for it (the policy
  violation, when no call fails). The loop over the batch skips it wherever it stands:
  the namespaces before it are processed as they would be without it, and the
  namespaces after it are processed from the state that its \<^verbatim>\<open>processRBAC\<close> left, with
  the list collected so far. Every namespace of a batch whose \<^verbatim>\<open>processRBAC\<close> succeeds
  at the state in which the loop reaches it is collected. The RBAC step of the pass
  returns the error of the pruning step or of the cluster role binding step and no
  other: the failure of the namespace is no error of the pass. In a batch with distinct
  namespace names the namespace is not among the collected namespaces and is stored
  after the RBAC step as before, its version label with it; when no call fails and the
  RBAC step returns no error, the version labels after it are those before it with every
  collected namespace stamped. For the whole pass: when RBAC is enabled, the
  prerequisites succeed and namespaces are selected for RBAC work, \<^verbatim>\<open>createResources\<close>
  returns the error of that RBAC step; and on a cluster with distinct namespace names
  whose bookkeeping object exists, the version label of the namespace is after
  \<^verbatim>\<open>createResources\<close> what it was before.
\<close>

theorem ceiling_violation_isolated:
  assumes "exceedsCeiling r ns c"
  shows "(\<exists>err. fst (processRBAC r ns c) = Inl err)
     \<and> ((\<forall>k. \<not> faults c k) \<longrightarrow> fst (handleSCCInNamespace r ns c) = Some NamespacePolicyViolation)
     \<and> processNamespaces r (ns # rest) acc c
         = processNamespaces r rest acc (snd (processRBAC r ns c))
     \<and> processNamespaces r (pre @ ns # rest) acc c
         = processNamespaces r rest (fst (processNamespaces r pre acc c))
             (snd (processRBAC r ns (snd (processNamespaces r pre acc c))))
     \<and> (\<not> isl (fst (processRBAC r m (snd (processNamespaces r before [] c'))))
          \<longrightarrow> m \<in> nssaNamespace ` set (fst (processNamespaces r (before @ m # after) [] c')))
     \<and> fst (reconcileRBAC r [ns] c) = fst (removeAndUpdateNSFromCI r c)
     \<and> fst (reconcileRBAC r nss c)
         = (case fst (removeAndUpdateNSFromCI r c) of
              Some err \<Rightarrow> Some err
            | None \<Rightarrow>
                (case processNamespaces r nss [] (snd (removeAndUpdateNSFromCI r c)) of
                   (namespacesToUpdate, c2) \<Rightarrow>
                     if namespacesToUpdate = [] then None
                     else fst (handleClusterRoleBinding r namespacesToUpdate c2)))
     \<and> (ns \<in> set nss \<and> distinct (map nsName nss) \<longrightarrow>
          ns \<notin> nssaNamespace ` set (fst (processNamespaces r nss [] c))
        \<and> ns \<notin> nssaNamespace `
             set (fst (processNamespaces r nss [] (snd (removeAndUpdateNSFromCI r c))))
        \<and> filter (\<lambda>n. nsName n = nsName ns) (namespaces (snd (reconcileRBAC r nss c)))
            = filter (\<lambda>n. nsName n = nsName ns) (namespaces c))
     \<and> ((\<forall>k. \<not> faults c k) \<and> fst (reconcileRBAC r nss c) = None \<longrightarrow>
          labelsOf namespaceVersionLabel (snd (reconcileRBAC r nss c))
            = stamped (nsName ` nssaNamespace `
                  set (fst (processNamespaces r nss [] (snd (removeAndUpdateNSFromCI r c)))))
                (version r) (labelsOf namespaceVersionLabel c))
     \<and> (snd (featureFlags (tcParams (tektonConfig r)) (True, True))
          \<and> fst (ensurePreRequisites r c) = None
          \<and> length (selectedForRBAC (fst (snd (ensurePreRequisites r c)))
                 (snd (snd (ensurePreRequisites r c)))) \<noteq> 0 \<longrightarrow>
          fst (createResources r c)
            = fst (reconcileRBAC (fst (snd (ensurePreRequisites r c)))
                    (selectedForRBAC (fst (snd (ensurePreRequisites r c)))
                       (snd (snd (ensurePreRequisites r c))))
                    (snd (getNamespacesToBeReconciled (fst (snd (ensurePreRequisites r c)))
                       (snd (snd (ensurePreRequisites r c)))))))
     \<and> (ns \<in> set (namespaces c) \<and> distinct (map nsName (namespaces c))
          \<and> fst (EnsureRBACInstallerSet r c) = Inr rbacISet \<longrightarrow>
          filter (\<lambda>p. fst p = nsName ns)
              (labelsOf namespaceVersionLabel (snd (snd (createResources r c))))
            = filter (\<lambda>p. fst p = nsName ns) (labelsOf namespaceVersionLabel c))"
proof -
  have ex1: "exceedsCeiling r ns (snd (removeAndUpdateNSFromCI r c))"
    using assms removeAndUpdateNSFromCI_keeps [of r c]
    by (cases "removeAndUpdateNSFromCI r c") (simp add: exceedsCeiling_keeps)
  have notin: "ns \<notin> nssaNamespace ` set (fst (processNamespaces r nss [] c0))"
    if "exceedsCeiling r ns c0" for c0
  proof
    assume "ns \<in> nssaNamespace ` set (fst (processNamespaces r nss [] c0))"
    then obtain x where "x \<in> set (fst (processNamespaces r nss [] c0))" and "nssaNamespace x = ns"
      by auto
    with processNamespaces_members [of x r nss "[]" c0] that show False by simp
  qed
  from processRBAC_violation [OF assms] handleSCCInNamespace_violation_error [OF assms]
    processNamespaces_skip [OF assms, of rest acc] processNamespaces_skip_at [OF assms, of pre rest acc]
    processNamespaces_collects [of r m before c' after]
    reconcileRBAC_single_violation [OF assms] reconcileRBAC_error [of r nss c]
    notin [OF assms] notin [OF ex1] reconcileRBAC_violation [OF assms, of nss]
    reconcileRBAC_labels [of c r nss] createResources_rbac_error [of r c]
    createResources_label [OF assms, of rbacISet]
  show ?thesis by blast
qed

theorem ceiling_violation_isolated_witness:
  "exceedsCeiling (ceilingRbac ''pipelines-scc'') (annotatedNamespace ''b'' ''privileged'' ''v0'')
      (preparedCluster threeNamespaces)
   \<and> \<not> ceilingTooRestrictive (ceilingRbac ''pipelines-scc'') (preparedCluster threeNamespaces)
   \<and> isl (fst (processRBAC (ceilingRbac ''pipelines-scc'')
        (annotatedNamespace ''b'' ''privileged'' ''v0'') (preparedCluster threeNamespaces)))
   \<and> fst (handleSCCInNamespace (ceilingRbac ''pipelines-scc'')
        (annotatedNamespace ''b'' ''privileged'' ''v0'') (preparedCluster threeNamespaces))
       = Some NamespacePolicyViolation
   \<and> \<not> isl (fst (processRBAC (ceilingRbac ''pipelines-scc'')
        (annotatedNamespace ''d'' ''restricted'' ''v0'')
        (snd (processNamespaces (ceilingRbac ''pipelines-scc'')
           [plainNamespace ''a'', annotatedNamespace ''b'' ''privileged'' ''v0''] []
           (preparedCluster threeNamespaces)))))
   \<and> annotatedNamespace ''d'' ''restricted'' ''v0''
       \<in> nssaNamespace ` set (fst (processNamespaces (ceilingRbac ''pipelines-scc'')
           threeNamespaces [] (preparedCluster threeNamespaces)))
   \<and> fst (reconcileRBAC (ceilingRbac ''pipelines-scc'') threeNamespaces
        (preparedCluster threeNamespaces)) = None
   \<and> filter (\<lambda>n. nsName n = ''b'')
        (namespaces (snd (reconcileRBAC (ceilingRbac ''pipelines-scc'') threeNamespaces
           (preparedCluster threeNamespaces))))
       = [annotatedNamespace ''b'' ''privileged'' ''v0'']
   \<and> labelsOf namespaceVersionLabel (preparedCluster threeNamespaces)
       = [(''a'', None), (''b'', Some ''v0''), (''d'', Some ''v0'')]
   \<and> labelsOf namespaceVersionLabel
        (snd (reconcileRBAC (ceilingRbac ''pipelines-scc'') threeNamespaces
           (preparedCluster threeNamespaces)))
       = [(''a'', Some ''v1''), (''b'', Some ''v0''), (''d'', Some ''v1'')]
   \<and> exceedsCeiling (ceilingRbac ''pipelines-scc'') (annotatedNamespace ''b'' ''privileged'' ''v0'')
      (readyCluster threeNamespaces)
   \<and> fst (ensurePreRequisites (ceilingRbac ''pipelines-scc'') (readyCluster threeNamespaces)) = None
   \<and> map nsName (selectedForRBAC
         (fst (snd (ensurePreRequisites (ceilingRbac ''pipelines-scc'') (readyCluster threeNamespaces))))
         (snd (snd (ensurePreRequisites (ceilingRbac ''pipelines-scc'') (readyCluster threeNamespaces)))))
       = [''a'', ''b'', ''d'']
   \<and> fst (createResources (ceilingRbac ''pipelines-scc'') (readyCluster threeNamespaces)) = None
   \<and> fst (reconcileRBAC
         (fst (snd (ensurePreRequisites (ceilingRbac ''pipelines-scc'') (readyCluster threeNamespaces))))
         (selectedForRBAC
            (fst (snd (ensurePreRequisites (ceilingRbac ''pipelines-scc'') (readyCluster threeNamespaces))))
            (snd (snd (ensurePreRequisites (ceilingRbac ''pipelines-scc'') (readyCluster threeNamespaces)))))
         (snd (getNamespacesToBeReconciled
            (fst (snd (ensurePreRequisites (ceilingRbac ''pipelines-scc'') (readyCluster threeNamespaces))))
            (snd (snd (ensurePreRequisites (ceilingRbac ''pipelines-scc'') (readyCluster threeNamespaces)))))))
       = None
   \<and> labelsOf namespaceVersionLabel
        (snd (snd (createResources (ceilingRbac ''pipelines-scc'') (readyCluster threeNamespaces))))
       = [(''a'', Some ''v1''), (''b'', Some ''v0''), (''d'', Some ''v1'')]
   \<and> filter (\<lambda>p. fst p = ''b'')
        (labelsOf namespaceVersionLabel
           (snd (snd (createResources (ceilingRbac ''pipelines-scc'') (readyCluster threeNamespaces)))))
       = [(''b'', Some ''v0'')]"
proof -
  let ?r = "ceilingRbac ''pipelines-scc''"
  let ?a = "plainNamespace ''a''"
  let ?b = "annotatedNamespace ''b'' ''privileged'' ''v0''"
  let ?d = "annotatedNamespace ''d'' ''restricted'' ''v0''"
  let ?c = "preparedCluster threeNamespaces"
  let ?cR = "readyCluster threeNamespaces"
  let ?r1 = "fst (snd (ensurePreRequisites ?r ?cR))"
  let ?c1 = "snd (snd (ensurePreRequisites ?r ?cR))"
  have three: "threeNamespaces = [?a, ?b] @ ?d # []" by (simp add: threeNamespaces_def)
  have nm: "nsName ?b = ''b''" by (simp add: annotatedNamespace_def)
  have ex: "exceedsCeiling ?r ?b ?c" by code_simp
  have exR: "exceedsCeiling ?r ?b ?cR" by code_simp
  have ok: "\<not> ceilingTooRestrictive ?r ?c" by code_simp
  have nf: "\<forall>k. \<not> faults ?c k"
    by (simp add: preparedCluster_def readyCluster_def freshCluster_def emptyCluster_def)
  have mem: "?b \<in> set threeNamespaces" by (simp add: threeNamespaces_def)
  have dist: "distinct (map nsName threeNamespaces)"
    by (simp add: threeNamespaces_def plainNamespace_def annotatedNamespace_def)
  have ns: "namespaces ?c = threeNamespaces" "namespaces ?cR = threeNamespaces"
    by (simp_all add: preparedCluster_def readyCluster_def freshCluster_def emptyCluster_def)
  have fb: "filter (\<lambda>n. nsName n = ''b'') threeNamespaces = [?b]"
    by (simp add: threeNamespaces_def plainNamespace_def annotatedNamespace_def)
  have dOK: "\<not> isl (fst (processRBAC ?r ?d (snd (processNamespaces ?r [?a, ?b] [] ?c))))"
    by code_simp
  have pass: "fst (reconcileRBAC ?r threeNamespaces ?c) = None" by code_simp
  have before: "labelsOf namespaceVersionLabel ?c
       = [(''a'', None), (''b'', Some ''v0''), (''d'', Some ''v0'')]" by code_simp
  have st: "stamped (nsName ` nssaNamespace `
                  set (fst (processNamespaces ?r threeNamespaces [] (snd (removeAndUpdateNSFromCI ?r ?c)))))
                (version ?r) (labelsOf namespaceVersionLabel ?c)
       = [(''a'', Some ''v1''), (''b'', Some ''v0''), (''d'', Some ''v1'')]" by code_simp
  have flags: "snd (featureFlags (tcParams (tektonConfig ?r)) (True, True))"
    by (simp add: ceilingRbac_def exampleRbac_def)
  have pre: "fst (ensurePreRequisites ?r ?cR) = None" by code_simp
  have sel: "map nsName (selectedForRBAC ?r1 ?c1) = [''a'', ''b'', ''d'']" by code_simp
  then have len: "length (selectedForRBAC ?r1 ?c1) \<noteq> 0" by (metis length_map list.size(3) list.discI length_0_conv)
  have whole: "fst (createResources ?r ?cR) = None" by code_simp
  have after: "labelsOf namespaceVersionLabel (snd (snd (createResources ?r ?cR)))
       = [(''a'', Some ''v1''), (''b'', Some ''v0''), (''d'', Some ''v1'')]" by code_simp
  have lb: "filter (\<lambda>p. fst p = ''b'') (labelsOf namespaceVersionLabel ?cR) = [(''b'', Some ''v0'')]"
    by code_simp
  have iset: "fst (EnsureRBACInstallerSet ?r ?cR) = Inr (newInstallerSet ''v1'')"
    using dist by (rule readyCluster_installerSet_any)
  note t = ceiling_violation_isolated [OF ex, of _ _ "[?a, ?b]" ?d "[?a, ?b]" ?c "[]" threeNamespaces]
  from t have w1: "\<exists>err. fst (processRBAC ?r ?b ?c) = Inl err" by blast
  then have w1': "isl (fst (processRBAC ?r ?b ?c))" by auto
  from t nf have w2: "fst (handleSCCInNamespace ?r ?b ?c) = Some NamespacePolicyViolation" by blast
  from t dOK have "?d \<in> nssaNamespace ` set (fst (processNamespaces ?r ([?a, ?b] @ ?d # []) [] ?c))"
    by blast
  then have w3: "?d \<in> nssaNamespace ` set (fst (processNamespaces ?r threeNamespaces [] ?c))"
    by (simp only: three [symmetric])
  from t mem dist
  have "filter (\<lambda>n. nsName n = nsName ?b) (namespaces (snd (reconcileRBAC ?r threeNamespaces ?c)))
            = filter (\<lambda>n. nsName n = nsName ?b) (namespaces ?c)" by blast
  then have w4: "filter (\<lambda>n. nsName n = ''b'') (namespaces (snd (reconcileRBAC ?r threeNamespaces ?c)))
       = [?b]" by (simp only: nm ns fb)
  from t nf pass
  have "labelsOf namespaceVersionLabel (snd (reconcileRBAC ?r threeNamespaces ?c))
            = stamped (nsName ` nssaNamespace `
                  set (fst (processNamespaces ?r threeNamespaces [] (snd (removeAndUpdateNSFromCI ?r ?c)))))
                (version ?r) (labelsOf namespaceVersionLabel ?c)" by blast
  then have w5: "labelsOf namespaceVersionLabel (snd (reconcileRBAC ?r threeNamespaces ?c))
       = [(''a'', Some ''v1''), (''b'', Some ''v0''), (''d'', Some ''v1'')]"
    by (simp only: st)
  note u = ceiling_violation_isolated [OF exR, of _ _ _ _ _ _ _ _ "newInstallerSet ''v1''"]
  from u flags pre len
  have "fst (createResources ?r ?cR)
      = fst (reconcileRBAC ?r1 (selectedForRBAC ?r1 ?c1) (snd (getNamespacesToBeReconciled ?r1 ?c1)))"
    by blast
  with whole have w6: "fst (reconcileRBAC ?r1 (selectedForRBAC ?r1 ?c1)
      (snd (getNamespacesToBeReconciled ?r1 ?c1))) = None" by simp
  from u mem dist iset
  have "filter (\<lambda>p. fst p = nsName ?b)
              (labelsOf namespaceVersionLabel (snd (snd (createResources ?r ?cR))))
            = filter (\<lambda>p. fst p = nsName ?b) (labelsOf namespaceVersionLabel ?cR)"
    by (simp only: ns simp_thms)
  then have w7: "filter (\<lambda>p. fst p = ''b'')
        (labelsOf namespaceVersionLabel (snd (snd (createResources ?r ?cR)))) = [(''b'', Some ''v0'')]"
    by (simp only: nm lb)
  from ex ok w1' w2 dOK w3 pass w4 before w5 exR pre sel whole w6 after w7
  show ?thesis by (simp only: simp_thms)
qed

subsection \<open>Validation of the ceiling\<close>

text \<open>
  C6, as stated, fails. With RBAC creation switched off (\<open>createRbacResource\<close> is
  \<open>false\<close>) and a ceiling that is more restrictive than the default, the pass does not
  run \<^verbatim>\<open>ensurePreRequisites\<close>: it returns no error and it processes the namespace \<open>a\<close>,
  which ends with the trusted-config label. And with RBAC enabled but no bookkeeping
  object for the version, the pass fails with the signal to reconcile again, not
  with the policy violation, after the version label of the namespace \<open>a\<close> was cleared.
\<close>

theorem ceiling_validation_counterexample:
  "ceilingTooRestrictive (flagsRbac ''restricted'' [\<lparr>pName = rbacParamName, pValue = ''false''\<rparr>])
      (readyCluster [plainNamespace ''a''])
   \<and> fst (createResources (flagsRbac ''restricted'' [\<lparr>pName = rbacParamName, pValue = ''false''\<rparr>])
        (readyCluster [plainNamespace ''a''])) = None
   \<and> labelsOf namespaceTrustedConfigLabel (readyCluster [plainNamespace ''a'']) = [(''a'', None)]
   \<and> labelsOf namespaceTrustedConfigLabel
        (snd (snd (createResources
           (flagsRbac ''restricted'' [\<lparr>pName = rbacParamName, pValue = ''false''\<rparr>])
           (readyCluster [plainNamespace ''a''])))) = [(''a'', Some ''v1'')]
   \<and> ceilingTooRestrictive (ceilingRbac ''restricted'') (freshCluster [labeledNamespace ''a'' ''v1''])
   \<and> fst (createResources (ceilingRbac ''restricted'') (freshCluster [labeledNamespace ''a'' ''v1'']))
       = Some RECONCILE_AGAIN_ERR
   \<and> labelsOf namespaceVersionLabel (freshCluster [labeledNamespace ''a'' ''v1''])
       = [(''a'', Some ''v1'')]
   \<and> labelsOf namespaceVersionLabel
        (snd (snd (createResources (ceilingRbac ''restricted'')
           (freshCluster [labeledNamespace ''a'' ''v1''])))) = [(''a'', None)]"
  by code_simp

text \<open>
  C6, amended. Let \<^verbatim>\<open>maxAllowed\<close> be set and more restrictive than the default SCC. Then
  \<^verbatim>\<open>ensurePreRequisites\<close> returns an error, and a pass with RBAC enabled returns exactly
  what \<^verbatim>\<open>ensurePreRequisites\<close> returned, error and state: nothing of the pass runs after
  the check. When the bookkeeping step fails or asks for another pass, its error is the
  one returned. When the bookkeeping object exists, the cluster after
  \<^verbatim>\<open>ensurePreRequisites\<close> differs from the cluster before at most in the bookkeeping
  objects and the log of calls; and when moreover no call fails and the default is not
  empty, the error is the policy violation and the calls are the deletion of the obsolete
  bookkeeping object, the lookup of the current one and the three reads of the SCCs: no
  namespace is listed, read or changed. If no call fails, the bookkeeping object exists,
  the default SCC is on the cluster, and the ceiling is unset or the default is at least
  as restrictive as the ceiling, then \<^verbatim>\<open>ensurePreRequisites\<close> returns no error.
\<close>

theorem ceiling_validation:
  "(ceilingTooRestrictive r c \<longrightarrow>
       fst (ensurePreRequisites r c) \<noteq> None
     \<and> (snd (featureFlags (tcParams (tektonConfig r)) (True, True)) \<longrightarrow>
          createResources r c = ensurePreRequisites r c)
     \<and> (fst (EnsureRBACInstallerSet r c) = Inl err \<longrightarrow>
          ensurePreRequisites r c = (Some err, r, snd (EnsureRBACInstallerSet r c)))
     \<and> (fst (EnsureRBACInstallerSet r c) = Inr rbacISet \<longrightarrow>
          onlyBookkeeping c (snd (snd (ensurePreRequisites r c)))
        \<and> ((\<forall>k. \<not> faults c k) \<and> tcSCCDefault (tektonConfig r) \<noteq> [] \<longrightarrow>
             ensurePreRequisites r c
               = (Some PolicyViolation, r\<lparr>ownerRef := isOwnerRef rbacISet\<rparr>,
                  c\<lparr>installerSets :=
                       filter (\<lambda>s. isName s \<noteq> rbacInstallerSetNameOld) (installerSets c),
                    calls := calls c @
                      [Call Delete TektonInstallerSets [] rbacInstallerSetNameOld,
                       Call List TektonInstallerSets [] (version r),
                       Call Get SecurityContextConstraints [] (tcSCCDefault (tektonConfig r)),
                       Call List SecurityContextConstraints [] [],
                       Call Get SecurityContextConstraints []
                         (tcSCCMaxAllowed (tektonConfig r))]\<rparr>))))
   \<and> ((\<forall>k. \<not> faults c k) \<and> fst (EnsureRBACInstallerSet r c) = Inr rbacISet
        \<and> tcSCCDefault (tektonConfig r) \<noteq> []
        \<and> tcSCCDefault (tektonConfig r) \<in> set (sccPriority c)
        \<and> (tcSCCMaxAllowed (tektonConfig r) = []
            \<or> SCCAMoreRestrictiveThanB (sccPriority c) (tcSCCDefault (tektonConfig r))
                 (tcSCCMaxAllowed (tektonConfig r)) = Inr True)
      \<longrightarrow> fst (ensurePreRequisites r c) = None)"
  using ensurePreRequisites_violation(1) [of r c] createResources_violation_eq [of r c]
    ensurePreRequisites_gate [of r c err] ensurePreRequisites_violation_frame [of r c rbacISet]
    ensurePreRequisites_violation_exact [of c r rbacISet]
    ensurePreRequisites_nofault(2) [of c r rbacISet]
  by blast

theorem ceiling_validation_witness:
  "ceilingTooRestrictive (ceilingRbac ''restricted'')
      (readyCluster [plainNamespace ''a'', annotatedNamespace ''b'' ''restricted'' ''v0''])
   \<and> createResources (ceilingRbac ''restricted'')
        (readyCluster [plainNamespace ''a'', annotatedNamespace ''b'' ''restricted'' ''v0''])
     = (Some PolicyViolation,
        (ceilingRbac ''restricted'')\<lparr>ownerRef := isOwnerRef (newInstallerSet ''v1'')\<rparr>,
        (readyCluster [plainNamespace ''a'', annotatedNamespace ''b'' ''restricted'' ''v0''])
          \<lparr>calls := [Call Delete TektonInstallerSets [] rbacInstallerSetNameOld,
                      Call List TektonInstallerSets [] ''v1'',
                      Call Get SecurityContextConstraints [] ''pipelines-scc'',
                      Call List SecurityContextConstraints [] [],
                      Call Get SecurityContextConstraints [] ''restricted'']\<rparr>)
   \<and> onlyBookkeeping
        (readyCluster [plainNamespace ''a'', annotatedNamespace ''b'' ''restricted'' ''v0''])
        (snd (snd (ensurePreRequisites (ceilingRbac ''restricted'')
           (readyCluster [plainNamespace ''a'', annotatedNamespace ''b'' ''restricted'' ''v0'']))))
   \<and> fst (EnsureRBACInstallerSet (ceilingRbac ''restricted'')
        (freshCluster [annotatedNamespace ''b'' ''restricted'' ''v0''])) = Inl RECONCILE_AGAIN_ERR
   \<and> fst (ensurePreRequisites (ceilingRbac ''restricted'')
        (freshCluster [annotatedNamespace ''b'' ''restricted'' ''v0''])) = Some RECONCILE_AGAIN_ERR
   \<and> SCCAMoreRestrictiveThanB
        (sccPriority (readyCluster [plainNamespace ''a'', annotatedNamespace ''b'' ''restricted'' ''v0'']))
        (tcSCCDefault (tektonConfig (ceilingRbac ''privileged''))) ''privileged'' = Inr True
   \<and> fst (ensurePreRequisites (ceilingRbac ''privileged'')
        (readyCluster [plainNamespace ''a'', annotatedNamespace ''b'' ''restricted'' ''v0''])) = None
   \<and> fst (ensurePreRequisites (ceilingRbac [])
        (readyCluster [plainNamespace ''a'', annotatedNamespace ''b'' ''restricted'' ''v0''])) = None"
proof -
  let ?nss = "[plainNamespace ''a'', annotatedNamespace ''b'' ''restricted'' ''v0'']"
  let ?c = "readyCluster ?nss"
  let ?f = "freshCluster [annotatedNamespace ''b'' ''restricted'' ''v0'']"
  let ?r = "ceilingRbac ''restricted''"
  have dist: "distinct (map nsName ?nss)"
    by (simp add: plainNamespace_def annotatedNamespace_def)
  have nf: "\<forall>k. \<not> faults ?c k"
    by (simp add: readyCluster_def freshCluster_def emptyCluster_def)
  have prio: "sccPriority (readyCluster xs) = [''restricted'', ''pipelines-scc'', ''privileged'']"
    "sccPriority (freshCluster xs) = [''restricted'', ''pipelines-scc'', ''privileged'']" for xs
    by (simp_all add: readyCluster_def freshCluster_def emptyCluster_def)
  have tc: "tcSCCDefault (tektonConfig (ceilingRbac m)) = ''pipelines-scc''"
    "tcSCCMaxAllowed (tektonConfig (ceilingRbac m)) = m"
    "tcParams (tektonConfig (ceilingRbac m)) = []"
    "version (ceilingRbac m) = ''v1''" for m
    by (simp_all add: ceilingRbac_def exampleRbac_def)
  have bad: "ceilingTooRestrictive ?r ?c"
    by (simp add: ceilingTooRestrictive_def prio tc SCCAMoreRestrictiveThanB_def indexOf_def)
  have badf: "ceilingTooRestrictive ?r ?f"
    by (simp add: ceilingTooRestrictive_def prio tc SCCAMoreRestrictiveThanB_def indexOf_def)
  have good: "SCCAMoreRestrictiveThanB (sccPriority ?c)
        (tcSCCDefault (tektonConfig (ceilingRbac ''privileged''))) ''privileged'' = Inr True"
    by (simp add: prio tc SCCAMoreRestrictiveThanB_def indexOf_def)
  have flags: "snd (featureFlags (tcParams (tektonConfig ?r)) (True, True))"
    by (simp add: tc)
  have din: "tcSCCDefault (tektonConfig (ceilingRbac m)) \<in> set (sccPriority ?c)" for m
    by (simp add: prio tc)
  have dne: "tcSCCDefault (tektonConfig (ceilingRbac m)) \<noteq> []" for m by (simp add: tc)
  have i: "fst (EnsureRBACInstallerSet (ceilingRbac m) ?c) = Inr (newInstallerSet ''v1'')" for m
    using dist by (rule readyCluster_installerSet_any)
  have gate: "fst (EnsureRBACInstallerSet ?r ?f) = Inl RECONCILE_AGAIN_ERR"
  proof -
    have nff: "\<forall>k. \<not> faults ?f k" by (simp add: freshCluster_def emptyCluster_def)
    have v: "validLabelValue (version ?r)"
      using example_version_valid by (simp add: ceilingRbac_def)
    have d: "distinct (map nsName (namespaces ?f))"
      by (simp add: freshCluster_def emptyCluster_def)
    have f: "find (\<lambda>s. isVersion s = version ?r)
             (filter (\<lambda>s. isName s \<noteq> rbacInstallerSetNameOld) (installerSets ?f)) = None"
      by (simp add: freshCluster_def emptyCluster_def)
    from EnsureRBACInstallerSet_nofault(1) [OF nff v d f] show ?thesis by simp
  qed
  have same: "?c\<lparr>installerSets := filter (\<lambda>s. isName s \<noteq> rbacInstallerSetNameOld) (installerSets ?c),
              calls := calls ?c @ cs\<rparr> = ?c\<lparr>calls := cs\<rparr>" for cs
    by (simp add: readyCluster_def freshCluster_def emptyCluster_def newInstallerSet_def
        rbacInstallerSetNameOld_def rbacInstallerSetNamePrefix_def)
  from ceiling_validation [of ?r ?c _ "newInstallerSet ''v1''"] bad flags nf i dne
  have a: "createResources ?r ?c = ensurePreRequisites ?r ?c"
    and b: "onlyBookkeeping ?c (snd (snd (ensurePreRequisites ?r ?c)))"
    and e: "ensurePreRequisites ?r ?c
               = (Some PolicyViolation, ?r\<lparr>ownerRef := isOwnerRef (newInstallerSet ''v1'')\<rparr>,
                  ?c\<lparr>installerSets :=
                       filter (\<lambda>s. isName s \<noteq> rbacInstallerSetNameOld) (installerSets ?c),
                    calls := calls ?c @
                      [Call Delete TektonInstallerSets [] rbacInstallerSetNameOld,
                       Call List TektonInstallerSets [] (version ?r),
                       Call Get SecurityContextConstraints [] (tcSCCDefault (tektonConfig ?r)),
                       Call List SecurityContextConstraints [] [],
                       Call Get SecurityContextConstraints []
                         (tcSCCMaxAllowed (tektonConfig ?r))]\<rparr>)"
    by blast+
  have a': "createResources ?r ?c
     = (Some PolicyViolation, ?r\<lparr>ownerRef := isOwnerRef (newInstallerSet ''v1'')\<rparr>,
        ?c\<lparr>calls := [Call Delete TektonInstallerSets [] rbacInstallerSetNameOld,
                      Call List TektonInstallerSets [] ''v1'',
                      Call Get SecurityContextConstraints [] ''pipelines-scc'',
                      Call List SecurityContextConstraints [] [],
                      Call Get SecurityContextConstraints [] ''restricted'']\<rparr>)"
    unfolding a e same tc ..
  from ceiling_validation [of ?r ?f RECONCILE_AGAIN_ERR] badf gate
  have g: "fst (ensurePreRequisites ?r ?f) = Some RECONCILE_AGAIN_ERR" by simp
  from ceiling_validation [of "ceilingRbac ''privileged''" ?c _ "newInstallerSet ''v1''"] good nf i dne din
  have c: "fst (ensurePreRequisites (ceilingRbac ''privileged'') ?c) = None"
    by (simp add: tc)
  from ceiling_validation [of "ceilingRbac []" ?c _ "newInstallerSet ''v1''"] nf i dne din
  have d: "fst (ensurePreRequisites (ceilingRbac []) ?c) = None"
    by (simp add: tc)
  from bad a' b gate g good c d show ?thesis by (simp only: simp_thms)
qed

subsection \<open>Update calls of a repeated pass\<close>




end
